(* ===== verification/Prelude.thy ===== *)
theory Prelude
  imports
    Complex_Main
    "HOL-Library.Char_ord"
    "HOL-Library.List_Lexorder"
    "HOL-Library.Product_Lexorder"
    "HOL-Library.AList"
    "HOL-Library.Sublist"
    "HOL-Library.Multiset"
begin

text \<open>
  Shared vocabulary of the development: what the modelled Go code uses of the language
  and of its standard library, and the generic lemmas the component theories share.

  \<^item> A Go \<^verbatim>\<open>string\<close> is a sequence of bytes; it is a HOL \<open>string\<close> here, each \<open>char\<close> one
    byte. \<open>List_Lexorder\<close> with \<open>Char_ord\<close> gives it Go's bytewise order.
  \<^item> An \<^verbatim>\<open>int\<close>, \<^verbatim>\<open>int64\<close> or \<^verbatim>\<open>time.Duration\<close> is an \<open>int\<close>; where the code can overflow, the
    operation is followed by \<open>wrap64\<close>, two's complement reduction to 64 bits.
  \<^item> A Go map is an association list with distinct keys (\<open>gomap_wf\<close>). Its order stands for
    the iteration order, which the language leaves open, so theorems never fix it.
  \<^item> \<^verbatim>\<open>slices.SortStableFunc\<close> is \<open>sort_key\<close>, which is stable too.
\<close>

named_theorems gostring \<open>facts about the modelled functions of package strings\<close>
named_theorems gomap \<open>facts about Go maps as association lists\<close>

named_theorems go_return \<open>when a fallible step followed by another one succeeds\<close>

lemma guard_Inr [go_return]: "(if b then Inl e else r) = Inr x \<longleftrightarrow> \<not> b \<and> r = Inr x"
  by simp

lemma sum_case_Inr [go_return]:
  "(case r of Inl e \<Rightarrow> Inl (f e) | Inr y \<Rightarrow> g y) = Inr x \<longleftrightarrow> (\<exists>y. r = Inr y \<and> g y = Inr x)"
  by (cases r) simp_all

section \<open>Integers of a fixed width\<close>

definition wrap64 :: "int \<Rightarrow> int" where
  "wrap64 x = (x + 2 ^ 63) mod 2 ^ 64 - 2 ^ 63"

definition in_int64 :: "int \<Rightarrow> bool" where
  "in_int64 x \<longleftrightarrow> - (2 ^ 63) \<le> x \<and> x < 2 ^ 63"

lemma wrap64_id [simp]: "in_int64 x \<Longrightarrow> wrap64 x = x"
  by (simp add: wrap64_def in_int64_def)

lemma wrap64_range [simp]: "in_int64 (wrap64 x)"
  using pos_mod_bound [of "2 ^ 64" "x + 2 ^ 63"] pos_mod_sign [of "2 ^ 64" "x + 2 ^ 63"]
  unfolding wrap64_def in_int64_def by simp

text \<open>Go's integer division truncates towards zero.\<close>

definition go_div :: "int \<Rightarrow> int \<Rightarrow> int" where
  "go_div a b = sgn a * sgn b * (\<bar>a\<bar> div \<bar>b\<bar>)"

lemma go_div_nonneg [simp]: "0 \<le> a \<Longrightarrow> 0 < b \<Longrightarrow> go_div a b = a div b"
  by (cases "a = 0") (simp_all add: go_div_def)

section \<open>Package strings\<close>

text \<open>
  The UTF-8 encodings of the code points with Unicode's White\_Space property: what
  \<^verbatim>\<open>strings.TrimSpace\<close> removes at both ends.
\<close>

definition white_encodings :: "string list" where
  "white_encodings =
     [[CHR 0x09], [CHR 0x0A], [CHR 0x0B], [CHR 0x0C], [CHR 0x0D], [CHR 0x20],
      [CHR 0xC2, CHR 0x85], [CHR 0xC2, CHR 0xA0], [CHR 0xE1, CHR 0x9A, CHR 0x80],
      [CHR 0xE2, CHR 0x80, CHR 0x80], [CHR 0xE2, CHR 0x80, CHR 0x81],
      [CHR 0xE2, CHR 0x80, CHR 0x82], [CHR 0xE2, CHR 0x80, CHR 0x83],
      [CHR 0xE2, CHR 0x80, CHR 0x84], [CHR 0xE2, CHR 0x80, CHR 0x85],
      [CHR 0xE2, CHR 0x80, CHR 0x86], [CHR 0xE2, CHR 0x80, CHR 0x87],
      [CHR 0xE2, CHR 0x80, CHR 0x88], [CHR 0xE2, CHR 0x80, CHR 0x89],
      [CHR 0xE2, CHR 0x80, CHR 0x8A], [CHR 0xE2, CHR 0x80, CHR 0xA8],
      [CHR 0xE2, CHR 0x80, CHR 0xA9], [CHR 0xE2, CHR 0x80, CHR 0xAF],
      [CHR 0xE2, CHR 0x81, CHR 0x9F], [CHR 0xE3, CHR 0x80, CHR 0x80]]"

fun strip_first :: "string list \<Rightarrow> string \<Rightarrow> string option" where
  "strip_first [] s = None"
| "strip_first (w # ws) s =
     (if w \<noteq> [] \<and> prefix w s then Some (drop (length w) s) else strip_first ws s)"

lemma strip_first_shorter:
  "strip_first ws s = Some r \<Longrightarrow> length r < length s"
  by (induction ws) (auto split: if_splits simp: prefix_def)

function trim_with :: "string list \<Rightarrow> string \<Rightarrow> string" where
  "trim_with ws s = (case strip_first ws s of None \<Rightarrow> s | Some r \<Rightarrow> trim_with ws r)"
  by pat_completeness auto
termination
  by (relation "measure (\<lambda>(ws, s). length s)") (auto dest: strip_first_shorter)

declare trim_with.simps [simp del]

definition trim_left :: "string \<Rightarrow> string" where
  "trim_left s = trim_with white_encodings s"

definition trim_right :: "string \<Rightarrow> string" where
  "trim_right s = rev (trim_with (map rev white_encodings) (rev s))"

definition trim_space :: "string \<Rightarrow> string" where
  "trim_space s = trim_right (trim_left s)"

lemma strip_first_None_prefix:
  "strip_first ws (s @ t) = None \<Longrightarrow> strip_first ws s = None"
  by (induction ws) (auto split: if_splits)

lemma trim_with_fixed: "strip_first ws (trim_with ws s) = None"
proof (induction ws s rule: trim_with.induct)
  case (1 ws s)
  show ?case
  proof (cases "strip_first ws s")
    case None
    then show ?thesis by (simp add: trim_with.simps [of ws s])
  next
    case (Some r)
    with "1.IH" show ?thesis by (simp add: trim_with.simps [of ws s])
  qed
qed

lemma trim_with_done: "strip_first ws s = None \<Longrightarrow> trim_with ws s = s"
  by (simp add: trim_with.simps [of ws s])

lemma strip_first_suffix: "strip_first ws s = Some r \<Longrightarrow> suffix r s"
  by (induction ws) (auto split: if_splits simp: suffix_drop)

lemma trim_with_suffix: "suffix (trim_with ws s) s"
proof (induction ws s rule: trim_with.induct)
  case (1 ws s)
  then show ?case
    by (cases "strip_first ws s")
      (auto simp: trim_with.simps [of ws s] dest: strip_first_suffix suffix_order.trans)
qed

lemma trim_right_prefix: "prefix (trim_right s) s"
  using trim_with_suffix [of "map rev white_encodings" "rev s"]
  unfolding trim_right_def by (metis rev_rev_ident suffix_to_prefix)

lemma trim_left_suffix: "suffix (trim_left s) s"
  unfolding trim_left_def by (rule trim_with_suffix)

lemma trim_left_fixed: "strip_first white_encodings (trim_left s) = None"
  unfolding trim_left_def by (rule trim_with_fixed)

lemma trim_space_left_fixed: "strip_first white_encodings (trim_space s) = None"
proof -
  obtain t where "trim_left s = trim_space s @ t"
    using trim_right_prefix [of "trim_left s"] unfolding trim_space_def prefix_def by blast
  with trim_left_fixed [of s] show ?thesis by (metis strip_first_None_prefix)
qed

lemma trim_space_right_fixed:
  "strip_first (map rev white_encodings) (rev (trim_space s)) = None"
  unfolding trim_space_def trim_right_def by (simp add: trim_with_fixed)

lemma trim_space_eqI:
  assumes "strip_first white_encodings s = None"
    and "strip_first (map rev white_encodings) (rev s) = None"
  shows "trim_space s = s"
  using assms by (simp add: trim_space_def trim_left_def trim_right_def trim_with_done)

text \<open>A byte that continues no white space keeps a string's fixed end fixed.\<close>

lemma strip_first_append_sep:
  "strip_first ws u = None \<Longrightarrow> u \<noteq> [] \<Longrightarrow> (\<And>w. w \<in> set ws \<Longrightarrow> c \<notin> set (tl w)) \<Longrightarrow>
     strip_first ws (u @ c # v) = None"
proof (induction ws)
  case Nil
  then show ?case by simp
next
  case (Cons w ws)
  have "\<not> prefix w (u @ c # v)" if "w \<noteq> []"
  proof
    assume "prefix w (u @ c # v)"
    then consider "prefix w u" | us where "w = u @ c # us"
      by (auto simp: prefix_append prefix_Cons)
    then show False
    proof cases
      case 1
      with Cons.prems(1) that show ?thesis by (simp split: if_splits)
    next
      case 2
      with Cons.prems(2) have "c \<in> set (tl w)" by (cases u) auto
      with Cons.prems(3) [of w] show ?thesis by simp
    qed
  qed
  with Cons show ?case by (auto split: if_splits)
qed

lemma trim_space_idem [gostring, simp]: "trim_space (trim_space s) = trim_space s"
  by (rule trim_space_eqI [OF trim_space_left_fixed trim_space_right_fixed])

lemma trim_space_Nil [gostring, simp]: "trim_space [] = []"
  by (rule trim_space_eqI) (simp_all add: white_encodings_def)

text \<open>\<^verbatim>\<open>strings.TrimPrefix\<close>, \<^verbatim>\<open>Index\<close>, \<^verbatim>\<open>Contains\<close>, \<^verbatim>\<open>Count\<close> (of a non-empty substring),
  \<^verbatim>\<open>ReplaceAll\<close> (of a non-empty substring), \<^verbatim>\<open>Split\<close> at one byte and \<^verbatim>\<open>Join\<close>.\<close>

definition trim_prefix :: "string \<Rightarrow> string \<Rightarrow> string" where
  "trim_prefix p s = (if prefix p s then drop (length p) s else s)"

fun index_of :: "string \<Rightarrow> string \<Rightarrow> nat option" where
  "index_of sub [] = (if sub = [] then Some 0 else None)"
| "index_of sub (c # s) =
     (if prefix sub (c # s) then Some 0 else map_option Suc (index_of sub s))"

definition contains :: "string \<Rightarrow> string \<Rightarrow> bool" where
  "contains s sub \<longleftrightarrow> index_of sub s \<noteq> None"

function count_sub :: "string \<Rightarrow> string \<Rightarrow> nat" where
  "count_sub sub [] = 0"
| "count_sub sub (c # s) =
     (if sub \<noteq> [] \<and> prefix sub (c # s) then Suc (count_sub sub (drop (length sub) (c # s)))
      else count_sub sub s)"
  by pat_completeness auto
termination
  by (relation "measure (\<lambda>(sub, s). length s)") auto

function replace_all :: "string \<Rightarrow> string \<Rightarrow> string \<Rightarrow> string" where
  "replace_all old new [] = []"
| "replace_all old new (c # s) =
     (if old \<noteq> [] \<and> prefix old (c # s) then new @ replace_all old new (drop (length old) (c # s))
      else c # replace_all old new s)"
  by pat_completeness auto
termination
  by (relation "measure (\<lambda>(old, new, s). length s)") auto

fun split_at :: "char \<Rightarrow> string \<Rightarrow> string list" where
  "split_at sep [] = [[]]"
| "split_at sep (c # s) =
     (if c = sep then [] # split_at sep s
      else (case split_at sep s of [] \<Rightarrow> [[c]] | w # ws \<Rightarrow> (c # w) # ws))"

fun join :: "string \<Rightarrow> string list \<Rightarrow> string" where
  "join sep [] = []"
| "join sep [w] = w"
| "join sep (w # v # ws) = w @ sep @ join sep (v # ws)"

lemma split_at_nonempty [simp]: "split_at sep s \<noteq> []"
  by (induction s) (auto split: list.splits)

lemma join_Cons: "ws \<noteq> [] \<Longrightarrow> join sep (w # ws) = w @ sep @ join sep ws"
  by (cases ws) auto

lemma join_split_at [gostring]: "join [sep] (split_at sep s) = s"
proof (induction s)
  case Nil
  then show ?case by simp
next
  case (Cons c s)
  show ?case
  proof (cases "split_at sep s")
    case Nil
    then show ?thesis by simp
  next
    case (Cons w ws)
    with Cons.IH show ?thesis by (cases ws) (auto simp: join_Cons)
  qed
qed

lemma index_of_Some:
  "index_of sub s = Some i \<Longrightarrow>
     i + length sub \<le> length s \<and> take (length sub) (drop i s) = sub"
proof (induction sub s arbitrary: i rule: index_of.induct)
  case (1 sub)
  then show ?case by (simp split: if_splits)
next
  case (2 sub c s)
  show ?case
  proof (cases "prefix sub (c # s)")
    case True
    with "2.prems" have "i = 0" by simp
    moreover from True have "length sub \<le> length (c # s)" by (rule prefix_length_le)
    moreover from True have "take (length sub) (c # s) = sub" by (auto simp: prefix_def)
    ultimately show ?thesis by simp
  next
    case False
    with "2.prems" obtain j where j: "index_of sub s = Some j" "i = Suc j" by auto
    with "2.IH" False show ?thesis by auto
  qed
qed

text \<open>The quoting of \<^verbatim>\<open>%q\<close>. Bytes above 127 are kept, as it does for printable text; it escapes
  the unprintable ones, which is not modelled.\<close>

definition hex_digit :: "nat \<Rightarrow> char" where
  "hex_digit n = (if n < 10 then char_of (48 + n) else char_of (87 + n))"

fun quote_char :: "char \<Rightarrow> string" where
  "quote_char c =
     (if c = CHR 0x22 then [CHR 0x5C, CHR 0x22]
      else if c = CHR 0x5C then [CHR 0x5C, CHR 0x5C]
      else if c = CHR 0x07 then [CHR 0x5C, CHR ''a'']
      else if c = CHR 0x08 then [CHR 0x5C, CHR ''b'']
      else if c = CHR 0x0C then [CHR 0x5C, CHR ''f'']
      else if c = CHR 0x0A then [CHR 0x5C, CHR ''n'']
      else if c = CHR 0x0D then [CHR 0x5C, CHR ''r'']
      else if c = CHR 0x09 then [CHR 0x5C, CHR ''t'']
      else if c = CHR 0x0B then [CHR 0x5C, CHR ''v'']
      else if of_char c < (32::nat) \<or> c = CHR 0x7F
      then [CHR 0x5C, CHR ''x'', hex_digit (of_char c div 16), hex_digit (of_char c mod 16)]
      else [c])"

definition quote :: "string \<Rightarrow> string" where
  "quote s = [CHR 0x22] @ concat (map quote_char s) @ [CHR 0x22]"

section \<open>Lists and maps\<close>

definition gomap_wf :: "('k \<times> 'v) list \<Rightarrow> bool" where
  "gomap_wf m \<longleftrightarrow> distinct (map fst m)"

lemma gomap_wf_Nil [gomap, simp]: "gomap_wf []"
  by (simp add: gomap_wf_def)

lemma gomap_wf_update [gomap, simp]: "gomap_wf m \<Longrightarrow> gomap_wf (AList.update k v m)"
  by (simp add: gomap_wf_def distinct_update)

lemma gomap_wf_delete [gomap, simp]: "gomap_wf m \<Longrightarrow> gomap_wf (AList.delete k m)"
  by (simp add: gomap_wf_def distinct_delete)

lemma gomap_wf_filter [gomap, simp]: "gomap_wf m \<Longrightarrow> gomap_wf (filter P m)"
  by (simp add: gomap_wf_def distinct_map_filter)

lemma map_of_update [gomap, simp]: "map_of (AList.update k v m) = (map_of m)(k \<mapsto> v)"
  by (simp add: update_conv' )

lemma map_of_delete [gomap, simp]: "map_of (AList.delete k m) = (map_of m)(k := None)"
  by (simp add: delete_conv')

text \<open>The last \<open>n\<close> elements, as \<^verbatim>\<open>xs[len(xs)-n:]\<close> of a longer slice.\<close>

definition last_n :: "nat \<Rightarrow> 'a list \<Rightarrow> 'a list" where
  "last_n n xs = drop (length xs - n) xs"

lemma length_last_n [simp]: "length (last_n n xs) = min n (length xs)"
  by (auto simp: last_n_def)

lemma last_n_all: "length xs \<le> n \<Longrightarrow> last_n n xs = xs"
  by (simp add: last_n_def)

lemma suffix_last_n: "suffix (last_n n xs) xs"
  by (simp add: last_n_def suffix_drop)

end
