(* ===== verification/Queue_Contract.thy ===== *)
theory Queue_Contract
  imports Prelude
begin

text \<open>
  The contract shared by the two mutex-protected queues of the agent core: the event
  stream of \<^verbatim>\<open>pkg/ai/stream.go\<close> and the steering queue of \<^verbatim>\<open>pkg/agent/steering.go\<close>. A producer
  pushes until the queue closes; a consumer takes a prefix of what is pending. Every
  operation runs under the queue's mutex, so a concurrent execution is a list of
  operations, in the order in which they took the lock.
\<close>

datatype ('a, 'c) queue_op = Push 'a | Consume 'c

text \<open>
  \<open>queue_run push consume ops s\<close> is what such an execution accepts, what it hands out, and
  the state it leaves.
\<close>

fun queue_run ::
  "('a \<Rightarrow> 's \<Rightarrow> bool \<times> 's) \<Rightarrow> ('c \<Rightarrow> 's \<Rightarrow> 'a list \<times> 's) \<Rightarrow> ('a, 'c) queue_op list \<Rightarrow> 's
     \<Rightarrow> 'a list \<times> 'a list \<times> 's" where
  "queue_run push consume [] s = ([], [], s)"
| "queue_run push consume (Push x # ops) s =
     (let (ok, s1) = push x s; (acc, out, s2) = queue_run push consume ops s1
      in (if ok then x # acc else acc, out, s2))"
| "queue_run push consume (Consume c # ops) s =
     (let (xs, s1) = consume c s; (acc, out, s2) = queue_run push consume ops s1
      in (acc, xs @ out, s2))"

locale message_queue =
  fixes inv :: "'s \<Rightarrow> bool"
    and push :: "'a \<Rightarrow> 's \<Rightarrow> bool \<times> 's"
    and consume :: "'c \<Rightarrow> 's \<Rightarrow> 'a list \<times> 's"
    and pending :: "'s \<Rightarrow> 'a list"
    and closed :: "'s \<Rightarrow> bool"
  assumes push_inv: "inv s \<Longrightarrow> inv (snd (push x s))"
    and push_open: "inv s \<Longrightarrow> \<not> closed s \<Longrightarrow>
          fst (push x s) \<and> pending (snd (push x s)) = pending s @ [x]"
    and push_closed: "closed s \<Longrightarrow> push x s = (False, s)"
    and consume_inv: "inv s \<Longrightarrow> inv (snd (consume c s))"
    and consume_pending: "inv s \<Longrightarrow>
          pending s = fst (consume c s) @ pending (snd (consume c s))"
    and consume_closed: "closed s \<Longrightarrow> closed (snd (consume c s))"
begin

lemma run_inv: "inv s \<Longrightarrow> inv (snd (snd (queue_run push consume ops s)))"
proof (induction ops arbitrary: s)
  case Nil
  then show ?case by simp
next
  case (Cons op ops)
  show ?case
  proof (cases op)
    case (Push x)
    with Cons.IH [OF push_inv [OF Cons.prems, of x]] show ?thesis
      by (simp add: split_beta Let_def)
  next
    case (Consume c)
    with Cons.IH [OF consume_inv [OF Cons.prems, of c]] show ?thesis
      by (simp add: split_beta Let_def)
  qed
qed

text \<open>Conservation: nothing accepted is lost, duplicated or reordered.\<close>

lemma run_conserves:
  "inv s \<Longrightarrow> queue_run push consume ops s = (acc, out, s') \<Longrightarrow>
     pending s @ acc = out @ pending s'"
proof (induction ops arbitrary: s acc out s')
  case Nil
  then show ?case by simp
next
  case (Cons op ops)
  show ?case
  proof (cases op)
    case (Push x)
    obtain ok s1 where p: "push x s = (ok, s1)" by (cases "push x s")
    obtain acc1 out1 s2 where r: "queue_run push consume ops s1 = (acc1, out1, s2)"
      by (cases "queue_run push consume ops s1") auto
    have inv1: "inv s1" using push_inv [OF Cons.prems(1), of x] p by simp
    from Cons.prems(2) Push p r have eqs: "acc = (if ok then x # acc1 else acc1)" "out = out1" "s' = s2"
      by auto
    have "pending s1 @ acc1 = out1 @ pending s2" by (rule Cons.IH [OF inv1 r])
    moreover have "closed s \<Longrightarrow> \<not> ok \<and> s1 = s" using push_closed [of s x] p by simp
    moreover have "\<not> closed s \<Longrightarrow> ok \<and> pending s1 = pending s @ [x]"
      using push_open [OF Cons.prems(1), of x] p by simp
    ultimately show ?thesis using eqs by (cases "closed s") auto
  next
    case (Consume c)
    obtain xs s1 where p: "consume c s = (xs, s1)" by (cases "consume c s")
    obtain acc1 out1 s2 where r: "queue_run push consume ops s1 = (acc1, out1, s2)"
      by (cases "queue_run push consume ops s1") auto
    have inv1: "inv s1" using consume_inv [OF Cons.prems(1), of c] p by simp
    have "pending s1 @ acc1 = out1 @ pending s2" by (rule Cons.IH [OF inv1 r])
    moreover have "pending s = xs @ pending s1"
      using consume_pending [OF Cons.prems(1), of c] p by simp
    ultimately show ?thesis using Cons.prems(2) Consume p r by auto
  qed
qed

lemma run_closed:
  "closed s \<Longrightarrow> queue_run push consume ops s = (acc, out, s') \<Longrightarrow> acc = [] \<and> closed s'"
proof (induction ops arbitrary: s acc out s')
  case Nil
  then show ?case by simp
next
  case (Cons op ops)
  show ?case
  proof (cases op)
    case (Push x)
    obtain acc1 out1 s2 where r: "queue_run push consume ops s = (acc1, out1, s2)"
      by (cases "queue_run push consume ops s") auto
    with Cons.prems Push have "acc = acc1" "s' = s2"
      by (simp_all add: push_closed [OF Cons.prems(1)])
    with Cons.IH [OF Cons.prems(1) r] show ?thesis by simp
  next
    case (Consume c)
    obtain xs s1 where p: "consume c s = (xs, s1)" by (cases "consume c s")
    obtain acc1 out1 s2 where r: "queue_run push consume ops s1 = (acc1, out1, s2)"
      by (cases "queue_run push consume ops s1") auto
    have "closed s1" using consume_closed [OF Cons.prems(1), of c] p by simp
    from Cons.IH [OF this r] Cons.prems(2) Consume p r show ?thesis by simp
  qed
qed

end

end
