(* ===== verification/Ai_Types.thy ===== *)
theory Ai_Types
  imports Prelude
begin

text \<open>
  The provider-neutral data model of \<^verbatim>\<open>src/pkg/ai\<close>: transcript content and messages
  (\<^verbatim>\<open>types.go\<close>), models, usage and cost (\<^verbatim>\<open>model.go\<close>), the streaming events
  (\<^verbatim>\<open>events.go\<close>) and the error values of \<^verbatim>\<open>http_error.go\<close> with the context errors.

  \<^item> The closed interfaces \<^verbatim>\<open>Content\<close> and \<^verbatim>\<open>Message\<close> are implemented by value receivers, so a
    Go value of the interface may hold the struct or a pointer to it, and the code's type
    switches tell the two apart. The datatypes keep both forms; a pointer is an \<open>option\<close>
    because the code tests it against nil. The \<^verbatim>\<open>Type\<close> and \<^verbatim>\<open>Role\<close> strings that repeat the
    constructor are left to the constructor.
  \<^item> A \<^verbatim>\<open>map[string]any\<close> is an association list of \<open>json\<close> values, which keep the dynamic Go
    type of a number (\<^verbatim>\<open>int\<close>, \<^verbatim>\<open>int64\<close>, \<^verbatim>\<open>float64\<close>, \<^verbatim>\<open>json.Number\<close>).
  \<^item> Prices are \<^verbatim>\<open>float64\<close> in the code and exact rationals here: IEEE rounding is not modelled.
\<close>

section \<open>Errors\<close>

datatype go_error =
    Canceled
  | DeadlineExceeded
  | ErrText string
  | HTTPError string int string
  | Wrap string go_error

fun show_nat :: "nat \<Rightarrow> string" where
  "show_nat n =
     (if n < 10 then [char_of (48 + n)] else show_nat (n div 10) @ [char_of (48 + n mod 10)])"

declare show_nat.simps [simp del]

definition show_int :: "int \<Rightarrow> string" where
  "show_int i = (if i < 0 then ''-'' @ show_nat (nat (- i)) else show_nat (nat i))"

fun err_text :: "go_error \<Rightarrow> string" where
  "err_text Canceled = ''context canceled''"
| "err_text DeadlineExceeded = ''context deadline exceeded''"
| "err_text (ErrText s) = s"
| "err_text (HTTPError p st msg) = p @ '': HTTP '' @ show_int st @ '': '' @ msg"
| "err_text (Wrap p e) = p @ err_text e"

text \<open>\<^verbatim>\<open>errors.Is(err, context.Canceled)\<close> and \<^verbatim>\<open>errors.As(err, &response)\<close> with an
  \<^verbatim>\<open>*HTTPError\<close>: both follow the chain of wrapped errors.\<close>

fun is_canceled :: "go_error \<Rightarrow> bool" where
  "is_canceled Canceled = True"
| "is_canceled (Wrap p e) = is_canceled e"
| "is_canceled _ = False"

fun as_http :: "go_error \<Rightarrow> int option" where
  "as_http (HTTPError p st msg) = Some st"
| "as_http (Wrap p e) = as_http e"
| "as_http _ = None"

section \<open>Content and messages\<close>

datatype gofloat = NaN | PosInf | NegInf | Finite rat

datatype json =
    JNull
  | JBool bool
  | JInt int
  | JInt64 int
  | JFloat gofloat
  | JNumber string
  | JString string
  | JArray "json list"
  | JObject "(string \<times> json) list"

type_synonym arguments = "(string \<times> json) list"

record text_content =
  tx_text :: string
  tx_signature :: string

record thinking_content =
  th_thinking :: string
  th_signature :: string
  th_redacted :: bool

record image_content =
  im_data :: string
  im_mime :: string

record tool_call =
  tc_id :: string
  tc_name :: string
  tc_arguments :: arguments
  tc_thought_signature :: string
  tc_namespace :: string

datatype content =
    Text text_content
  | TextPtr "text_content option"
  | Thinking thinking_content
  | ThinkingPtr "thinking_content option"
  | Image image_content
  | ImagePtr "image_content option"
  | Call tool_call
  | CallPtr "tool_call option"

definition new_text :: "string \<Rightarrow> content" where
  "new_text s = Text \<lparr>tx_text = s, tx_signature = []\<rparr>"

definition new_tool_call :: "string \<Rightarrow> string \<Rightarrow> arguments \<Rightarrow> tool_call" where
  "new_tool_call i n args =
     \<lparr>tc_id = i, tc_name = n, tc_arguments = args, tc_thought_signature = [], tc_namespace = []\<rparr>"

record user_content =
  uc_text :: "string option"
  uc_parts :: "content list"

definition text_user_content :: "string \<Rightarrow> user_content" where
  "text_user_content s = \<lparr>uc_text = Some s, uc_parts = []\<rparr>"

fun is_user_part :: "content \<Rightarrow> bool" where
  "is_user_part (Text _) = True"
| "is_user_part (Image _) = True"
| "is_user_part _ = False"

definition multipart_user_content :: "content list \<Rightarrow> go_error + user_content" where
  "multipart_user_content parts =
     (if list_all is_user_part parts then Inr \<lparr>uc_text = None, uc_parts = parts\<rparr>
      else Inl (ErrText ''ai: user content cannot contain this part''))"

datatype thinking_level =
    ThinkingUnset | ThinkingOff | ThinkingMinimal | ThinkingLow | ThinkingMedium
  | ThinkingHigh | ThinkingXHigh | ThinkingMax

datatype stop_reason =
    StopPending | StopComplete | StopLength | StopToolUse | StopError | StopAborted | StopDeferred

record user_message =
  um_content :: user_content
  um_timestamp :: int
  um_agent :: string
  um_thinking :: thinking_level
  um_synthetic :: bool

definition new_user_message :: "string \<Rightarrow> int \<Rightarrow> user_message" where
  "new_user_message s now =
     \<lparr>um_content = text_user_content s, um_timestamp = now, um_agent = [],
      um_thinking = ThinkingUnset, um_synthetic = False\<rparr>"

definition new_synthetic_message :: "string \<Rightarrow> int \<Rightarrow> user_message" where
  "new_synthetic_message s now = (new_user_message s now)\<lparr>um_synthetic := True\<rparr>"

section \<open>Usage and cost\<close>

record usage_cost =
  co_input :: rat
  co_output :: rat
  co_cache_read :: rat
  co_cache_write :: rat
  co_total :: rat

record usage =
  us_input :: int
  us_output :: int
  us_cache_read :: int
  us_cache_write :: int
  us_cache_write1h :: "int option"
  us_reasoning :: "int option"
  us_total_tokens :: int
  us_cost :: usage_cost

definition zero_cost :: usage_cost where
  "zero_cost = \<lparr>co_input = 0, co_output = 0, co_cache_read = 0, co_cache_write = 0, co_total = 0\<rparr>"

definition zero_usage :: usage where
  "zero_usage =
     \<lparr>us_input = 0, us_output = 0, us_cache_read = 0, us_cache_write = 0, us_cache_write1h = None,
      us_reasoning = None, us_total_tokens = 0, us_cost = zero_cost\<rparr>"

record assistant_message =
  am_content :: "content list"
  am_api :: string
  am_provider :: string
  am_model :: string
  am_response_model :: string
  am_response_id :: string
  am_usage :: usage
  am_stop_reason :: stop_reason
  am_error_message :: string
  am_raw_stop_reason :: string
  am_end_turn :: "bool option"
  am_timestamp :: int

record tool_result_message =
  tr_tool_call_id :: string
  tr_tool_name :: string
  tr_content :: "content list"
  tr_details :: "arguments option"
  tr_usage :: "usage option"
  tr_added_tool_names :: "string list"
  tr_is_error :: bool
  tr_timestamp :: int

datatype message =
    User user_message
  | UserPtr "user_message option"
  | Assistant assistant_message
  | AssistantPtr "assistant_message option"
  | ToolRes tool_result_message
  | ToolResPtr "tool_result_message option"

record tool_definition =
  td_name :: string
  td_description :: string
  td_parameters :: string

record ai_context =
  cx_system_prompt :: string
  cx_messages :: "message list"
  cx_tools :: "tool_definition list"

record model_cost_tier =
  ti_input :: rat
  ti_output :: rat
  ti_cache_read :: rat
  ti_cache_write :: rat
  ti_above :: int

record model_cost =
  mc_input :: rat
  mc_output :: rat
  mc_cache_read :: rat
  mc_cache_write :: rat
  mc_tiers :: "model_cost_tier list"

datatype modality = ModalityText | ModalityImage

record model =
  mo_id :: string
  mo_name :: string
  mo_api :: string
  mo_provider :: string
  mo_base_url :: string
  mo_reasoning :: bool
  mo_adaptive_thinking :: bool
  mo_input :: "modality list"
  mo_cost :: model_cost
  mo_cache_short :: int
  mo_cache_long :: int
  mo_context_window :: int
  mo_max_tokens :: int

text \<open>
  The pricing loop of \<^verbatim>\<open>CalculateCost\<close>: \<open>rates\<close> and \<open>matched\<close> are its two local variables.
\<close>

fun match_tiers :: "int \<Rightarrow> model_cost_tier list \<Rightarrow> model_cost \<Rightarrow> int \<Rightarrow> model_cost" where
  "match_tiers tokens [] rates matched = rates"
| "match_tiers tokens (t # ts) rates matched =
     (if tokens > ti_above t \<and> ti_above t > matched
      then match_tiers tokens ts
             (rates\<lparr>mc_input := ti_input t, mc_output := ti_output t,
                    mc_cache_read := ti_cache_read t, mc_cache_write := ti_cache_write t\<rparr>)
             (ti_above t)
      else match_tiers tokens ts rates matched)"

definition calculate_cost :: "model \<Rightarrow> usage \<Rightarrow> usage \<times> usage_cost" where
  "calculate_cost m u =
     (let input_tokens = us_input u + us_cache_read u + us_cache_write u;
          rates = match_tiers input_tokens (mc_tiers (mo_cost m)) (mo_cost m) (-1);
          long_write = (case us_cache_write1h u of Some w \<Rightarrow> w | None \<Rightarrow> 0);
          short_write = us_cache_write u - long_write;
          ci = mc_input rates / 1000000 * of_int (us_input u);
          co = mc_output rates / 1000000 * of_int (us_output u);
          cr = mc_cache_read rates / 1000000 * of_int (us_cache_read u);
          cw = (mc_cache_write rates * of_int short_write
                + mc_input rates * 2 * of_int long_write) / 1000000;
          c = \<lparr>co_input = ci, co_output = co, co_cache_read = cr, co_cache_write = cw,
               co_total = ci + co + cr + cw\<rparr>
      in (u\<lparr>us_cost := c\<rparr>, c))"

definition recalculate_totals :: "usage \<Rightarrow> usage" where
  "recalculate_totals u =
     u\<lparr>us_total_tokens := us_input u + us_output u + us_cache_read u + us_cache_write u,
       us_cost := (us_cost u)\<lparr>co_total := co_input (us_cost u) + co_output (us_cost u)
                     + co_cache_read (us_cost u) + co_cache_write (us_cost u)\<rparr>\<rparr>"

definition split_model_reference :: "string \<Rightarrow> string \<Rightarrow> string \<times> string" where
  "split_model_reference provider model =
     (let m = trim_space model in
      case index_of ''/'' m of
        Some slash \<Rightarrow>
          if 0 < slash \<and> slash + 1 < length m then (take slash m, drop (Suc slash) m)
          else (trim_space provider, m)
      | None \<Rightarrow> (trim_space provider, m))"

text \<open>The options of a provider request (\<^verbatim>\<open>provider.go\<close>), without the transport settings
  the modelled code never reads (headers, sampling parameters, HTTP client, WebSocket).\<close>

datatype cache_retention = CacheUnset | CacheNone | CacheShort | CacheLong

record stream_options =
  so_api_key :: string
  so_max_tokens :: int
  so_reasoning :: thinking_level
  so_cache_retention :: cache_retention
  so_session_id :: string
  so_timeout :: int
  so_max_retries :: int

section \<open>Streaming events\<close>

datatype ai_event_type =
    EvStart | EvTextStart | EvTextDelta | EvTextEnd | EvThinkingStart | EvThinkingDelta
  | EvThinkingEnd | EvToolCallStart | EvToolCallDelta | EvToolCallEnd | EvDone | EvError

record assistant_event =
  ae_type :: ai_event_type
  ae_content_index :: int
  ae_delta :: string
  ae_content :: string
  ae_partial :: "assistant_message option"
  ae_tool_call :: "tool_call option"
  ae_reason :: stop_reason
  ae_message :: "assistant_message option"
  ae_error :: "assistant_message option"

text \<open>\<^verbatim>\<open>AssistantEvent.terminal\<close>: the outer option is the boolean result, the inner one the
  pointer it returns with it.\<close>

definition terminal :: "assistant_event \<Rightarrow> assistant_message option option" where
  "terminal e =
     (case ae_type e of
        EvDone \<Rightarrow> Some (ae_message e)
      | EvError \<Rightarrow> Some (ae_error e)
      | _ \<Rightarrow> None)"

section \<open>Pricing: the highest matching tier\<close>

definition tier_rates :: "model_cost \<Rightarrow> model_cost_tier \<Rightarrow> model_cost" where
  "tier_rates c t =
     c\<lparr>mc_input := ti_input t, mc_output := ti_output t,
       mc_cache_read := ti_cache_read t, mc_cache_write := ti_cache_write t\<rparr>"

definition tier_matches :: "int \<Rightarrow> model_cost_tier \<Rightarrow> bool" where
  "tier_matches tokens t \<longleftrightarrow> 0 \<le> ti_above t \<and> ti_above t < tokens"

lemma tier_rates_absorb [simp]: "tier_rates (tier_rates c t) t' = tier_rates c t'"
  by (simp add: tier_rates_def)

lemma match_tiers_None:
  "(\<And>t. t \<in> set ts \<Longrightarrow> \<not> (tokens > ti_above t \<and> ti_above t > m)) \<Longrightarrow>
     match_tiers tokens ts rates m = rates"
  by (induction ts) auto

lemma match_tiers_highest:
  assumes "t \<in> set ts" and "ti_above t < tokens" and "m < ti_above t"
  shows "\<exists>b \<in> set ts. ti_above b < tokens \<and> m < ti_above b
           \<and> (\<forall>t' \<in> set ts. ti_above t' < tokens \<longrightarrow> ti_above t' \<le> ti_above b)
           \<and> match_tiers tokens ts rates m = tier_rates rates b"
  using assms
proof (induction ts arbitrary: rates m t)
  case Nil
  then show ?case by simp
next
  case (Cons a ts)
  show ?case
  proof (cases "ti_above a < tokens \<and> m < ti_above a")
    case True
    then have step: "match_tiers tokens (a # ts) rates m
        = match_tiers tokens ts (tier_rates rates a) (ti_above a)"
      by (simp add: tier_rates_def)
    show ?thesis
    proof (cases "\<exists>t' \<in> set ts. ti_above t' < tokens \<and> ti_above a < ti_above t'")
      case True
      then obtain t' where "t' \<in> set ts" "ti_above t' < tokens" "ti_above a < ti_above t'" by blast
      from Cons.IH [OF this, of "tier_rates rates a"] obtain b where
        "b \<in> set ts" "ti_above b < tokens" "ti_above a < ti_above b"
        "\<forall>t' \<in> set ts. ti_above t' < tokens \<longrightarrow> ti_above t' \<le> ti_above b"
        "match_tiers tokens ts (tier_rates rates a) (ti_above a) = tier_rates rates b"
        by auto
      with step \<open>ti_above a < tokens \<and> m < ti_above a\<close> show ?thesis
        by (intro bexI [of _ b]) auto
    next
      case False
      then have "match_tiers tokens ts (tier_rates rates a) (ti_above a) = tier_rates rates a"
        by (intro match_tiers_None) auto
      with step False \<open>ti_above a < tokens \<and> m < ti_above a\<close> show ?thesis
        by (intro bexI [of _ a]) (auto simp: not_less)
    qed
  next
    case False
    with Cons.prems have "t \<in> set ts" by auto
    from Cons.IH [OF this Cons.prems(2,3), of rates] obtain b where
      "b \<in> set ts" "ti_above b < tokens" "m < ti_above b"
      "\<forall>t' \<in> set ts. ti_above t' < tokens \<longrightarrow> ti_above t' \<le> ti_above b"
      "match_tiers tokens ts rates m = tier_rates rates b" by blast
    with False show ?thesis by (intro bexI [of _ b]) auto
  qed
qed

section \<open>A concrete model and its options\<close>

definition demo_model :: model where
  "demo_model =
     \<lparr>mo_id = ''m'', mo_name = [], mo_api = [], mo_provider = [], mo_base_url = [], mo_reasoning = False,
      mo_adaptive_thinking = False, mo_input = [],
      mo_cost = \<lparr>mc_input = 0, mc_output = 0, mc_cache_read = 0, mc_cache_write = 0, mc_tiers = []\<rparr>,
      mo_cache_short = 0, mo_cache_long = 0, mo_context_window = 0, mo_max_tokens = 0\<rparr>"

definition demo_options :: stream_options where
  "demo_options =
     \<lparr>so_api_key = [], so_max_tokens = 0, so_reasoning = ThinkingOff, so_cache_retention = CacheNone,
      so_session_id = [], so_timeout = 0, so_max_retries = 0\<rparr>"

end
