(* ===== verification/Steering.thy ===== *)
theory Steering
  imports Queue_Contract Ai_Types
begin

text \<open>
  The steering queue of \<^verbatim>\<open>src/pkg/agent/steering.go\<close>: user messages admitted into a running
  agent loop. \<open>Push\<close> is called by the interface, the three drains by the loop.
\<close>

record steering_queue =
  sq_messages :: "message list"
  sq_closed :: bool

definition new_steering_queue :: steering_queue where
  "new_steering_queue = \<lparr>sq_messages = [], sq_closed = False\<rparr>"

definition steer_push :: "message \<Rightarrow> steering_queue \<Rightarrow> bool \<times> steering_queue" where
  "steer_push m q =
     (if sq_closed q then (False, q)
      else (True, q\<lparr>sq_messages := sq_messages q @ [m]\<rparr>))"

definition drain_locked :: "steering_queue \<Rightarrow> message list \<times> steering_queue" where
  "drain_locked q = (sq_messages q, q\<lparr>sq_messages := []\<rparr>)"

definition drain :: "steering_queue \<Rightarrow> message list \<times> steering_queue" where
  "drain q = drain_locked q"

definition drain_or_close :: "steering_queue \<Rightarrow> (message list \<times> bool) \<times> steering_queue" where
  "drain_or_close q =
     (if sq_messages q = [] then (([], True), q\<lparr>sq_closed := True\<rparr>)
      else (let (ms, q') = drain_locked q in ((ms, False), q')))"

definition close :: "steering_queue \<Rightarrow> message list \<times> steering_queue" where
  "close q = drain_locked (q\<lparr>sq_closed := True\<rparr>)"

text \<open>The loop's operations on the queue, as one consumer.\<close>

datatype drain_op = Drain | DrainOrClose | Close

fun steer_consume :: "drain_op \<Rightarrow> steering_queue \<Rightarrow> message list \<times> steering_queue" where
  "steer_consume Drain q = drain q"
| "steer_consume DrainOrClose q = (case drain_or_close q of ((ms, _), q') \<Rightarrow> (ms, q'))"
| "steer_consume Close q = close q"

definition steer_inv :: "steering_queue \<Rightarrow> bool" where
  "steer_inv q \<longleftrightarrow> (sq_closed q \<longrightarrow> sq_messages q = [])"

lemmas steer_defs =
  steer_push_def drain_locked_def drain_def drain_or_close_def close_def steer_inv_def

interpretation steer: message_queue steer_inv steer_push steer_consume sq_messages sq_closed
proof (unfold_locales, goal_cases)
  case (4 s c) then show ?case by (cases c) (auto simp: steer_defs split: prod.splits)
next
  case (5 s c) then show ?case by (cases c) (auto simp: steer_defs split: prod.splits)
next
  case (6 s c) then show ?case by (cases c) (auto simp: steer_defs split: prod.splits)
qed (auto simp: steer_defs)

lemma steer_inv_new [simp]: "steer_inv new_steering_queue"
  by (simp add: new_steering_queue_def steer_inv_def)

text \<open>Claim C3. A message whose \<open>Push\<close> succeeded is observed before the queue closes: once the
  queue is closed, the messages handed to the loop are exactly the accepted ones, each once
  and in the order of the pushes, whatever the interleaving; and every later push is
  refused.\<close>

theorem steering_no_message_lost:
  assumes "queue_run steer_push steer_consume ops new_steering_queue = (accepted, taken, q)"
    and "sq_closed q"
  shows "taken = accepted \<and> fst (queue_run steer_push steer_consume later q) = []"
proof -
  have "steer_inv q"
    using steer.run_inv [OF steer_inv_new, of ops] assms(1) by simp
  then have "sq_messages q = []" using assms(2) by (simp add: steer_inv_def)
  then have "taken = accepted"
    using steer.run_conserves [OF steer_inv_new assms(1)] by (simp add: new_steering_queue_def)
  moreover have "fst (queue_run steer_push steer_consume later q) = []"
    using steer.run_closed [OF assms(2)] by (metis prod.collapse)
  ultimately show ?thesis by blast
qed

definition steer_demo_msg :: "string \<Rightarrow> message" where
  "steer_demo_msg s = User (new_user_message s 0)"

theorem steering_no_message_lost_witness:
  "fst (queue_run steer_push steer_consume
      [Push (steer_demo_msg ''a''), Consume Drain, Push (steer_demo_msg ''b''),
       Consume DrainOrClose, Consume DrainOrClose, Push (steer_demo_msg ''c'')]
      new_steering_queue) = [steer_demo_msg ''a'', steer_demo_msg ''b'']
   \<and> fst (queue_run steer_push steer_consume [Push (steer_demo_msg ''d'')]
         \<lparr>sq_messages = [], sq_closed = True\<rparr>) = []"
proof -
  let ?ops = "[Push (steer_demo_msg ''a''), Consume Drain, Push (steer_demo_msg ''b''),
       Consume DrainOrClose, Consume DrainOrClose, Push (steer_demo_msg ''c'')]"
  have run: "queue_run steer_push steer_consume ?ops new_steering_queue
      = ([steer_demo_msg ''a'', steer_demo_msg ''b''], [steer_demo_msg ''a'', steer_demo_msg ''b''],
         \<lparr>sq_messages = [], sq_closed = True\<rparr>)"
    by (simp add: steer_defs new_steering_queue_def)
  show ?thesis
    using steering_no_message_lost [OF run, of "[Push (steer_demo_msg ''d'')]"] run by simp
qed

end
