(* ===== verification/Event_Stream.thy ===== *)
theory Event_Stream
  imports Queue_Contract Ai_Types
begin

text \<open>
  The event queue of \<^verbatim>\<open>src/pkg/ai/stream.go\<close>. The record has the struct's fields; a channel
  is a number, \<open>es_closed_chans\<close> the channels closed so far and \<open>es_next_chan\<close> the next
  number to allocate, so that a waiting consumer is a channel number and waking it is
  closing that channel. Each method body between \<^verbatim>\<open>Lock\<close> and \<^verbatim>\<open>Unlock\<close> is one step.
\<close>

record ('e, 'r) event_stream =
  es_queue :: "'e list"
  es_head :: nat
  es_done :: bool
  es_changed :: "nat option"
  es_result_ready :: bool
  es_result :: 'r
  es_result_changed :: "nat option"
  es_complete :: "'e \<Rightarrow> 'r option"
  es_closed_chans :: "nat set"
  es_next_chan :: nat

definition new_event_stream :: "'r \<Rightarrow> ('e \<Rightarrow> 'r option) \<Rightarrow> ('e, 'r) event_stream" where
  "new_event_stream zero_result f =
     \<lparr>es_queue = [], es_head = 0, es_done = False, es_changed = Some 0, es_result_ready = False,
      es_result = zero_result, es_result_changed = Some 1, es_complete = f,
      es_closed_chans = {}, es_next_chan = 2\<rparr>"

definition signal_changed :: "('e, 'r) event_stream \<Rightarrow> ('e, 'r) event_stream" where
  "signal_changed s =
     (case es_changed s of
        None \<Rightarrow> s
      | Some c \<Rightarrow> s\<lparr>es_closed_chans := insert c (es_closed_chans s), es_changed := None\<rparr>)"

definition signal_result :: "('e, 'r) event_stream \<Rightarrow> ('e, 'r) event_stream" where
  "signal_result s =
     (case es_result_changed s of
        None \<Rightarrow> s
      | Some c \<Rightarrow> s\<lparr>es_closed_chans := insert c (es_closed_chans s), es_result_changed := None\<rparr>)"

definition es_push :: "'e \<Rightarrow> ('e, 'r) event_stream \<Rightarrow> ('e, 'r) event_stream" where
  "es_push e s =
     (if es_done s then s
      else
        let s1 = s\<lparr>es_queue := es_queue s @ [e]\<rparr>;
            s2 = (case es_complete s1 e of
                    Some r \<Rightarrow> signal_result (s1\<lparr>es_done := True, es_result := r, es_result_ready := True\<rparr>)
                  | None \<Rightarrow> s1)
        in signal_changed s2)"

definition es_end :: "'r option \<Rightarrow> ('e, 'r) event_stream \<Rightarrow> ('e, 'r) event_stream" where
  "es_end result s =
     (let s1 = s\<lparr>es_done := True\<rparr>;
          s2 = (case result of
                  Some r \<Rightarrow> if es_result_ready s1 then s1
                            else signal_result (s1\<lparr>es_result := r, es_result_ready := True\<rparr>)
                | None \<Rightarrow> s1)
      in signal_changed s2)"

text \<open>
  One turn of the loops of \<^verbatim>\<open>Next\<close> and \<^verbatim>\<open>Result\<close>: an event or the end of the stream, or the
  channel the consumer selects on (together with its context) before the next turn. The
  \<open>zero\<close> written over a consumed slot is the zero value of the event type.
\<close>

datatype 'e poll = GotEvent 'e | GotEnd | WaitOn nat

definition es_next :: "'e \<Rightarrow> ('e, 'r) event_stream \<Rightarrow> 'e poll \<times> ('e, 'r) event_stream" where
  "es_next zero s =
     (if es_head s < length (es_queue s) then
        let e = es_queue s ! es_head s;
            q = (es_queue s)[es_head s := zero];
            h = es_head s + 1
        in (GotEvent e,
            if h = length q then s\<lparr>es_queue := [], es_head := 0\<rparr>
            else s\<lparr>es_queue := q, es_head := h\<rparr>)
      else if es_done s then (GotEnd, s)
      else (case es_changed s of
              Some c \<Rightarrow> (WaitOn c, s)
            | None \<Rightarrow> (WaitOn (es_next_chan s),
                s\<lparr>es_changed := Some (es_next_chan s), es_next_chan := es_next_chan s + 1\<rparr>)))"

datatype 'r result_poll = GotResult 'r | ResultWait nat

definition es_result_poll :: "('e, 'r) event_stream \<Rightarrow> 'r result_poll \<times> ('e, 'r) event_stream" where
  "es_result_poll s =
     (if es_result_ready s then (GotResult (es_result s), s)
      else (case es_result_changed s of
              Some c \<Rightarrow> (ResultWait c, s)
            | None \<Rightarrow> (ResultWait (es_next_chan s),
                s\<lparr>es_result_changed := Some (es_next_chan s), es_next_chan := es_next_chan s + 1\<rparr>)))"

text \<open>The completion function of \<^verbatim>\<open>NewAssistantStream\<close>.\<close>

definition nil_terminal_message :: assistant_message where
  "nil_terminal_message =
     \<lparr>am_content = [], am_api = [], am_provider = [], am_model = [], am_response_model = [],
      am_response_id = [], am_usage = zero_usage, am_stop_reason = StopError,
      am_error_message = ''ai: terminal event has no result'', am_raw_stop_reason = [],
      am_end_turn = None, am_timestamp = 0\<rparr>"

definition assistant_complete :: "assistant_event \<Rightarrow> assistant_message option" where
  "assistant_complete e =
     (case terminal e of
        None \<Rightarrow> None
      | Some None \<Rightarrow> Some nil_terminal_message
      | Some (Some m) \<Rightarrow> Some m)"

section \<open>The stream as a message queue\<close>

definition es_pending :: "('e, 'r) event_stream \<Rightarrow> 'e list" where
  "es_pending s = drop (es_head s) (es_queue s)"

definition es_inv :: "('e, 'r) event_stream \<Rightarrow> bool" where
  "es_inv s \<longleftrightarrow> es_head s \<le> length (es_queue s)
     \<and> (case es_changed s of None \<Rightarrow> True | Some c \<Rightarrow> c \<notin> es_closed_chans s \<and> c < es_next_chan s)
     \<and> (case es_result_changed s of None \<Rightarrow> True
        | Some c \<Rightarrow> c \<notin> es_closed_chans s \<and> c < es_next_chan s \<and> es_changed s \<noteq> Some c)
     \<and> (\<forall>c \<in> es_closed_chans s. c < es_next_chan s)"

definition es_offer :: "'e \<Rightarrow> ('e, 'r) event_stream \<Rightarrow> bool \<times> ('e, 'r) event_stream" where
  "es_offer e s = (\<not> es_done s, es_push e s)"

datatype 'r stream_op = Next | End "'r option" | Result

fun es_consume :: "'e \<Rightarrow> 'r stream_op \<Rightarrow> ('e, 'r) event_stream \<Rightarrow> 'e list \<times> ('e, 'r) event_stream" where
  "es_consume zero Next s =
     (case es_next zero s of (GotEvent e, s') \<Rightarrow> ([e], s') | (_, s') \<Rightarrow> ([], s'))"
| "es_consume zero (End r) s = ([], es_end r s)"
| "es_consume zero Result s = ([], snd (es_result_poll s))"

lemmas es_signal_defs = signal_changed_def signal_result_def

lemma signal_changed_simps [simp]:
  "es_queue (signal_changed s) = es_queue s" "es_head (signal_changed s) = es_head s"
  "es_done (signal_changed s) = es_done s" "es_result (signal_changed s) = es_result s"
  "es_result_ready (signal_changed s) = es_result_ready s"
  by (simp_all add: signal_changed_def split: option.splits)

lemma signal_result_simps [simp]:
  "es_queue (signal_result s) = es_queue s" "es_head (signal_result s) = es_head s"
  "es_done (signal_result s) = es_done s" "es_result (signal_result s) = es_result s"
  "es_result_ready (signal_result s) = es_result_ready s"
  by (simp_all add: signal_result_def split: option.splits)

lemma es_inv_signal_changed: "es_inv s \<Longrightarrow> es_inv (signal_changed s)"
  by (auto simp: es_inv_def signal_changed_def split: option.splits)

lemma es_inv_signal_result: "es_inv s \<Longrightarrow> es_inv (signal_result s)"
  by (auto simp: es_inv_def signal_result_def split: option.splits)

lemma es_inv_push: "es_inv s \<Longrightarrow> es_inv (es_push e s)"
  unfolding es_push_def Let_def
  by (auto split: option.splits intro!: es_inv_signal_changed es_inv_signal_result)
    (auto simp: es_inv_def split: option.splits)

lemma es_inv_end: "es_inv s \<Longrightarrow> es_inv (es_end r s)"
  unfolding es_end_def Let_def
  by (auto split: option.splits intro!: es_inv_signal_changed es_inv_signal_result)
    (auto simp: es_inv_def split: option.splits)

lemma es_inv_next: "es_inv s \<Longrightarrow> es_inv (snd (es_next zero s))"
  unfolding es_next_def Let_def
  by (auto simp: es_inv_def less_Suc_eq split: option.splits)

lemma es_inv_result_poll: "es_inv s \<Longrightarrow> es_inv (snd (es_result_poll s))"
  unfolding es_result_poll_def
  by (auto simp: es_inv_def less_Suc_eq split: option.splits)

lemma drop_one_left: "Suc i = length xs \<Longrightarrow> drop i xs = [xs ! i]"
  by (metis Cons_nth_drop_Suc drop_all lessI order_refl)

lemma es_pending_next:
  "es_inv s \<Longrightarrow> es_pending s = fst (es_consume zero Next s) @ es_pending (snd (es_consume zero Next s))"
  by (auto simp: es_next_def es_pending_def es_inv_def Let_def Cons_nth_drop_Suc drop_one_left
      split: option.splits)

lemma es_pending_other [simp]:
  "es_pending (es_end r s) = es_pending s" "es_pending (snd (es_result_poll s)) = es_pending s"
  by (auto simp: es_pending_def es_end_def es_result_poll_def Let_def split: option.splits)

interpretation stream: message_queue es_inv es_offer "es_consume zero" es_pending es_done
proof (unfold_locales, goal_cases)
  case (1 s x) then show ?case by (simp add: es_offer_def es_inv_push)
next
  case (2 s x) then show ?case
    by (auto simp: es_offer_def es_push_def es_pending_def es_inv_def Let_def split: option.splits)
next
  case (3 s x) then show ?case by (simp add: es_offer_def es_push_def)
next
  case (4 s c) then show ?case
    using es_inv_next [OF 4, of zero] es_inv_result_poll [OF 4] es_inv_end [OF 4]
    by (cases c) (auto split: prod.splits poll.splits)
next
  case (5 s c) then show ?case
    using es_pending_next [OF 5, of zero] by (cases c) simp_all
next
  case (6 s c) then show ?case
    by (cases c) (auto simp: es_next_def es_end_def es_result_poll_def Let_def split: option.splits)
qed

lemma es_inv_new [simp]: "es_inv (new_event_stream z f)"
  by (simp add: es_inv_def new_event_stream_def)

section \<open>Wakeups, delivery and the result\<close>

fun producer_op :: "('e, 'r stream_op) queue_op \<Rightarrow> bool" where
  "producer_op (Push _) = True"
| "producer_op (Consume (End _)) = True"
| "producer_op _ = False"

definition es_state ::
  "'e \<Rightarrow> ('e, 'r stream_op) queue_op list \<Rightarrow> ('e, 'r) event_stream \<Rightarrow> ('e, 'r) event_stream" where
  "es_state zero ops s = snd (snd (queue_run es_offer (es_consume zero) ops s))"

lemma es_state_simps [simp]:
  "es_state zero [] s = s"
  "es_state zero (Push e # ops) s = es_state zero ops (es_push e s)"
  "es_state zero (Consume c # ops) s = es_state zero ops (snd (es_consume zero c s))"
  by (simp_all add: es_state_def es_offer_def split_beta Let_def)

text \<open>A consumer blocked on channel \<open>c\<close>, and one that has been woken.\<close>

definition blocked_on :: "nat \<Rightarrow> ('e, 'r) event_stream \<Rightarrow> bool" where
  "blocked_on c s \<longleftrightarrow> es_changed s = Some c \<and> \<not> es_done s \<and> es_pending s = []"

definition woken :: "nat \<Rightarrow> ('e, 'r) event_stream \<Rightarrow> bool" where
  "woken c s \<longleftrightarrow> c \<in> es_closed_chans s \<and> (es_done s \<or> es_pending s \<noteq> [])"

lemma closed_chans_signal [simp]:
  "es_closed_chans s \<subseteq> es_closed_chans (signal_changed s)"
  "es_closed_chans s \<subseteq> es_closed_chans (signal_result s)"
  by (auto simp: es_signal_defs split: option.splits)

lemma es_pending_signal [simp]:
  "es_pending (signal_changed s) = es_pending s" "es_pending (signal_result s) = es_pending s"
  by (simp_all add: es_pending_def)

lemma es_changed_signal_result [simp]: "es_changed (signal_result s) = es_changed s"
  by (simp add: signal_result_def split: option.splits)

lemma signal_changed_closes: "es_changed s = Some c \<Longrightarrow> c \<in> es_closed_chans (signal_changed s)"
  by (simp add: signal_changed_def)

lemma blocked_producer:
  "es_inv s \<Longrightarrow> blocked_on c s \<Longrightarrow> woken c (es_push e s)"
  "blocked_on c s \<Longrightarrow> woken c (es_end r s)"
  unfolding blocked_on_def woken_def es_push_def es_end_def
  by (auto simp: Let_def signal_changed_closes es_inv_def es_pending_def split: option.splits)

lemma woken_kept:
  "es_inv s \<Longrightarrow> woken c s \<Longrightarrow> woken c (es_push e s)"
  "woken c s \<Longrightarrow> woken c (es_end r s)"
  "woken c s \<Longrightarrow> woken c (snd (es_result_poll s))"
  unfolding woken_def es_push_def es_end_def es_result_poll_def
  by (auto simp: Let_def es_inv_def es_pending_def es_signal_defs split: option.splits)

lemma blocked_result_poll: "blocked_on c s \<Longrightarrow> blocked_on c (snd (es_result_poll s))"
  by (auto simp: blocked_on_def es_result_poll_def es_pending_def split: option.splits)

lemma woken_run:
  assumes "es_inv s" and "\<forall>op \<in> set ops. op \<noteq> Consume Next" and "woken c s"
  shows "woken c (es_state zero ops s)"
  using assms
proof (induction ops arbitrary: s)
  case Nil
  then show ?case by simp
next
  case (Cons op ops)
  show ?case
  proof (cases op)
    case (Push e)
    with Cons show ?thesis by (simp add: woken_kept es_inv_push)
  next
    case (Consume d)
    with Cons show ?thesis
      by (cases d) (simp_all add: woken_kept es_inv_end es_inv_result_poll)
  qed
qed

lemma blocked_run:
  assumes "es_inv s" and "\<forall>op \<in> set ops. op \<noteq> Consume Next" and "blocked_on c s"
    and "\<exists>op \<in> set ops. producer_op op"
  shows "woken c (es_state zero ops s)"
  using assms
proof (induction ops arbitrary: s)
  case Nil
  then show ?case by simp
next
  case (Cons op ops)
  show ?case
  proof (cases op)
    case (Push e)
    with Cons.prems show ?thesis
      by (simp add: woken_run blocked_producer es_inv_push)
  next
    case (Consume d)
    with Cons show ?thesis
      by (cases d)
        (auto simp: woken_run blocked_producer es_inv_end es_inv_result_poll blocked_result_poll)
  qed
qed

lemma wait_blocks:
  "es_inv s \<Longrightarrow> es_next zero s = (WaitOn c, s1) \<Longrightarrow>
     es_inv s1 \<and> blocked_on c s1 \<and> c \<notin> es_closed_chans s1"
  using es_inv_next [of s zero]
  by (auto simp: es_next_def blocked_on_def es_pending_def Let_def es_inv_def
      split: if_splits option.splits)

text \<open>Claim C1. No wakeup is lost: when \<open>Next\<close> finds nothing and waits on a channel, that
  channel is still open, and any sequence of \<open>Push\<close>, \<open>End\<close> and \<open>Result\<close> calls by other
  goroutines that contains a \<open>Push\<close> or an \<open>End\<close> closes it and leaves \<open>Next\<close> something
  to return.\<close>

theorem stream_no_lost_wakeup:
  assumes "es_inv s" and "es_next zero s = (WaitOn c, s1)"
    and "\<forall>op \<in> set ops. op \<noteq> Consume Next" and "\<exists>op \<in> set ops. producer_op op"
  shows "c \<notin> es_closed_chans s1 \<and> c \<in> es_closed_chans (es_state zero ops s1)
         \<and> (\<forall>d. fst (es_next zero (es_state zero ops s1)) \<noteq> WaitOn d)"
proof -
  from wait_blocks [OF assms(1,2)] have s1: "es_inv s1" "blocked_on c s1" "c \<notin> es_closed_chans s1"
    by auto
  have "woken c (es_state zero ops s1)"
    by (rule blocked_run [OF s1(1) assms(3) s1(2) assms(4)])
  with s1(3) show ?thesis
    by (auto simp: woken_def es_next_def es_pending_def Let_def split: if_splits)
qed

definition demo_complete :: "nat \<Rightarrow> nat option" where
  "demo_complete e = (if e = 9 then Some 90 else None)"

theorem stream_no_lost_wakeup_witness:
  "fst (es_next 0 (new_event_stream (0::nat) demo_complete)) = WaitOn 0
   \<and> (\<forall>d. fst (es_next 0 (es_state 0 [Push 5] (new_event_stream 0 demo_complete))) \<noteq> WaitOn d)"
proof -
  have wait: "es_next 0 (new_event_stream (0::nat) demo_complete)
      = (WaitOn 0, new_event_stream 0 demo_complete)"
    by (simp add: es_next_def new_event_stream_def)
  show ?thesis
    using stream_no_lost_wakeup [OF es_inv_new wait, of "[Push 5]"] wait by simp
qed

text \<open>Once the result is ready it never changes, because a ready stream is done.\<close>

lemma es_done_kept:
  "es_done s \<Longrightarrow> es_done (es_state zero ops s)"
  using stream.run_closed [of s zero ops] unfolding es_state_def by (metis prod.collapse)

lemma es_result_kept:
  "es_done s \<Longrightarrow> es_result_ready s \<Longrightarrow>
     es_result (es_state zero ops s) = es_result s \<and> es_result_ready (es_state zero ops s)"
proof (induction ops arbitrary: s)
  case Nil
  then show ?case by simp
next
  case (Cons op ops)
  show ?case
  proof (cases op)
    case (Push e)
    with Cons show ?thesis by (simp add: es_push_def)
  next
    case (Consume d)
    have "es_done (snd (es_consume zero d s)) \<and> es_result_ready (snd (es_consume zero d s))
        \<and> es_result (snd (es_consume zero d s)) = es_result s"
      using Cons.prems
      by (cases d) (auto simp: es_next_def es_end_def es_result_poll_def Let_def split: option.splits)
    with Cons.IH [of "snd (es_consume zero d s)"] Consume show ?thesis by simp
  qed
qed

lemma snd_consume_next: "snd (es_consume zero Next s) = snd (es_next zero s)"
  by (simp split: prod.splits poll.splits)

lemma es_complete_kept [simp]:
  "es_complete (es_push e s) = es_complete s" "es_complete (snd (es_consume zero c s)) = es_complete s"
  subgoal by (auto simp: es_push_def es_signal_defs Let_def split: option.splits)
  subgoal by (cases c) (auto simp: snd_consume_next es_next_def es_end_def es_result_poll_def
        es_signal_defs Let_def split: option.splits simp del: es_consume.simps(1))
  done

lemma es_consume_no_end:
  "\<not> producer_op (Consume c) \<Longrightarrow> es_done (snd (es_consume zero c s)) = es_done s"
  by (cases c) (auto simp: es_next_def es_result_poll_def Let_def split: option.splits)

lemma es_push_plain:
  "\<not> es_done s \<Longrightarrow> es_complete s e = None \<Longrightarrow> \<not> es_done (es_push e s)"
  by (simp add: es_push_def Let_def)

lemma es_push_terminal:
  "\<not> es_done s \<Longrightarrow> es_complete s e = Some r \<Longrightarrow>
     es_done (es_push e s) \<and> es_result_ready (es_push e s) \<and> es_result (es_push e s) = r"
  by (simp add: es_push_def Let_def)

lemma terminal_run:
  assumes "\<not> es_done s" and "\<forall>op \<in> set ops. \<forall>r. op \<noteq> Consume (End r)"
    and "queue_run es_offer (es_consume zero) ops s = (acc, out, s')"
  shows "if es_done s' then acc \<noteq> [] \<and> (\<forall>e \<in> set (butlast acc). es_complete s e = None)
           \<and> es_result_ready s' \<and> es_complete s (last acc) = Some (es_result s')
         else (\<forall>e \<in> set acc. es_complete s e = None)"
  using assms
proof (induction ops arbitrary: s acc out s')
  case Nil
  then show ?case by auto
next
  case (Cons op ops)
  show ?case
  proof (cases op)
    case (Push e)
    obtain acc1 out1 s2 where r: "queue_run es_offer (es_consume zero) ops (es_push e s) = (acc1, out1, s2)"
      by (cases "queue_run es_offer (es_consume zero) ops (es_push e s)") auto
    moreover have "es_offer e s = (True, es_push e s)"
      using Cons.prems(1) by (simp add: es_offer_def)
    ultimately have eqs: "acc = e # acc1" "s' = s2"
      using Cons.prems(3) Push by simp_all
    show ?thesis
    proof (cases "es_complete s e")
      case None
      with Cons.prems(1) have "\<not> es_done (es_push e s)" by (rule es_push_plain)
      from Cons.IH [OF this _ r] Cons.prems(2) None eqs show ?thesis by auto
    next
      case (Some res)
      note t = es_push_terminal [OF Cons.prems(1) Some]
      from t have d: "es_done (es_push e s)" by blast
      have "acc1 = [] \<and> es_done s2" by (rule stream.run_closed [OF d r])
      moreover have "es_result s2 = res \<and> es_result_ready s2"
        using es_result_kept [of "es_push e s" zero ops] t r by (simp add: es_state_def)
      ultimately show ?thesis using eqs Some by simp
    qed
  next
    case (Consume c)
    obtain acc1 out1 s2 where r:
      "queue_run es_offer (es_consume zero) ops (snd (es_consume zero c s)) = (acc1, out1, s2)"
      by (cases "queue_run es_offer (es_consume zero) ops (snd (es_consume zero c s))") auto
    with Cons.prems(3) Consume have eqs: "acc = acc1" "s' = s2" by (auto simp: split_beta)
    have "\<not> producer_op (Consume c :: ('a, 'b stream_op) queue_op)"
      using Cons.prems(2) Consume by (cases c) auto
    then have "\<not> es_done (snd (es_consume zero c s))"
      using Cons.prems(1) es_consume_no_end [of c zero s] by blast
    from Cons.IH [OF this _ r] Cons.prems(2) eqs show ?thesis by (auto split: if_splits)
  qed
qed

text \<open>Claim C2. Delivery: on a fresh stream whose producer never calls \<open>End\<close>, whatever the
  interleaving, the events handed out followed by those still queued are exactly the events
  pushed before the stream was done; no event but the last of them is terminal, and the
  stream is done only when that last event is terminal, with its value as the result.\<close>

theorem stream_delivers_until_terminal:
  assumes "queue_run es_offer (es_consume zero) ops (new_event_stream z f) = (accepted, delivered, s)"
    and "\<forall>op \<in> set ops. \<forall>r. op \<noteq> Consume (End r)"
  shows "delivered @ es_pending s = accepted
         \<and> (if es_done s then accepted \<noteq> [] \<and> (\<forall>e \<in> set (butlast accepted). f e = None)
              \<and> es_result_ready s \<and> f (last accepted) = Some (es_result s)
            else (\<forall>e \<in> set accepted. f e = None))"
proof -
  have new: "es_pending (new_event_stream z f) = []" "\<not> es_done (new_event_stream z f)"
    "es_complete (new_event_stream z f) = f"
    by (simp_all add: new_event_stream_def es_pending_def)
  have "delivered @ es_pending s = accepted"
    using stream.run_conserves [OF es_inv_new assms(1)] new(1) by simp
  moreover note terminal_run [OF new(2) assms(2,1), unfolded new(3)]
  ultimately show ?thesis by blast
qed

theorem stream_delivers_until_terminal_witness:
  "fst (snd (queue_run es_offer (es_consume 0) [Push 1, Consume Next, Push 9, Push 2, Consume Next]
     (new_event_stream (0::nat) demo_complete))) = [1, 9]"
proof -
  let ?ops = "[Push 1, Consume Next, Push 9, Push 2, Consume Next]"
  obtain acc out s where run:
    "queue_run es_offer (es_consume 0) ?ops (new_event_stream (0::nat) demo_complete) = (acc, out, s)"
    by (cases "queue_run es_offer (es_consume 0) ?ops (new_event_stream (0::nat) demo_complete)") auto
  have "acc = [1, 9]" "es_pending s = []"
    using run by (auto simp: es_offer_def es_push_def es_next_def new_event_stream_def demo_complete_def
        es_signal_defs es_pending_def)
  with stream_delivers_until_terminal [OF run] run show ?thesis by simp
qed

end
