(* ===== verification/Key_Pool.thy ===== *)
theory Key_Pool
  imports Ai_Types
begin

text \<open>
  The API-key pool of \<^verbatim>\<open>src/pkg/ai/api_key_pool.go\<close>: a provider wrapper that retries an
  authentication or rate-limit failure with another saved key. Times are Unix nanoseconds;
  \<open>zero_time\<close> is Go's zero \<^verbatim>\<open>time.Time\<close>. The wrapped provider is a parameter: what it answers
  for each key, and when each failure was recorded.
\<close>

definition zero_time :: int where
  "zero_time = - 62135596800000000000"

definition minute :: int where
  "minute = 60000000000"

definition api_key_rate_limit_cooldown :: int where
  "api_key_rate_limit_cooldown = minute"

definition api_key_invalid_cooldown :: int where
  "api_key_invalid_cooldown = 5 * minute"

record api_key_health =
  ah_invalid_until :: int
  ah_limited_until :: int
  ah_last_error :: "go_error option"

definition zero_health :: api_key_health where
  "zero_health = \<lparr>ah_invalid_until = zero_time, ah_limited_until = zero_time, ah_last_error = None\<rparr>"

record key_pool =
  kp_keys :: "string list"
  kp_active :: string
  kp_health :: "(string \<times> api_key_health) list"

definition health_of :: "key_pool \<Rightarrow> string \<Rightarrow> api_key_health" where
  "health_of p k = (case map_of (kp_health p) k of Some h \<Rightarrow> h | None \<Rightarrow> zero_health)"

fun unique_loop :: "string list \<Rightarrow> string list \<Rightarrow> string list" where
  "unique_loop result [] = result"
| "unique_loop result (v # vs) =
     (if v = [] then unique_loop result vs
      else if v \<in> set result then unique_loop result vs
      else unique_loop (result @ [v]) vs)"

definition unique_api_keys :: "string list \<Rightarrow> string list" where
  "unique_api_keys values = unique_loop [] values"

text \<open>\<open>None\<close>: the constructor returns the provider unwrapped.\<close>

definition new_key_pool :: "bool \<Rightarrow> string list \<Rightarrow> string \<Rightarrow> key_pool option" where
  "new_key_pool provider_is_nil keys active =
     (let unique = unique_api_keys (active # keys) in
      if provider_is_nil \<or> length unique < 2 then None
      else Some \<lparr>kp_keys = unique, kp_active = hd unique, kp_health = []\<rparr>)"

definition cooling :: "key_pool \<Rightarrow> int \<Rightarrow> string \<Rightarrow> bool" where
  "cooling p now k \<longleftrightarrow> now < ah_invalid_until (health_of p k) \<or> now < ah_limited_until (health_of p k)"

fun candidates_loop ::
  "key_pool \<Rightarrow> int \<Rightarrow> string list \<Rightarrow> string list \<Rightarrow> go_error option \<Rightarrow> string list \<times> go_error option" where
  "candidates_loop p now [] result unavailable = (result, unavailable)"
| "candidates_loop p now (k # ks) result unavailable =
     (if cooling p now k then
        candidates_loop p now ks result
          (if unavailable = None then ah_last_error (health_of p k) else unavailable)
      else candidates_loop p now ks (result @ [k]) unavailable)"

definition candidates :: "string \<Rightarrow> int \<Rightarrow> key_pool \<Rightarrow> string list \<times> go_error option" where
  "candidates preferred now p =
     candidates_loop p now (unique_api_keys (preferred # kp_active p # kp_keys p)) [] None"

definition mark_healthy :: "string \<Rightarrow> key_pool \<Rightarrow> key_pool" where
  "mark_healthy k p = p\<lparr>kp_active := k, kp_health := AList.delete k (kp_health p)\<rparr>"

definition mark_failure :: "string \<Rightarrow> go_error \<Rightarrow> int \<Rightarrow> key_pool \<Rightarrow> bool \<times> key_pool" where
  "mark_failure k err now p =
     (case as_http err of
        None \<Rightarrow> (False, p)
      | Some status \<Rightarrow>
          (let h = (health_of p k)\<lparr>ah_last_error := Some err\<rparr> in
           if status = 401 then
             (True, p\<lparr>kp_health := AList.update k
                        (h\<lparr>ah_invalid_until := now + api_key_invalid_cooldown\<rparr>) (kp_health p)\<rparr>)
           else if status = 403 \<or> status = 429 then
             (True, p\<lparr>kp_health := AList.update k
                        (h\<lparr>ah_limited_until := now + api_key_rate_limit_cooldown\<rparr>) (kp_health p)\<rparr>)
           else (False, p)))"

text \<open>
  The retry loop of \<^verbatim>\<open>Stream\<close>: \<open>provider k\<close> is the answer of the wrapped provider to an
  attempt with key \<open>k\<close>, \<open>failed_at k\<close> the clock when a failure of \<open>k\<close> is recorded.
\<close>

fun stream_loop ::
  "(string \<Rightarrow> go_error + 's) \<Rightarrow> (string \<Rightarrow> int) \<Rightarrow> string \<Rightarrow> string list \<Rightarrow> go_error option
     \<Rightarrow> key_pool \<Rightarrow> (go_error + 's) \<times> key_pool" where
  "stream_loop provider failed_at ident [] last_err p =
     (Inl (Wrap (ident @ '': all saved API keys failed: '')
             (case last_err of Some e \<Rightarrow> e | None \<Rightarrow> ErrText ''%!w(<nil>)'')), p)"
| "stream_loop provider failed_at ident (k # ks) last_err p =
     (case provider k of
        Inr s \<Rightarrow> (Inr s, mark_healthy k p)
      | Inl err \<Rightarrow>
          (case mark_failure k err (failed_at k) p of
             (retry, p') \<Rightarrow>
               if retry then stream_loop provider failed_at ident ks (Some err) p'
               else (Inl err, p')))"

definition pool_stream ::
  "(string \<Rightarrow> go_error + 's) \<Rightarrow> (string \<Rightarrow> int) \<Rightarrow> string \<Rightarrow> string \<Rightarrow> int \<Rightarrow> key_pool
     \<Rightarrow> (go_error + 's) \<times> key_pool" where
  "pool_stream provider failed_at ident preferred now p =
     (case candidates preferred now p of
        ([], Some e) \<Rightarrow> (Inl (Wrap (ident @ '': all saved API keys are unavailable: '') e), p)
      | ([], None) \<Rightarrow> (Inl (ErrText (ident @ '': no saved API keys are available'')), p)
      | (ks, _) \<Rightarrow> stream_loop provider failed_at ident ks None p)"

section \<open>Candidates\<close>

lemma unique_loop_spec:
  "distinct result \<Longrightarrow> distinct (unique_loop result vs)
     \<and> set (unique_loop result vs) = set result \<union> (set vs - {[]})
     \<and> prefix result (unique_loop result vs)"
  by (induction result vs rule: unique_loop.induct) (auto simp: prefix_def)

lemma unique_api_keys_spec:
  "distinct (unique_api_keys vs)" "set (unique_api_keys vs) = set vs - {[]}"
  using unique_loop_spec [of "[]" vs] by (simp_all add: unique_api_keys_def)

lemma unique_api_keys_first: "v \<noteq> [] \<Longrightarrow> \<exists>ks. unique_api_keys (v # vs) = v # ks"
  using unique_loop_spec [of "[v]" vs] by (auto simp: unique_api_keys_def prefix_def)

lemma candidates_loop_filter:
  "fst (candidates_loop p now ks result u) = result @ filter (\<lambda>k. \<not> cooling p now k) ks"
  by (induction p now ks result u rule: candidates_loop.induct) auto

lemma candidates_filter:
  "fst (candidates preferred now p) =
     filter (\<lambda>k. \<not> cooling p now k) (unique_api_keys (preferred # kp_active p # kp_keys p))"
  by (simp add: candidates_def candidates_loop_filter)

lemma candidates_distinct: "distinct (fst (candidates preferred now p))"
  by (simp add: candidates_filter unique_api_keys_spec)

lemma mem_candidates:
  "k \<in> set (fst (candidates preferred now p)) \<longleftrightarrow>
     k \<in> insert preferred (insert (kp_active p) (set (kp_keys p))) \<and> k \<noteq> [] \<and> \<not> cooling p now k"
  by (auto simp: candidates_filter unique_api_keys_spec)

section \<open>The retry loop\<close>

text \<open>A failure that sets the key aside and lets the next key be tried.\<close>

definition retryable_status :: "go_error \<Rightarrow> bool" where
  "retryable_status e \<longleftrightarrow> as_http e \<in> {Some 401, Some 403, Some 429}"

definition set_aside :: "(string \<Rightarrow> go_error + 's) \<Rightarrow> string \<Rightarrow> bool" where
  "set_aside provider k \<longleftrightarrow> (case provider k of Inl e \<Rightarrow> retryable_status e | Inr _ \<Rightarrow> False)"

lemma fst_mark_failure: "fst (mark_failure k e t p) = retryable_status e"
  by (auto simp: mark_failure_def retryable_status_def Let_def split: option.splits)

lemma mark_failure_other:
  "\<not> retryable_status e \<Longrightarrow> mark_failure k e t p = (False, p)"
  by (auto simp: mark_failure_def retryable_status_def Let_def split: option.splits)

lemma mark_failure_health:
  "retryable_status e \<Longrightarrow> k' \<noteq> k \<Longrightarrow> health_of (snd (mark_failure k e t p)) k' = health_of p k'"
  by (auto simp: mark_failure_def health_of_def Let_def split: option.splits)

lemma mark_failure_fields [simp]:
  "kp_active (snd (mark_failure k e t p)) = kp_active p"
  "kp_keys (snd (mark_failure k e t p)) = kp_keys p"
  by (auto simp: mark_failure_def Let_def split: option.splits)

text \<open>How long a failure sets a key aside.\<close>

definition cooldown_of :: "go_error \<Rightarrow> int" where
  "cooldown_of e = (if as_http e = Some 401 then api_key_invalid_cooldown else api_key_rate_limit_cooldown)"

lemma mark_failure_cools:
  assumes "retryable_status e"
  shows "cooling (snd (mark_failure k e t p)) now k \<longleftrightarrow>
     now < t + cooldown_of e
     \<or> now < (if as_http e = Some 401 then ah_limited_until (health_of p k)
              else ah_invalid_until (health_of p k))"
  using assms
  by (auto simp: cooling_def mark_failure_def retryable_status_def cooldown_of_def health_of_def Let_def
      split: option.splits)

lemma stream_loop_cons_aside:
  "provider k = Inl e \<Longrightarrow> retryable_status e \<Longrightarrow>
     stream_loop provider fa ident (k # ks) le p
       = stream_loop provider fa ident ks (Some e) (snd (mark_failure k e (fa k) p))"
  using fst_mark_failure [of k e "fa k" p] by (cases "mark_failure k e (fa k) p") simp

lemma stream_loop_outcome:
  "dropWhile (set_aside provider) ks = k # rest \<Longrightarrow>
     fst (stream_loop provider fa ident ks le p) = provider k"
proof (induction ks arbitrary: le p)
  case Nil
  then show ?case by simp
next
  case (Cons a ks)
  show ?case
  proof (cases "provider a")
    case (Inr s)
    with Cons.prems show ?thesis by (simp add: set_aside_def)
  next
    case (Inl e)
    show ?thesis
    proof (cases "retryable_status e")
      case False
      with Inl Cons.prems show ?thesis by (simp add: set_aside_def mark_failure_other)
    next
      case True
      with Inl have "set_aside provider a" by (simp add: set_aside_def)
      with Cons.prems have "dropWhile (set_aside provider) ks = k # rest" by simp
      from Cons.IH [OF this, of "Some e"] stream_loop_cons_aside [of provider a e, OF Inl True] show ?thesis by simp
    qed
  qed
qed

lemma stream_loop_exhausted:
  "ks \<noteq> [] \<Longrightarrow> \<forall>k \<in> set ks. set_aside provider k \<Longrightarrow>
     fst (stream_loop provider fa ident ks le p)
       = Inl (Wrap (ident @ '': all saved API keys failed: '') (projl (provider (last ks))))"
proof (induction ks arbitrary: le p)
  case Nil
  then show ?case by simp
next
  case (Cons a ks)
  then obtain e where e: "provider a = Inl e" "retryable_status e"
    by (auto simp: set_aside_def split: sum.splits)
  note step = stream_loop_cons_aside [of provider a e, OF e]
  show ?case
  proof (cases "ks = []")
    case True
    with step e show ?thesis by simp
  next
    case False
    with Cons.prems step Cons.IH [OF False, of "Some e"] show ?thesis by simp
  qed
qed

lemma stream_loop_health_untouched:
  "k \<notin> set ks \<Longrightarrow> kp_active (snd (stream_loop provider fa ident ks le p)) \<in> insert (kp_active p) (set ks)
     \<and> health_of (snd (stream_loop provider fa ident ks le p)) k = health_of p k"
proof (induction ks arbitrary: le p)
  case Nil
  then show ?case by simp
next
  case (Cons a ks)
  show ?case
  proof (cases "provider a")
    case (Inr s)
    with Cons.prems show ?thesis by (simp add: mark_healthy_def health_of_def)
  next
    case (Inl e)
    show ?thesis
    proof (cases "retryable_status e")
      case False
      with Inl show ?thesis by (simp add: mark_failure_other)
    next
      case True
      with Inl Cons.prems Cons.IH [of "Some e" "snd (mark_failure a e (fa a) p)"] show ?thesis
        by (auto simp: stream_loop_cons_aside mark_failure_health simp del: stream_loop.simps(2))
    qed
  qed
qed

lemma stream_loop_post:
  assumes "distinct ks"
  shows "(\<forall>k \<in> set (takeWhile (set_aside provider) ks). \<forall>now < fa k + cooldown_of (projl (provider k)).
            cooling (snd (stream_loop provider fa ident ks le p)) now k)
       \<and> (\<forall>k rest s. dropWhile (set_aside provider) ks = k # rest \<and> provider k = Inr s \<longrightarrow>
            kp_active (snd (stream_loop provider fa ident ks le p)) = k
            \<and> health_of (snd (stream_loop provider fa ident ks le p)) k = zero_health)"
  using assms
proof (induction ks arbitrary: le p)
  case Nil
  then show ?case by simp
next
  case (Cons a ks)
  show ?case
  proof (cases "provider a")
    case (Inr s)
    then show ?thesis by (simp add: set_aside_def mark_healthy_def health_of_def)
  next
    case (Inl e)
    show ?thesis
    proof (cases "retryable_status e")
      case False
      with Inl show ?thesis by (simp add: set_aside_def)
    next
      case True
      let ?p = "snd (mark_failure a e (fa a) p)"
      let ?q = "snd (stream_loop provider fa ident ks (Some e) ?p)"
      have q: "snd (stream_loop provider fa ident (a # ks) le p) = ?q"
        using stream_loop_cons_aside [of provider a e, OF Inl True] by simp
      have h: "health_of ?q a = health_of ?p a"
        using stream_loop_health_untouched [of a ks provider fa ident "Some e" ?p] Cons.prems by simp
      then have "\<forall>now < fa a + cooldown_of e. cooling ?q now a"
        using mark_failure_cools [OF True, of a "fa a" p] by (simp add: cooling_def)
      moreover have "set_aside provider a" using Inl True by (simp add: set_aside_def)
      ultimately show ?thesis
        using Cons.IH [of "Some e" ?p] Cons.prems q Inl by simp
    qed
  qed
qed

text \<open>Claim C4. A pooled request tries the candidate keys in order, each at most once: it
  returns the answer for the first candidate whose attempt is not a 401, 403 or 429, a
  success or an error that is not the key's. A success makes that key the active one with
  clean health, and every key tried before it is set aside for its cooldown.\<close>

theorem pool_stream_first_usable_key:
  assumes "fst (candidates preferred now p) = ks"
    and "dropWhile (set_aside provider) ks = k # rest"
    and "pool_stream provider failed_at ident preferred now p = (result, p')"
  shows "result = provider k
    \<and> (\<forall>s. provider k = Inr s \<longrightarrow> kp_active p' = k \<and> health_of p' k = zero_health)
    \<and> (\<forall>j \<in> set (takeWhile (set_aside provider) ks).
         \<forall>t < failed_at j + cooldown_of (projl (provider j)). j \<notin> set (fst (candidates preferred' t p')))"
proof -
  have "ks \<noteq> []" using assms(2) by auto
  then have loop: "stream_loop provider failed_at ident ks None p = (result, p')"
    using assms(1,3) by (auto simp: pool_stream_def split: prod.splits list.splits)
  have "distinct ks" using candidates_distinct assms(1) by blast
  note post = stream_loop_post [OF this, of provider failed_at ident None p]
  have "result = provider k"
    using stream_loop_outcome [OF assms(2), of failed_at ident None p] loop by simp
  then show ?thesis using post loop assms(2) by (auto simp: mem_candidates)
qed

definition demo_pool :: key_pool where
  "demo_pool = \<lparr>kp_keys = [''k1'', ''k2'', ''k3''], kp_active = ''k1'', kp_health = []\<rparr>"

definition demo_provider :: "string \<Rightarrow> go_error + nat" where
  "demo_provider k = (if k = ''k1'' then Inl (HTTPError ''p'' 401 ''bad key'') else Inr 7)"

theorem pool_stream_first_usable_key_witness:
  "fst (pool_stream demo_provider (\<lambda>_. 100) ''p'' [] 50 demo_pool) = Inr 7
   \<and> ''k1'' \<notin> set (fst (candidates [] 100 (snd (pool_stream demo_provider (\<lambda>_. 100) ''p'' [] 50 demo_pool))))"
proof -
  let ?r = "pool_stream demo_provider (\<lambda>_. 100) ''p'' [] 50 demo_pool"
  have cs: "fst (candidates [] 50 demo_pool) = [''k1'', ''k2'', ''k3'']"
    by (simp add: candidates_filter unique_api_keys_def demo_pool_def cooling_def health_of_def
        zero_health_def zero_time_def)
  have drop: "dropWhile (set_aside demo_provider) [''k1'', ''k2'', ''k3''] = ''k2'' # [''k3'']"
    by (simp add: set_aside_def demo_provider_def retryable_status_def)
  have cd: "(100::int) < 100 + cooldown_of (projl (demo_provider ''k1''))"
    by (simp add: cooldown_of_def demo_provider_def api_key_invalid_cooldown_def minute_def)
  have take: "''k1'' \<in> set (takeWhile (set_aside demo_provider) [''k1'', ''k2'', ''k3''])"
    by (simp add: set_aside_def demo_provider_def retryable_status_def)
  obtain res p' where run: "?r = (res, p')" by (cases ?r)
  from pool_stream_first_usable_key [OF cs drop run, of "[]"] cd take run show ?thesis
    by (simp add: demo_provider_def)
qed



end
