(* ===== verification/Transcript.thy ===== *)
theory Transcript
  imports Ai_Types
begin

text \<open>
  What makes a transcript acceptable to a provider: the tool calls of an assistant message are
  answered, each by one tool result, before anything else follows. \<^verbatim>\<open>toolCalls\<close> is the function
  of \<^verbatim>\<open>src/pkg/agent/loop.go\<close>; the rest is the specification the loop and the compactor are
  proved against. A message that ended in an error or was aborted is not executed, so its calls
  need no answer.
\<close>

fun content_call :: "content \<Rightarrow> tool_call option" where
  "content_call (Call c) = Some c"
| "content_call (CallPtr p) = p"
| "content_call _ = None"

fun tool_calls_of :: "content list \<Rightarrow> tool_call list" where
  "tool_calls_of [] = []"
| "tool_calls_of (x # xs) =
     (case content_call x of Some c \<Rightarrow> c # tool_calls_of xs | None \<Rightarrow> tool_calls_of xs)"

definition tool_calls :: "assistant_message \<Rightarrow> tool_call list" where
  "tool_calls m = tool_calls_of (am_content m)"

definition failed_stop :: "stop_reason \<Rightarrow> bool" where
  "failed_stop r \<longleftrightarrow> r = StopError \<or> r = StopAborted"

definition open_ids :: "assistant_message \<Rightarrow> string list" where
  "open_ids m = (if failed_stop (am_stop_reason m) then [] else map tc_id (tool_calls m))"

fun message_ids :: "message \<Rightarrow> string list" where
  "message_ids (Assistant m) = open_ids m"
| "message_ids (AssistantPtr (Some m)) = open_ids m"
| "message_ids _ = []"

fun result_id :: "message \<Rightarrow> string option" where
  "result_id (ToolRes r) = Some (tr_tool_call_id r)"
| "result_id (ToolResPtr (Some r)) = Some (tr_tool_call_id r)"
| "result_id _ = None"

text \<open>\<open>paired ids ms\<close>: \<open>ms\<close> first answers the open calls \<open>ids\<close>, in order, and then every
  message's own calls likewise.\<close>

fun paired :: "string list \<Rightarrow> message list \<Rightarrow> bool" where
  "paired ids [] \<longleftrightarrow> ids = []"
| "paired ids (m # ms) \<longleftrightarrow>
     (case result_id m of
        Some i \<Rightarrow> (case ids of [] \<Rightarrow> False | j # js \<Rightarrow> i = j \<and> paired js ms)
      | None \<Rightarrow> ids = [] \<and> paired (message_ids m) ms)"

abbreviation valid_transcript :: "message list \<Rightarrow> bool" where
  "valid_transcript ms \<equiv> paired [] ms"

lemma paired_append:
  "paired ids xs \<Longrightarrow> valid_transcript ys \<Longrightarrow> paired ids (xs @ ys)"
  by (induction ids xs rule: paired.induct) (auto split: option.splits list.splits)

text \<open>A valid transcript may be cut before any message that is not a tool result.\<close>

lemma paired_split:
  "paired ids (xs @ m # ys) \<Longrightarrow> result_id m = None \<Longrightarrow>
     paired ids xs \<and> valid_transcript (m # ys)"
  by (induction ids xs rule: paired.induct) (auto split: option.splits list.splits)

lemma paired_results:
  "map result_id rs = map Some ids \<Longrightarrow> paired ids (rs @ ms) = paired [] ms"
proof (induction rs arbitrary: ids)
  case Nil
  then show ?case by simp
next
  case (Cons r rs)
  then obtain j js where "ids = j # js" "result_id r = Some j" "map result_id rs = map Some js"
    by (cases ids) auto
  with Cons.IH show ?case by simp
qed

end
