(* ===== verification/Compaction.thy ===== *)
theory Compaction
  imports Transcript
begin

text \<open>
  Context compaction (\<^verbatim>\<open>src/pkg/agent/compaction.go\<close>): estimating a conversation's size,
  choosing what to summarise, asking the model for a checkpoint and rewriting the history.
  The encoder of package \<^verbatim>\<open>encoding/json\<close> is the parameter \<open>marshal\<close> (\<open>None\<close> is an encoding
  error), the provider the parameter of \<open>summarize\<close>.
\<close>

record compaction_settings =
  cs_enabled :: bool
  cs_reserve_tokens :: int
  cs_keep_recent_tokens :: int

definition default_compaction_settings :: compaction_settings where
  "default_compaction_settings =
     \<lparr>cs_enabled = True, cs_reserve_tokens = 16384, cs_keep_recent_tokens = 20000\<rparr>"

definition normalize :: "compaction_settings \<Rightarrow> compaction_settings" where
  "normalize s =
     (let s1 = (if cs_reserve_tokens s \<le> 0
                then s\<lparr>cs_reserve_tokens := cs_reserve_tokens default_compaction_settings\<rparr> else s)
      in if cs_keep_recent_tokens s1 \<le> 0
         then s1\<lparr>cs_keep_recent_tokens := cs_keep_recent_tokens default_compaction_settings\<rparr> else s1)"

definition should_compact :: "int \<Rightarrow> int \<Rightarrow> compaction_settings \<Rightarrow> bool" where
  "should_compact context_tokens context_window settings =
     (if \<not> cs_enabled settings \<or> context_window \<le> 0 then False
      else context_tokens > context_window - cs_reserve_tokens (normalize settings))"

definition estimated_image_chars :: int where
  "estimated_image_chars = 4800"

abbreviation len :: "string \<Rightarrow> int" where
  "len s \<equiv> int (length s)"

fun user_part_chars :: "content \<Rightarrow> int" where
  "user_part_chars (Text t) = len (tx_text t)"
| "user_part_chars (TextPtr (Some t)) = len (tx_text t)"
| "user_part_chars (Image _) = estimated_image_chars"
| "user_part_chars (ImagePtr _) = estimated_image_chars"
| "user_part_chars _ = 0"

definition user_content_chars :: "user_content \<Rightarrow> int" where
  "user_content_chars c =
     (case uc_text c of
        Some t \<Rightarrow> len t
      | None \<Rightarrow> sum_list (map user_part_chars (uc_parts c)))"

fun assistant_part_chars :: "(arguments \<Rightarrow> string option) \<Rightarrow> content \<Rightarrow> int" where
  "assistant_part_chars marshal (Text t) = len (tx_text t)"
| "assistant_part_chars marshal (TextPtr (Some t)) = len (tx_text t)"
| "assistant_part_chars marshal (Thinking t) = len (th_thinking t)"
| "assistant_part_chars marshal (Call c) =
     (case marshal (tc_arguments c) of
        Some a \<Rightarrow> len (tc_name c) + len a
      | None \<Rightarrow> len (tc_name c))"
| "assistant_part_chars marshal (CallPtr (Some c)) = len (tc_name c)"
| "assistant_part_chars marshal (Image _) = estimated_image_chars"
| "assistant_part_chars marshal (ImagePtr _) = estimated_image_chars"
| "assistant_part_chars marshal _ = 0"

definition assistant_content_chars :: "(arguments \<Rightarrow> string option) \<Rightarrow> content list \<Rightarrow> int" where
  "assistant_content_chars marshal cs = sum_list (map (assistant_part_chars marshal) cs)"

fun message_chars :: "(arguments \<Rightarrow> string option) \<Rightarrow> message \<Rightarrow> int" where
  "message_chars marshal (User m) = user_content_chars (um_content m)"
| "message_chars marshal (UserPtr (Some m)) = user_content_chars (um_content m)"
| "message_chars marshal (Assistant m) = assistant_content_chars marshal (am_content m)"
| "message_chars marshal (AssistantPtr (Some m)) = assistant_content_chars marshal (am_content m)"
| "message_chars marshal (ToolRes m) = assistant_content_chars marshal (tr_content m)"
| "message_chars marshal (ToolResPtr (Some m)) = assistant_content_chars marshal (tr_content m)"
| "message_chars marshal _ = 0"

definition estimate_tokens :: "(arguments \<Rightarrow> string option) \<Rightarrow> message \<Rightarrow> int" where
  "estimate_tokens marshal m = (message_chars marshal m + 3) div 4"

fun as_assistant :: "message \<Rightarrow> assistant_message option" where
  "as_assistant (Assistant m) = Some m"
| "as_assistant (AssistantPtr p) = p"
| "as_assistant _ = None"

definition context_usage_tokens :: "usage \<Rightarrow> int" where
  "context_usage_tokens u =
     (if us_total_tokens u > 0 then us_total_tokens u
      else us_input u + us_output u + us_cache_read u + us_cache_write u)"

text \<open>The first loop of \<^verbatim>\<open>ContextTokens\<close>: the last index with a reported usage, and that usage.\<close>

fun last_usage_loop :: "message list \<Rightarrow> int \<Rightarrow> int \<Rightarrow> int \<Rightarrow> int \<times> int" where
  "last_usage_loop [] index tokens last_usage = (tokens, last_usage)"
| "last_usage_loop (m # ms) index tokens last_usage =
     (case as_assistant m of
        None \<Rightarrow> last_usage_loop ms (index + 1) tokens last_usage
      | Some a \<Rightarrow>
          if am_stop_reason a = StopError \<or> am_stop_reason a = StopAborted
          then last_usage_loop ms (index + 1) tokens last_usage
          else let u = context_usage_tokens (am_usage a) in
            if u > 0 then last_usage_loop ms (index + 1) u index
            else last_usage_loop ms (index + 1) tokens last_usage)"

definition context_tokens :: "(arguments \<Rightarrow> string option) \<Rightarrow> message list \<Rightarrow> int" where
  "context_tokens marshal ms =
     (let (tokens, last_usage) = last_usage_loop ms 0 0 (-1);
          tail_tokens = tokens + sum_list (map (estimate_tokens marshal) (drop (nat (last_usage + 1)) ms))
      in if last_usage < 0 then sum_list (map (estimate_tokens marshal) ms) else tail_tokens)"

text \<open>The backwards scan of \<^verbatim>\<open>PlanCompaction\<close>; \<open>i\<close> is the loop index plus one.\<close>

fun cut_scan :: "(arguments \<Rightarrow> string option) \<Rightarrow> message list \<Rightarrow> int \<Rightarrow> nat \<Rightarrow> int \<Rightarrow> nat option" where
  "cut_scan marshal ms keep 0 accumulated = None"
| "cut_scan marshal ms keep (Suc i) accumulated =
     (let accumulated' = accumulated + estimate_tokens marshal (ms ! i) in
      if accumulated' < keep then cut_scan marshal ms keep i accumulated' else Some i)"

fun is_tool_result :: "message \<Rightarrow> bool" where
  "is_tool_result (ToolRes _) = True"
| "is_tool_result (ToolResPtr _) = True"
| "is_tool_result _ = False"

function valid_cut_index :: "message list \<Rightarrow> nat \<Rightarrow> nat" where
  "valid_cut_index ms index =
     (if index < length ms then
        if is_tool_result (ms ! index) then valid_cut_index ms (Suc index) else index
      else length ms)"
  by pat_completeness auto
termination
  by (relation "measure (\<lambda>(ms, index). length ms - index)") auto

declare valid_cut_index.simps [simp del]

definition plan_compaction ::
  "(arguments \<Rightarrow> string option) \<Rightarrow> message list \<Rightarrow> int \<Rightarrow> (message list \<times> message list) option" where
  "plan_compaction marshal ms keep =
     (if length ms < 2 \<or> keep \<le> 0 then None
      else case cut_scan marshal ms keep (length ms) 0 of
        None \<Rightarrow> None
      | Some cut0 \<Rightarrow>
          let cut = valid_cut_index ms cut0 in
          if cut = 0 then None else Some (take cut ms, drop cut ms))"

definition compaction_prompt :: string where
  \<open>compaction_prompt = join [CHR 0x0A]
     [''The messages above are a conversation to summarize. Create a structured context checkpoint summary that another LLM will use to continue the work.'',
      [], ''Use this EXACT format:'', [], ''## Goal'',
      ''[What is the user trying to accomplish? Can be multiple items if the session covers different tasks.]'',
      [], ''## Constraints & Preferences'',
      ''- [Any constraints, preferences, or requirements mentioned by the user]'',
      ''- [Or "(none)" if not applicable]'', [], ''## Progress'', ''### Done'',
      ''- [x] [Completed tasks/changes]'', [], ''### In Progress'', ''- [ ] [Current work]'', [],
      ''### Blocked'', ''- [Issues preventing progress, if any]'', [], ''## Key Decisions'',
      ''- **[Decision]**: [Brief rationale]'', [], ''## Next Steps'',
      ''1. [Ordered list of what should happen next]'', [], ''## Critical Context'',
      ''- [Any data, examples, or references needed to continue]'',
      ''- [Or "(none)" if not applicable]'', [],
      ''Keep each section concise. Preserve exact file paths, function names, and error messages.'']\<close>

definition update_compaction_prompt :: string where
  \<open>update_compaction_prompt = join [CHR 0x0A]
     [''The messages above are NEW conversation messages to incorporate into the existing summary provided in <previous-summary> tags.'',
      [], ''RULES:'', ''- PRESERVE all existing information from the previous summary'',
      ''- ADD new progress, decisions, and context from the new messages'',
      ''- UPDATE the Progress section: move items from "In Progress" to "Done" when completed'',
      ''- UPDATE "Next Steps" based on what was accomplished'',
      ''- PRESERVE exact file paths, function names, and error messages'',
      ''- If something is no longer relevant, you may remove it'', [],
      ''Use the same EXACT format as the previous summary. Keep each section concise.'']\<close>

definition summary_marker :: string where
  "summary_marker = ''Compaction summary of earlier conversation:''"

fun text_part :: "content \<Rightarrow> string" where
  "text_part (Text t) = tx_text t"
| "text_part (TextPtr (Some t)) = tx_text t"
| "text_part _ = []"

definition user_text :: "user_content \<Rightarrow> string" where
  "user_text c =
     (case uc_text c of
        Some t \<Rightarrow> trim_space t
      | None \<Rightarrow> trim_space (concat (map text_part (uc_parts c))))"

fun assistant_part :: "content \<Rightarrow> string" where
  "assistant_part (Call c) = ''tool call '' @ tc_name c"
| "assistant_part c = text_part c"

definition assistant_text :: "content list \<Rightarrow> string" where
  "assistant_text cs = trim_space (concat (map assistant_part cs))"

fun serialize_message :: "message \<Rightarrow> string" where
  "serialize_message (User m) = ''user: '' @ user_text (um_content m)"
| "serialize_message (UserPtr (Some m)) = ''user: '' @ user_text (um_content m)"
| "serialize_message (Assistant m) = ''assistant: '' @ assistant_text (am_content m)"
| "serialize_message (AssistantPtr (Some m)) = ''assistant: '' @ assistant_text (am_content m)"
| "serialize_message (ToolRes m) =
     ''tool result ('' @ tr_tool_name m @ ''): '' @ assistant_text (tr_content m)"
| "serialize_message (ToolResPtr (Some m)) =
     ''tool result ('' @ tr_tool_name m @ ''): '' @ assistant_text (tr_content m)"
| "serialize_message _ = []"

abbreviation newline :: string where
  "newline \<equiv> [CHR 0x0A]"

definition build_summarization_prompt :: "message list \<Rightarrow> string \<Rightarrow> string" where
  "build_summarization_prompt ms previous =
     (let conversation = ''<conversation>'' @ newline
            @ concat (map (\<lambda>m. serialize_message m @ newline) ms) @ ''</conversation>''
      in if trim_space previous = [] then conversation @ newline @ newline @ compaction_prompt
         else conversation @ newline @ newline @ ''<previous-summary>'' @ newline
              @ trim_space previous @ newline @ ''</previous-summary>'' @ newline @ newline
              @ update_compaction_prompt)"

text \<open>
  \<open>summarize\<close>: the provider is \<open>None\<close> when it is nil, and otherwise answers the request (the
  model, the context and the options) with an error of \<^verbatim>\<open>Stream\<close> or \<^verbatim>\<open>Result\<close> or a message.
\<close>

fun checkpoint_text :: "content list \<Rightarrow> string option" where
  "checkpoint_text [] = Some []"
| "checkpoint_text (Call _ # cs) = None"
| "checkpoint_text (CallPtr _ # cs) = None"
| "checkpoint_text (c # cs) = map_option (\<lambda>t. text_part c @ t) (checkpoint_text cs)"

definition summary_request :: "model \<Rightarrow> stream_options \<Rightarrow> compaction_settings \<Rightarrow> stream_options" where
  "summary_request m options settings =
     (let request = \<lparr>so_api_key = so_api_key options, so_max_tokens = cs_reserve_tokens settings,
            so_reasoning = ThinkingUnset, so_cache_retention = CacheNone,
            so_session_id = so_session_id options, so_timeout = so_timeout options,
            so_max_retries = 0\<rparr>
      in if mo_reasoning m \<and> so_reasoning options \<noteq> ThinkingUnset \<and> so_reasoning options \<noteq> ThinkingOff
         then request\<lparr>so_reasoning := so_reasoning options\<rparr> else request)"

definition summarize ::
  "(model \<Rightarrow> ai_context \<Rightarrow> stream_options \<Rightarrow> go_error + assistant_message) option \<Rightarrow> model \<Rightarrow> stream_options
     \<Rightarrow> message list \<Rightarrow> string \<Rightarrow> compaction_settings \<Rightarrow> int \<Rightarrow> go_error + string" where
  "summarize provider m options ms previous settings now =
     (case provider of
        None \<Rightarrow> Inl (ErrText ''compaction: no provider'')
      | Some ask \<Rightarrow>
          if ms = [] then Inl (ErrText ''compaction: no messages to summarize'')
          else case ask m
                \<lparr>cx_system_prompt = ''You write concise, structured context checkpoints so another agent can continue the work.'',
                 cx_messages = [User (new_user_message (build_summarization_prompt ms previous) now)],
                 cx_tools = []\<rparr>
                          (summary_request m options (normalize settings)) of
            Inl e \<Rightarrow> Inl e
          | Inr result \<Rightarrow>
              if am_stop_reason result = StopError \<or> am_stop_reason result = StopAborted
              then Inl (ErrText (''compaction: '' @ am_error_message result))
              else if am_stop_reason result = StopLength
              then Inl (ErrText ''compaction: the summary hit the token cap and is incomplete'')
              else case checkpoint_text (am_content result) of
                None \<Rightarrow> Inl (ErrText ''compaction: the summarizer tried to call a tool'')
              | Some t \<Rightarrow>
                  let summary = trim_space t in
                  if summary = [] then Inl (ErrText ''compaction: the summarizer returned no text'')
                  else Inr summary)"

definition apply_compaction :: "string \<Rightarrow> message list \<Rightarrow> int \<Rightarrow> message list" where
  "apply_compaction summary keep now =
     User (new_synthetic_message (summary_marker @ newline @ newline @ trim_space summary) now) # keep"

fun previous_summary :: "message list \<Rightarrow> string" where
  "previous_summary [] = []"
| "previous_summary (User u # ms) =
     (if \<not> um_synthetic u then previous_summary ms
      else let text = user_text (um_content u) in
        if prefix summary_marker text then trim_space (trim_prefix summary_marker text)
        else previous_summary ms)"
| "previous_summary (_ # ms) = previous_summary ms"

definition compact ::
  "(arguments \<Rightarrow> string option) \<Rightarrow> (model \<Rightarrow> ai_context \<Rightarrow> stream_options \<Rightarrow> go_error + assistant_message) option
     \<Rightarrow> model \<Rightarrow> stream_options \<Rightarrow> message list \<Rightarrow> compaction_settings \<Rightarrow> int
     \<Rightarrow> go_error + message list option" where
  "compact marshal provider m options ms settings now =
     (case plan_compaction marshal ms (cs_keep_recent_tokens (normalize settings)) of
        None \<Rightarrow> Inr None
      | Some (old, keep) \<Rightarrow>
          (case summarize provider m options old (previous_summary ms) settings now of
             Inl e \<Rightarrow> Inl e
           | Inr summary \<Rightarrow> Inr (Some (apply_compaction summary keep now))))"

section \<open>Choosing the cut\<close>

abbreviation total_tokens :: "(arguments \<Rightarrow> string option) \<Rightarrow> message list \<Rightarrow> int" where
  "total_tokens marshal ms \<equiv> sum_list (map (estimate_tokens marshal) ms)"

lemma cut_scan_spec:
  assumes "cut_scan marshal ms keep i acc = Some cp" and "i \<le> length ms"
    and "acc = total_tokens marshal (drop i ms)" and "i = length ms \<or> acc < keep"
  shows "cp < i \<and> keep \<le> total_tokens marshal (drop cp ms)
     \<and> (Suc cp = length ms \<or> total_tokens marshal (drop (Suc cp) ms) < keep)"
  using assms
proof (induction i arbitrary: acc)
  case 0
  then show ?case by simp
next
  case (Suc i)
  let ?acc = "acc + estimate_tokens marshal (ms ! i)"
  have acc: "?acc = total_tokens marshal (drop i ms)"
    using Suc.prems(2,3) by (simp add: Cons_nth_drop_Suc [symmetric])
  show ?case
  proof (cases "?acc < keep")
    case True
    with Suc.prems(1) have "cut_scan marshal ms keep i ?acc = Some cp" by simp
    from Suc.IH [OF this _ acc] True Suc.prems(2) show ?thesis by auto
  next
    case False
    with Suc.prems(1) have "cp = i" by simp
    with False acc Suc.prems(3,4) show ?thesis by auto
  qed
qed

lemma valid_cut_index_spec:
  "i \<le> length ms \<Longrightarrow> i \<le> valid_cut_index ms i \<and> valid_cut_index ms i \<le> length ms
     \<and> (\<forall>j. i \<le> j \<and> j < valid_cut_index ms i \<longrightarrow> is_tool_result (ms ! j))
     \<and> (valid_cut_index ms i < length ms \<longrightarrow> \<not> is_tool_result (ms ! valid_cut_index ms i))"
proof (induction ms i rule: valid_cut_index.induct)
  case (1 ms i)
  show ?case
  proof (cases "i < length ms \<and> is_tool_result (ms ! i)")
    case True
    with "1.IH" have ih: "Suc i \<le> valid_cut_index ms (Suc i)"
      "valid_cut_index ms (Suc i) \<le> length ms"
      "\<forall>j. Suc i \<le> j \<and> j < valid_cut_index ms (Suc i) \<longrightarrow> is_tool_result (ms ! j)"
      "valid_cut_index ms (Suc i) < length ms \<longrightarrow> \<not> is_tool_result (ms ! valid_cut_index ms (Suc i))"
      by auto
    have "valid_cut_index ms i = valid_cut_index ms (Suc i)"
      using True by (simp add: valid_cut_index.simps [of ms i])
    with ih True show ?thesis by (metis Suc_leD le_antisym not_less_eq_eq)
  next
    case False
    with "1.prems" show ?thesis by (auto simp: valid_cut_index.simps [of ms i])
  qed
qed

lemma not_tool_result_id: "\<not> is_tool_result m \<Longrightarrow> result_id m = None"
  by (cases m) auto

lemma user_part_chars_nonneg [simp]: "0 \<le> user_part_chars c"
  by (induction c rule: user_part_chars.induct) (auto simp: estimated_image_chars_def)

lemma assistant_part_chars_nonneg [simp]: "0 \<le> assistant_part_chars marshal c"
  by (induction marshal c rule: assistant_part_chars.induct)
    (auto simp: estimated_image_chars_def split: option.splits)

lemma user_content_chars_nonneg [simp]: "0 \<le> user_content_chars c"
  by (auto simp: user_content_chars_def intro!: sum_list_nonneg split: option.splits)

lemma assistant_content_chars_nonneg [simp]: "0 \<le> assistant_content_chars marshal cs"
  by (auto simp: assistant_content_chars_def intro!: sum_list_nonneg)

lemma estimate_tokens_nonneg [simp]: "0 \<le> estimate_tokens marshal m"
proof -
  have "0 \<le> message_chars marshal m"
    by (induction marshal m rule: message_chars.induct) simp_all
  then show ?thesis by (simp add: estimate_tokens_def)
qed

lemma total_tokens_nonneg: "0 \<le> total_tokens marshal ms"
  by (induction ms) simp_all

lemma total_tokens_drop_le: "total_tokens marshal (drop n ms) \<le> total_tokens marshal ms"
proof -
  have "total_tokens marshal ms
      = total_tokens marshal (take n ms) + total_tokens marshal (drop n ms)"
    by (metis append_take_drop_id map_append sum_list_append)
  then show ?thesis using total_tokens_nonneg [of marshal "take n ms"] by simp
qed

lemma plan_compaction_cut:
  assumes "plan_compaction marshal ms budget = Some (old, keep)"
  obtains c0 where "cut_scan marshal ms budget (length ms) 0 = Some c0"
    and "old = take (valid_cut_index ms c0) ms" and "keep = drop (valid_cut_index ms c0) ms"
    and "old \<noteq> []" and "old @ keep = ms" and "keep \<noteq> [] \<Longrightarrow> \<not> is_tool_result (hd keep)"
proof -
  from assms obtain c0 where scan: "cut_scan marshal ms budget (length ms) 0 = Some c0"
    by (auto simp: plan_compaction_def split: if_splits option.splits)
  have "c0 < length ms" using cut_scan_spec [OF scan] by auto
  with assms scan show thesis
    using valid_cut_index_spec [of c0 ms]
    by (intro that [of c0])
      (auto simp: plan_compaction_def Let_def hd_drop_conv_nth split: if_splits)
qed


definition said :: "string \<Rightarrow> message" where
  "said t = User (new_user_message t 0)"


section \<open>The rewritten history\<close>

lemma valid_apply_compaction:
  "valid_transcript keep \<Longrightarrow> valid_transcript (apply_compaction summary keep now)"
  by (simp add: apply_compaction_def)

text \<open>Claim C7. Compaction never separates a tool call from its result: of a transcript in which
  every call is answered, both the part handed to the summariser and the rewritten history are
  such transcripts again.\<close>

theorem compaction_keeps_pairing:
  assumes "valid_transcript ms"
    and "plan_compaction marshal ms budget = Some (old, keep)"
  shows "valid_transcript old \<and> valid_transcript (apply_compaction summary keep now)"
proof (cases keep)
  case Nil
  then have "old = ms" using plan_compaction_cut [OF assms(2)] by (metis append_Nil2)
  with Nil assms(1) show ?thesis by (simp add: valid_apply_compaction)
next
  case (Cons k ks)
  then have "\<not> is_tool_result k" and "old @ k # ks = ms"
    using plan_compaction_cut [OF assms(2)] by (metis list.distinct(1) list.sel(1))+
  with assms(1) Cons show ?thesis
    using paired_split [of "[]" old k ks] not_tool_result_id by (simp add: valid_apply_compaction)
qed

definition called :: "int \<Rightarrow> string \<Rightarrow> message" where
  "called tokens i = Assistant
     \<lparr>am_content = [Call (new_tool_call i ''ls'' [])], am_api = [], am_provider = [], am_model = [],
      am_response_model = [], am_response_id = [],
      am_usage = zero_usage\<lparr>us_total_tokens := tokens\<rparr>, am_stop_reason = StopToolUse,
      am_error_message = [], am_raw_stop_reason = [], am_end_turn = None, am_timestamp = 0\<rparr>"

definition answered :: "string \<Rightarrow> message" where
  "answered i = ToolRes
     \<lparr>tr_tool_call_id = i, tr_tool_name = ''ls'', tr_content = [new_text ''ok''], tr_details = None,
      tr_usage = None, tr_added_tool_names = [], tr_is_error = False, tr_timestamp = 0\<rparr>"

theorem compaction_keeps_pairing_witness:
  "valid_transcript (apply_compaction ''done'' [said ''go on''] 0)
   \<and> plan_compaction (\<lambda>_. None) [called 0 ''a'', answered ''a'', said ''go on''] 1
       = Some ([called 0 ''a'', answered ''a''], [said ''go on''])"
proof -
  have planned: "plan_compaction (\<lambda>_. None) [called 0 ''a'', answered ''a'', said ''go on''] 1
       = Some ([called 0 ''a'', answered ''a''], [said ''go on''])" by code_simp
  have "valid_transcript [called 0 ''a'', answered ''a'', said ''go on'']" by code_simp
  from compaction_keeps_pairing [OF this planned] planned show ?thesis by blast
qed

lemma newline_sep: "w \<in> set (map rev white_encodings) \<Longrightarrow> CHR 0x0A \<notin> set (tl w)"
  by (auto simp: white_encodings_def)

lemma trim_marker:
  "trim_space (summary_marker @ CHR 0x0A # CHR 0x0A # trim_space s)
     = (if trim_space s = [] then summary_marker
        else summary_marker @ newline @ newline @ trim_space s)"
proof (cases "trim_space s = []")
  case True
  then show ?thesis by simp code_simp
next
  case False
  have "strip_first white_encodings (summary_marker @ newline @ newline @ trim_space s) = None"
    by (simp add: summary_marker_def white_encodings_def)
  moreover have "strip_first (map rev white_encodings)
      (rev (trim_space s) @ CHR 0x0A # CHR 0x0A # rev summary_marker) = None"
    using False newline_sep trim_space_right_fixed by (intro strip_first_append_sep) simp_all
  ultimately show ?thesis using False by (simp add: trim_space_eqI)
qed

lemma trim_newlines: "trim_space (CHR 0x0A # CHR 0x0A # trim_space s) = trim_space s"
proof -
  have step: "trim_left (CHR 0x0A # u) = trim_left u" for u
    by (simp add: trim_left_def trim_with.simps [of _ "CHR 0x0A # u"] white_encodings_def)
  have "trim_space (CHR 0x0A # CHR 0x0A # trim_space s) = trim_space (trim_space s)"
    by (simp only: trim_space_def append_Cons append_Nil step)
  then show ?thesis by simp
qed

text \<open>Claim C8. The next compaction finds the summary the last one wrote: reading the previous
  summary from a rewritten history returns the checkpoint text, whatever follows it.\<close>

theorem summary_roundtrip:
  "previous_summary (apply_compaction summary keep now) = trim_space summary"
  by (simp add: apply_compaction_def new_synthetic_message_def new_user_message_def user_text_def
      text_user_content_def trim_marker trim_prefix_def trim_newlines
      Let_def)

section \<open>Estimating the context\<close>

definition reported :: "message \<Rightarrow> int option" where
  "reported m =
     (case as_assistant m of
        None \<Rightarrow> None
      | Some a \<Rightarrow>
          if failed_stop (am_stop_reason a) \<or> context_usage_tokens (am_usage a) \<le> 0 then None
          else Some (context_usage_tokens (am_usage a)))"

lemma last_usage_step:
  "last_usage_loop (m # ms) i tokens lst =
     (case reported m of
        None \<Rightarrow> last_usage_loop ms (i + 1) tokens lst
      | Some u \<Rightarrow> last_usage_loop ms (i + 1) u i)"
  by (auto simp: reported_def failed_stop_def split: option.splits)

lemma last_usage_append:
  "last_usage_loop (xs @ ys) i tokens lst =
     (case last_usage_loop xs i tokens lst of
        (t, l) \<Rightarrow> last_usage_loop ys (i + int (length xs)) t l)"
  by (induction xs arbitrary: i tokens lst)
    (auto simp del: last_usage_loop.simps(2) simp: last_usage_step algebra_simps split: option.splits)

lemma last_usage_none:
  "list_all (\<lambda>m. reported m = None) ms \<Longrightarrow> last_usage_loop ms i tokens lst = (tokens, lst)"
  by (induction ms arbitrary: i) (simp_all del: last_usage_loop.simps(2) add: last_usage_step)

text \<open>Claim C9. The size of a conversation is what its newest usable usage report says, plus the
  estimate of the messages after that report; with no usable report it is the estimate of
  all. A failed or aborted answer's report is never used.\<close>

theorem context_tokens_spec:
  "(list_all (\<lambda>m. reported m = None) ms \<longrightarrow> context_tokens marshal ms = total_tokens marshal ms)
   \<and> (\<forall>xs m ys u. ms = xs @ m # ys \<and> reported m = Some u \<and> list_all (\<lambda>m. reported m = None) ys
        \<longrightarrow> context_tokens marshal ms = u + total_tokens marshal ys)"
proof (intro conjI impI allI)
  assume "list_all (\<lambda>m. reported m = None) ms"
  then show "context_tokens marshal ms = total_tokens marshal ms"
    by (simp add: context_tokens_def last_usage_none)
next
  fix xs m ys u
  assume a: "ms = xs @ m # ys \<and> reported m = Some u \<and> list_all (\<lambda>m. reported m = None) ys"
  have "last_usage_loop ms 0 0 (-1) = (u, int (length xs))"
    using a by (simp del: last_usage_loop.simps(2)
      add: last_usage_append last_usage_step last_usage_none split: prod.splits)
  with a show "context_tokens marshal ms = u + total_tokens marshal ys"
    by (simp add: context_tokens_def nat_add_distrib)
qed

theorem context_tokens_spec_witness:
  "context_tokens (\<lambda>_. None) [called 10 ''a'', said ''abcd''] = 11"
proof -
  have "[called 10 ''a'', said ''abcd''] = [] @ called 10 ''a'' # [said ''abcd'']
      \<and> reported (called 10 ''a'') = Some 10 \<and> list_all (\<lambda>m. reported m = None) [said ''abcd'']"
    by code_simp
  then have "context_tokens (\<lambda>_. None) [called 10 ''a'', said ''abcd'']
      = 10 + total_tokens (\<lambda>_. None) [said ''abcd'']"
    using context_tokens_spec [of "[called 10 ''a'', said ''abcd'']" "\<lambda>_. None"] by blast
  also have "\<dots> = 11" by code_simp
  finally show ?thesis .
qed

end
