(* ===== verification/Agent_Types.thy ===== *)
theory Agent_Types
  imports Steering Transcript
begin

text \<open>
  The types of \<^verbatim>\<open>src/pkg/agent/types.go\<close>: tool results, the events of a run, and the
  configuration of a loop. What the loop cannot see into is a parameter over a world type
  \<open>'w\<close>: the provider, the tools, the cancellation of the context, the clock, the messages other
  goroutines steer in, and the scheduler. Every call returns the next world, so nothing is
  assumed about what the outside remembers.
\<close>

datatype tool_execution_mode = ToolExecutionParallel | ToolExecutionSequential | ToolExecutionUnset

datatype cache_warming_mode =
  CacheWarmingUnset | CacheWarmingOff | CacheWarmingStreaming | CacheWarmingIdle

record tool_result =
  rs_content :: "content list"
  rs_details :: "arguments option"
  rs_usage :: "usage option"
  rs_added_tool_names :: "string list"
  rs_terminate :: bool

datatype event_type =
    EventAgentStart | EventAgentEnd | EventTurnStart | EventTurnEnd | EventMessageStart
  | EventMessageUpdate | EventMessageEnd | EventNotice | EventCompaction
  | EventToolExecutionStart | EventToolExecutionUpdate | EventToolExecutionEnd

record event =
  ev_type :: event_type
  ev_err :: "go_error option"
  ev_notice :: string
  ev_tokens_before :: int
  ev_tokens_after :: int
  ev_messages :: "message list"
  ev_message :: "message option"
  ev_tool_results :: "tool_result_message list"
  ev_assistant_event :: "assistant_event option"
  ev_tool_call_id :: string
  ev_tool_name :: string
  ev_arguments :: arguments
  ev_partial_result :: "tool_result option"
  ev_result :: "tool_result option"
  ev_is_error :: bool

definition event_of :: "event_type \<Rightarrow> event" where
  "event_of t =
     \<lparr>ev_type = t, ev_err = None, ev_notice = [], ev_tokens_before = 0, ev_tokens_after = 0,
      ev_messages = [], ev_message = None, ev_tool_results = [], ev_assistant_event = None,
      ev_tool_call_id = [], ev_tool_name = [], ev_arguments = [], ev_partial_result = None,
      ev_result = None, ev_is_error = False\<rparr>"

lemma event_of_simps [simp]:
  "ev_type (event_of t) = t" "ev_message (event_of t) = None" "ev_messages (event_of t) = []"
  "ev_err (event_of t) = None"
  by (simp_all add: event_of_def)

text \<open>The completion function of \<^verbatim>\<open>newStream\<close>: \<open>Some\<close> the result for a terminal event.\<close>

definition agent_complete :: "event \<Rightarrow> message list option" where
  "agent_complete e = (if ev_type e = EventAgentEnd then Some (ev_messages e) else None)"

text \<open>
  One execution of a tool: the updates it reported before \<^verbatim>\<open>Execute\<close> returned, those a
  goroutine of it reports afterwards, and what it returned. A tool is its definition, whether
  it implements \<^verbatim>\<open>SequentialTool\<close> and answers true, and its \<^verbatim>\<open>Execute\<close>.
\<close>

record tool_run =
  tn_updates :: "tool_result list"
  tn_late :: "tool_result list"
  tn_outcome :: "go_error + tool_result"

record 'w tool =
  to_definition :: tool_definition
  to_sequential :: bool
  to_execute :: "tool_call \<Rightarrow> 'w \<Rightarrow> tool_run \<times> 'w"

text \<open>
  An answer of the provider: the outcomes of the successive calls of \<^verbatim>\<open>Next\<close> (after the last
  one, \<^verbatim>\<open>Next\<close> reports the end of the stream) and what \<^verbatim>\<open>Result\<close> returns.
\<close>

datatype next_outcome = NextErr go_error | NextEvent assistant_event

record response =
  rp_next :: "next_outcome list"
  rp_result :: "go_error + assistant_message"

record 'w config =
  cf_provider :: "(model \<Rightarrow> ai_context \<Rightarrow> stream_options \<Rightarrow> 'w \<Rightarrow> (go_error + response) \<times> 'w) option"
  cf_model :: model
  cf_stream_options :: stream_options
  cf_tool_execution :: tool_execution_mode
  cf_cache_warming :: cache_warming_mode
  cf_cache_warmer :: bool

text \<open>
  What else a run reads: \<^verbatim>\<open>ctx.Err()\<close>, the clock in milliseconds, the messages pushed to the
  steering queue since it was last looked at, and the order in which the goroutines of a
  parallel batch run.
\<close>

record 'w outside =
  ox_err :: "'w \<Rightarrow> go_error option"
  ox_now :: "'w \<Rightarrow> int \<times> 'w"
  ox_arrivals :: "'w \<Rightarrow> message list \<times> 'w"
  ox_schedule :: "'w \<Rightarrow> nat list \<times> 'w"

end
