(* ===== verification/Agent_Loop.thy ===== *)
theory Agent_Loop
  imports Agent_Types
begin

text \<open>
  The model/tool loop of \<^verbatim>\<open>src/pkg/agent/loop.go\<close>. The state is the local variables of \<^verbatim>\<open>run\<close>
  with everything pushed to its event stream, the calls made to the cache warmer, and the
  world. \<open>ls_accepted\<close> is a ghost: the steered messages whose \<^verbatim>\<open>Push\<close> returned true. A turn is
  one iteration of the loop of \<^verbatim>\<open>run\<close>; since a model may call tools forever, \<open>run_turns\<close>
  carries fuel, one unit a turn.
\<close>

section \<open>State\<close>

record cache_warm_request =
  wq_model :: model
  wq_input :: ai_context
  wq_options :: stream_options
  wq_prompt_tokens :: int

datatype warm_call =
  WarmStop | WarmStart cache_warm_request cache_warming_mode | WarmSettle cache_warming_mode | WarmClose

record 'w loop_state =
  ls_current :: "message list"
  ls_new :: "message list"
  ls_err :: "go_error option"
  ls_events :: "event list"
  ls_queue :: "steering_queue option"
  ls_accepted :: "message list"
  ls_warm :: "warm_call list"
  ls_world :: 'w

definition push :: "event \<Rightarrow> 'w loop_state \<Rightarrow> 'w loop_state" where
  "push e st = st\<lparr>ls_events := ls_events st @ [e]\<rparr>"

definition add_message :: "message \<Rightarrow> 'w loop_state \<Rightarrow> 'w loop_state" where
  "add_message m st = st\<lparr>ls_current := ls_current st @ [m], ls_new := ls_new st @ [m]\<rparr>"

definition message_event :: "event_type \<Rightarrow> message \<Rightarrow> event" where
  "message_event t m = (event_of t)\<lparr>ev_message := Some m\<rparr>"

definition push_message :: "message \<Rightarrow> 'w loop_state \<Rightarrow> 'w loop_state" where
  "push_message m st =
     push (message_event EventMessageEnd m) (push (message_event EventMessageStart m) st)"

definition warm :: "bool \<Rightarrow> warm_call \<Rightarrow> 'w loop_state \<Rightarrow> 'w loop_state" where
  "warm has_warmer c st = (if has_warmer then st\<lparr>ls_warm := ls_warm st @ [c]\<rparr> else st)"

definition world_step :: "('w \<Rightarrow> 'a \<times> 'w) \<Rightarrow> 'w loop_state \<Rightarrow> 'a \<times> 'w loop_state" where
  "world_step f st = (case f (ls_world st) of (x, w) \<Rightarrow> (x, st\<lparr>ls_world := w\<rparr>))"

definition has_warmer :: "'w config \<Rightarrow> bool" where
  "has_warmer cf \<longleftrightarrow> cf_cache_warmer cf \<or> cf_cache_warming cf \<noteq> CacheWarmingOff"

section \<open>Asking the model\<close>

definition error_message :: "model \<Rightarrow> go_error \<Rightarrow> int \<Rightarrow> assistant_message" where
  "error_message m err now =
     \<lparr>am_content = [], am_api = mo_api m, am_provider = mo_provider m, am_model = mo_id m,
      am_response_model = [], am_response_id = [], am_usage = zero_usage,
      am_stop_reason = (if is_canceled err then StopAborted else StopError),
      am_error_message = err_text err, am_raw_stop_reason = [], am_end_turn = None,
      am_timestamp = now\<rparr>"

definition assistant_failure :: "assistant_message \<Rightarrow> go_error option \<Rightarrow> go_error option" where
  "assistant_failure m err =
     (case err of
        Some e \<Rightarrow> Some e
      | None \<Rightarrow>
          if am_stop_reason m = StopError \<and> trim_space (am_error_message m) \<noteq> []
          then Some (ErrText (am_error_message m))
          else if am_stop_reason m = StopAborted then Some Canceled
          else None)"

definition start_cache_warming ::
  "'w config \<Rightarrow> ai_context \<Rightarrow> assistant_message \<Rightarrow> 'w loop_state \<Rightarrow> 'w loop_state" where
  "start_cache_warming cf input m st =
     (if am_stop_reason m = StopError \<or> am_stop_reason m = StopAborted then st
      else warm (has_warmer cf)
        (WarmStart \<lparr>wq_model = cf_model cf, wq_input = input, wq_options = cf_stream_options cf,
                    wq_prompt_tokens = us_input (am_usage m) + us_cache_read (am_usage m)
                      + us_cache_write (am_usage m)\<rparr> (cf_cache_warming cf)) st)"

text \<open>An error the loop turns into an assistant message: the three early returns of
  \<^verbatim>\<open>streamAssistant\<close>. \<open>started\<close>: the start of the message was already announced.\<close>

definition fail_assistant ::
  "'w outside \<Rightarrow> 'w config \<Rightarrow> bool \<Rightarrow> go_error \<Rightarrow> 'w loop_state
     \<Rightarrow> (assistant_message \<times> go_error option) \<times> 'w loop_state" where
  "fail_assistant ox cf started err st =
     (let (now, st1) = world_step (ox_now ox) st;
          m = error_message (cf_model cf) err now;
          st2 = (if started then st1 else push (message_event EventMessageStart (Assistant m)) st1)
      in ((m, Some err), push (message_event EventMessageEnd (Assistant m)) st2))"

text \<open>The end of a stream, by a terminal event or because it is exhausted: read the result.\<close>

definition finish_assistant ::
  "'w outside \<Rightarrow> 'w config \<Rightarrow> ai_context \<Rightarrow> go_error + assistant_message \<Rightarrow> bool \<Rightarrow> 'w loop_state
     \<Rightarrow> (assistant_message \<times> go_error option) \<times> 'w loop_state" where
  "finish_assistant ox cf input result started st =
     (let ((m, err), st1) = (case result of
            Inr m \<Rightarrow> ((m, None), st)
          | Inl e \<Rightarrow> (case world_step (ox_now ox) st of
              (now, st') \<Rightarrow> ((error_message (cf_model cf) e now, Some e), st')));
          st2 = (if started then st1 else push (message_event EventMessageStart (Assistant m)) st1);
          st3 = push (message_event EventMessageEnd (Assistant m)) st2
      in ((m, assistant_failure m err), start_cache_warming cf input m st3))"

fun consume_response ::
  "'w outside \<Rightarrow> 'w config \<Rightarrow> ai_context \<Rightarrow> go_error + assistant_message \<Rightarrow> next_outcome list \<Rightarrow> bool
     \<Rightarrow> 'w loop_state \<Rightarrow> (assistant_message \<times> go_error option) \<times> 'w loop_state" where
  "consume_response ox cf input result [] started st = finish_assistant ox cf input result started st"
| "consume_response ox cf input result (NextErr e # ns) started st = fail_assistant ox cf started e st"
| "consume_response ox cf input result (NextEvent ae # ns) started st =
     (case ae_type ae of
        EvStart \<Rightarrow>
          (case ae_partial ae of
             Some p \<Rightarrow> consume_response ox cf input result ns True
                         (push (message_event EventMessageStart (AssistantPtr (Some p))) st)
           | None \<Rightarrow> consume_response ox cf input result ns started st)
      | EvDone \<Rightarrow> finish_assistant ox cf input result started st
      | EvError \<Rightarrow> finish_assistant ox cf input result started st
      | _ \<Rightarrow>
          (case ae_partial ae of
             Some p \<Rightarrow> consume_response ox cf input result ns started
                         (push ((message_event EventMessageUpdate (AssistantPtr (Some p)))
                                  \<lparr>ev_assistant_event := Some ae\<rparr>) st)
           | None \<Rightarrow> consume_response ox cf input result ns started st))"

definition stream_assistant ::
  "'w outside \<Rightarrow> 'w config \<Rightarrow> 'w tool list \<Rightarrow> string \<Rightarrow> 'w loop_state
     \<Rightarrow> (assistant_message \<times> go_error option) \<times> 'w loop_state" where
  "stream_assistant ox cf tools system st =
     (case cf_provider cf of
        None \<Rightarrow> fail_assistant ox cf False (ErrText ''agent: provider is nil'') st
      | Some ask \<Rightarrow>
          let input = \<lparr>cx_system_prompt = system, cx_messages = ls_current st,
                       cx_tools = map to_definition tools\<rparr>;
              st1 = warm (has_warmer cf) WarmStop st;
              (answer, st2) = world_step (ask (cf_model cf) input (cf_stream_options cf)) st1
          in case answer of
               Inl err \<Rightarrow> fail_assistant ox cf False err st2
             | Inr response \<Rightarrow>
                 consume_response ox cf input (rp_result response) (rp_next response) False st2)"

section \<open>Executing the tool calls\<close>

record executed_call =
  xc_call :: tool_call
  xc_result :: tool_result
  xc_is_error :: bool

definition failed_call :: "tool_call \<Rightarrow> go_error \<Rightarrow> executed_call" where
  "failed_call c err =
     \<lparr>xc_call = c,
      xc_result = \<lparr>rs_content = [new_text (err_text err)], rs_details = Some [], rs_usage = None,
                   rs_added_tool_names = [], rs_terminate = False\<rparr>,
      xc_is_error = True\<rparr>"

definition tool_start_event :: "tool_call \<Rightarrow> event" where
  "tool_start_event c =
     (event_of EventToolExecutionStart)
       \<lparr>ev_tool_call_id := tc_id c, ev_tool_name := tc_name c, ev_arguments := tc_arguments c\<rparr>"

definition tool_update_event :: "tool_call \<Rightarrow> tool_result \<Rightarrow> event" where
  "tool_update_event c r =
     (event_of EventToolExecutionUpdate)
       \<lparr>ev_tool_call_id := tc_id c, ev_tool_name := tc_name c, ev_arguments := tc_arguments c,
        ev_partial_result := Some r\<rparr>"

definition tool_end_event :: "executed_call \<Rightarrow> event" where
  "tool_end_event x =
     (event_of EventToolExecutionEnd)
       \<lparr>ev_tool_call_id := tc_id (xc_call x), ev_tool_name := tc_name (xc_call x),
        ev_result := Some (xc_result x), ev_is_error := xc_is_error x\<rparr>"

text \<open>The update callback; \<open>accepting\<close> is the flag it shares with the executor.\<close>

definition report :: "bool \<Rightarrow> tool_call \<Rightarrow> tool_result list \<Rightarrow> event list" where
  "report accepting c updates = (if accepting then map (tool_update_event c) updates else [])"

text \<open>\<^verbatim>\<open>executeToolAfterStart\<close>: the result and the events it pushes, in order.\<close>

definition execute_tool_after_start ::
  "'w tool list \<Rightarrow> tool_call \<Rightarrow> 'w loop_state \<Rightarrow> (executed_call \<times> event list) \<times> 'w loop_state" where
  "execute_tool_after_start tools c st =
     (case find (\<lambda>t. td_name (to_definition t) = tc_name c) tools of
        None \<Rightarrow>
          let x = failed_call c (ErrText (''tool '' @ tc_name c @ '' not found''))
          in ((x, [tool_end_event x]), st)
      | Some t \<Rightarrow>
          let (r, st1) = world_step (to_execute t c) st;
              x = (case tn_outcome r of
                     Inl err \<Rightarrow> failed_call c err
                   | Inr res \<Rightarrow> \<lparr>xc_call = c, xc_result = res, xc_is_error = False\<rparr>)
          in ((x, report True c (tn_updates r) @ [tool_end_event x] @ report False c (tn_late r)), st1))"

definition push_all :: "event list \<Rightarrow> 'w loop_state \<Rightarrow> 'w loop_state" where
  "push_all es st = st\<lparr>ls_events := ls_events st @ es\<rparr>"

definition execute_tool ::
  "'w tool list \<Rightarrow> tool_call \<Rightarrow> 'w loop_state \<Rightarrow> executed_call \<times> 'w loop_state" where
  "execute_tool tools c st =
     (let ((x, es), st1) = execute_tool_after_start tools c (push (tool_start_event c) st)
      in (x, push_all es st1))"

text \<open>The batch of a response cut off by the output limit: nothing is executed.\<close>

fun length_batch :: "tool_call list \<Rightarrow> 'w loop_state \<Rightarrow> executed_call list \<times> 'w loop_state" where
  "length_batch [] st = ([], st)"
| "length_batch (c # cs) st =
     (let x = failed_call c (ErrText (''tool call '' @ quote (tc_name c) @ '' was not executed: the response hit the output token limit, so its arguments may be truncated''));
          (xs, st1) = length_batch cs (push (tool_end_event x) (push (tool_start_event c) st))
      in (x # xs, st1))"

fun sequential_batch ::
  "'w outside \<Rightarrow> 'w tool list \<Rightarrow> tool_call list \<Rightarrow> 'w loop_state \<Rightarrow> executed_call list \<times> 'w loop_state" where
  "sequential_batch ox tools [] st = ([], st)"
| "sequential_batch ox tools (c # cs) st =
     (let (x, st1) = (case ox_err ox (ls_world st) of
            Some err \<Rightarrow>
              let x = failed_call c err
              in (x, push (tool_end_event x) (push (tool_start_event c) st))
          | None \<Rightarrow> execute_tool tools c st);
          (xs, st2) = sequential_batch ox tools cs st1
      in (x # xs, st2))"

text \<open>
  The parallel batch: one goroutine a call, the main goroutine starting them in order. A
  schedule is a list of turns, 0 the main goroutine and \<open>Suc i\<close> the \<open>i\<close>-th one started; a turn
  of a goroutine that cannot move is lost, and when the schedule ends each runs to its end, so
  every interleaving of the pushed events is the result of some schedule. What the tools
  return to each other's effects is the world's business: \<open>to_execute\<close> may answer anything.
\<close>

fun interleave :: "nat list \<Rightarrow> ('e \<times> 'e list) list \<Rightarrow> 'e list list \<Rightarrow> 'e list" where
  "interleave [] pending running = map fst pending @ concat running @ concat (map snd pending)"
| "interleave (0 # ns) [] running = interleave ns [] running"
| "interleave (0 # ns) ((s, t) # pending) running = s # interleave ns pending (running @ [t])"
| "interleave (Suc i # ns) pending running =
     (if i < length running then
        (case running ! i of
           [] \<Rightarrow> interleave ns pending running
         | e # es \<Rightarrow> e # interleave ns pending (running[i := es]))
      else interleave ns pending running)"

fun run_goroutines ::
  "'w tool list \<Rightarrow> tool_call list \<Rightarrow> 'w loop_state \<Rightarrow> (executed_call \<times> event list) list \<times> 'w loop_state" where
  "run_goroutines tools [] st = ([], st)"
| "run_goroutines tools (c # cs) st =
     (let (x, st1) = execute_tool_after_start tools c st;
          (xs, st2) = run_goroutines tools cs st1
      in (x # xs, st2))"

definition parallel_batch ::
  "'w outside \<Rightarrow> 'w tool list \<Rightarrow> tool_call list \<Rightarrow> 'w loop_state \<Rightarrow> executed_call list \<times> 'w loop_state" where
  "parallel_batch ox tools calls st =
     (let (runs, st1) = run_goroutines tools calls st;
          (schedule, st2) = world_step (ox_schedule ox) st1
      in (map fst runs,
          push_all (interleave schedule (zip (map tool_start_event calls) (map snd runs)) []) st2))"

definition contains_sequential_tool :: "'w tool list \<Rightarrow> tool_call list \<Rightarrow> bool" where
  "contains_sequential_tool tools calls \<longleftrightarrow>
     list_ex (\<lambda>c. list_ex (\<lambda>t. td_name (to_definition t) = tc_name c \<and> to_sequential t) tools) calls"

definition execute_tool_batch ::
  "'w outside \<Rightarrow> 'w tool list \<Rightarrow> tool_call list \<Rightarrow> stop_reason \<Rightarrow> tool_execution_mode \<Rightarrow> 'w loop_state
     \<Rightarrow> executed_call list \<times> 'w loop_state" where
  "execute_tool_batch ox tools calls reason mode st =
     (if calls = [] then ([], st)
      else if reason = StopLength then length_batch calls st
      else if mode = ToolExecutionSequential \<or> contains_sequential_tool tools calls
      then sequential_batch ox tools calls st
      else parallel_batch ox tools calls st)"

definition tool_result_msg :: "executed_call \<Rightarrow> int \<Rightarrow> tool_result_message" where
  "tool_result_msg x now =
     \<lparr>tr_tool_call_id = tc_id (xc_call x), tr_tool_name = tc_name (xc_call x),
      tr_content = rs_content (xc_result x), tr_details = rs_details (xc_result x),
      tr_usage = rs_usage (xc_result x), tr_added_tool_names = rs_added_tool_names (xc_result x),
      tr_is_error = xc_is_error x, tr_timestamp = now\<rparr>"

section \<open>The loop\<close>

fun append_results ::
  "'w outside \<Rightarrow> executed_call list \<Rightarrow> 'w loop_state \<Rightarrow> tool_result_message list \<times> 'w loop_state" where
  "append_results ox [] st = ([], st)"
| "append_results ox (x # xs) st =
     (let (now, st1) = world_step (ox_now ox) st;
          r = tool_result_msg x now;
          (rs, st2) = append_results ox xs (push_message (ToolRes r) (add_message (ToolRes r) st1))
      in (r # rs, st2))"

fun append_steers :: "message list \<Rightarrow> 'w loop_state \<Rightarrow> 'w loop_state" where
  "append_steers [] st = st"
| "append_steers (m # ms) st = append_steers ms (push_message m (add_message m st))"

text \<open>What other goroutines push to the steering queue before the loop looks at it.\<close>

fun receive_all :: "message list \<Rightarrow> steering_queue \<Rightarrow> message list \<times> steering_queue" where
  "receive_all [] q = ([], q)"
| "receive_all (m # ms) q =
     (let (ok, q1) = steer_push m q; (acc, q2) = receive_all ms q1
      in (if ok then m # acc else acc, q2))"

definition receive :: "'w outside \<Rightarrow> steering_queue \<Rightarrow> 'w loop_state \<Rightarrow> steering_queue \<times> 'w loop_state" where
  "receive ox q st =
     (let (ms, st1) = world_step (ox_arrivals ox) st; (acc, q1) = receive_all ms q
      in (q1, st1\<lparr>ls_queue := Some q1, ls_accepted := ls_accepted st1 @ acc\<rparr>))"

text \<open>The end of a turn that did not fail, from the test of \<^verbatim>\<open>terminal\<close> on; the boolean of the
  result says whether the loop is left.\<close>

definition leave_turn :: "'w outside \<Rightarrow> bool \<Rightarrow> 'w loop_state \<Rightarrow> bool \<times> 'w loop_state" where
  "leave_turn ox would_finish st =
     (if ox_err ox (ls_world st) \<noteq> None
      then (case ls_queue st of
              None \<Rightarrow> (True, st)
            | Some q \<Rightarrow>
                let (q1, st1) = receive ox q st; (ms, q2) = close q1
                in (True, append_steers ms (st1\<lparr>ls_queue := Some q2\<rparr>)))
      else case ls_queue st of
          None \<Rightarrow>
            if would_finish then (True, st)
            else (False, push (event_of EventTurnStart) st)
        | Some q \<Rightarrow>
            let (q1, st1) = receive ox q st
            in if would_finish
               then (case drain_or_close q1 of ((ms, shut), q2) \<Rightarrow>
                       if shut then (True, st1\<lparr>ls_queue := Some q2\<rparr>)
                       else (False, push (event_of EventTurnStart)
                                      (append_steers ms (st1\<lparr>ls_queue := Some q2\<rparr>))))
               else (case drain q1 of (ms, q2) \<Rightarrow>
                       (False, push (event_of EventTurnStart)
                          (append_steers ms (st1\<lparr>ls_queue := Some q2\<rparr>)))))"

definition turn ::
  "'w outside \<Rightarrow> 'w config \<Rightarrow> 'w tool list \<Rightarrow> string \<Rightarrow> 'w loop_state \<Rightarrow> bool \<times> 'w loop_state" where
  "turn ox cf tools system st =
     (let ((m, err), st1) = stream_assistant ox cf tools system st;
          st2 = add_message (Assistant m) (st1\<lparr>ls_err := err\<rparr>)
      in if am_stop_reason m = StopError \<or> am_stop_reason m = StopAborted
         then (True, push ((message_event EventTurnEnd (Assistant m))\<lparr>ev_err := err\<rparr>) st2)
         else
           let calls = tool_calls m;
               (results, st3) = execute_tool_batch ox tools calls (am_stop_reason m) (cf_tool_execution cf) st2;
               terminate = (results \<noteq> [] \<and> list_all (\<lambda>x. rs_terminate (xc_result x)) results);
               (tool_messages, st4) = append_results ox results st3;
               st5 = push ((message_event EventTurnEnd (Assistant m))\<lparr>ev_tool_results := tool_messages\<rparr>) st4
           in leave_turn ox (calls = [] \<or> terminate) st5)"

fun run_turns ::
  "nat \<Rightarrow> 'w outside \<Rightarrow> 'w config \<Rightarrow> 'w tool list \<Rightarrow> string \<Rightarrow> 'w loop_state \<Rightarrow> 'w loop_state option" where
  "run_turns 0 ox cf tools system st = None"
| "run_turns (Suc n) ox cf tools system st =
     (case turn ox cf tools system st of
        (True, st') \<Rightarrow> Some st'
      | (False, st') \<Rightarrow> run_turns n ox cf tools system st')"

fun push_prompts :: "message list \<Rightarrow> 'w loop_state \<Rightarrow> 'w loop_state" where
  "push_prompts [] st = st"
| "push_prompts (m # ms) st = push_prompts ms (push_message m st)"

definition start_run ::
  "message list \<Rightarrow> message list \<Rightarrow> steering_queue option \<Rightarrow> 'w \<Rightarrow> 'w loop_state" where
  "start_run prompts initial queue w =
     push_prompts prompts
       \<lparr>ls_current = initial @ prompts, ls_new = prompts, ls_err = None,
        ls_events = [event_of EventAgentStart, event_of EventTurnStart], ls_queue = queue,
        ls_accepted = [], ls_warm = [], ls_world = w\<rparr>"

definition end_run :: "'w config \<Rightarrow> 'w loop_state \<Rightarrow> 'w loop_state" where
  "end_run cf st =
     warm (has_warmer cf)
       (if cf_cache_warmer cf then WarmSettle (cf_cache_warming cf) else WarmClose)
       (push ((event_of EventAgentEnd)\<lparr>ev_messages := ls_new st, ev_err := ls_err st\<rparr>) st)"

definition run ::
  "nat \<Rightarrow> 'w outside \<Rightarrow> 'w config \<Rightarrow> 'w tool list \<Rightarrow> string \<Rightarrow> message list \<Rightarrow> message list
     \<Rightarrow> steering_queue option \<Rightarrow> 'w \<Rightarrow> 'w loop_state option" where
  "run fuel ox cf tools system prompts initial queue w =
     map_option (end_run cf)
       (run_turns fuel ox cf tools system (start_run prompts initial queue w))"

end
