(* ===== verification/Loop_Facts.thy ===== *)
theory Loop_Facts
  imports Agent_Loop
begin

text \<open>
  What the operations of the loop do to its state: the messages they append to the transcript,
  the messages whose end they announce, and that they leave the steering queue alone. The
  properties of the loop rest on \<open>turn_effect\<close>, which says all this of a whole turn.
\<close>

section \<open>Announced messages\<close>

fun ended :: "event list \<Rightarrow> message list" where
  "ended [] = []"
| "ended (e # es) =
     (if ev_type e = EventMessageEnd then the (ev_message e) # ended es else ended es)"

definition quiet :: "event list \<Rightarrow> bool" where
  "quiet es \<longleftrightarrow> (\<forall>e \<in> set es. ev_type e \<noteq> EventAgentStart \<and> ev_type e \<noteq> EventAgentEnd)"

lemma ended_append [simp]: "ended (xs @ ys) = ended xs @ ended ys"
  by (induction xs) auto

lemma quiet_append [simp]: "quiet (xs @ ys) \<longleftrightarrow> quiet xs \<and> quiet ys"
  by (auto simp: quiet_def)

lemma quiet_simps [simp]:
  "quiet []"
  "quiet (e # es) \<longleftrightarrow> ev_type e \<noteq> EventAgentStart \<and> ev_type e \<noteq> EventAgentEnd \<and> quiet es"
  by (auto simp: quiet_def)

lemma ended_none: "(\<And>e. e \<in> set es \<Longrightarrow> ev_type e \<noteq> EventMessageEnd) \<Longrightarrow> ended es = []"
  by (induction es) auto

lemma message_event_simps [simp]:
  "ev_type (message_event t m) = t" "ev_message (message_event t m) = Some m"
  by (simp_all add: message_event_def)

lemma tool_event_types [simp]:
  "ev_type (tool_start_event c) = EventToolExecutionStart"
  "ev_type (tool_update_event c r) = EventToolExecutionUpdate"
  "ev_type (tool_end_event x) = EventToolExecutionEnd"
  by (simp_all add: tool_start_event_def tool_update_event_def tool_end_event_def)

text \<open>\<open>grows ms ds\<close>: the step appended \<open>ms\<close> to the transcript, announced the end of \<open>ds\<close>, and
  left the steering queue alone.\<close>

definition grows :: "message list \<Rightarrow> message list \<Rightarrow> 'w loop_state \<Rightarrow> 'w loop_state \<Rightarrow> bool" where
  "grows ms ds st st' \<longleftrightarrow>
     ls_current st' = ls_current st @ ms \<and> ls_new st' = ls_new st @ ms
     \<and> (\<exists>es. ls_events st' = ls_events st @ es \<and> ended es = ds \<and> quiet es)
     \<and> ls_queue st' = ls_queue st \<and> ls_accepted st' = ls_accepted st"

lemma grows_trans: "grows as ds st st1 \<Longrightarrow> grows bs es st1 st2 \<Longrightarrow> grows (as @ bs) (ds @ es) st st2"
  unfolding grows_def by fastforce

lemma grows_trans0: "grows [] ds st st1 \<Longrightarrow> grows bs es st1 st2 \<Longrightarrow> grows bs (ds @ es) st st2"
  using grows_trans [of "[]" ds st st1 bs es st2] by simp

lemma grows_quiet: "grows [] [] st st1 \<Longrightarrow> grows bs es st1 st2 \<Longrightarrow> grows bs es st st2"
  using grows_trans0 [of "[]" st st1 bs es st2] by simp

lemma grows_refl [simp]: "grows [] [] st st"
  by (simp add: grows_def)

lemma grows_world [simp]: "grows [] [] st (st\<lparr>ls_world := w\<rparr>)" "grows [] [] st (st\<lparr>ls_err := e\<rparr>)"
  by (simp_all add: grows_def)

lemma grows_world_step: "world_step f st = (x, st') \<Longrightarrow> grows [] [] st st'"
  by (auto simp: world_step_def split: prod.splits)

lemma grows_push:
  "ev_type e \<noteq> EventAgentStart \<Longrightarrow> ev_type e \<noteq> EventAgentEnd \<Longrightarrow> grows [] (ended [e]) st (push e st)"
  by (auto simp: grows_def push_def)

lemma grows_push_other:
  "ev_type e \<noteq> EventAgentStart \<Longrightarrow> ev_type e \<noteq> EventAgentEnd \<Longrightarrow> ev_type e \<noteq> EventMessageEnd \<Longrightarrow>
     grows [] [] st (push e st)"
  using grows_push [of e st] by simp

lemma grows_push_end: "grows [] [m] st (push (message_event EventMessageEnd m) st)"
  using grows_push [of "message_event EventMessageEnd m" st] by simp

lemma grows_push_all: "quiet es \<Longrightarrow> grows [] (ended es) st (push_all es st)"
  by (simp add: grows_def push_all_def)

lemma grows_add: "grows [m] [] st (add_message m st)"
  by (simp add: grows_def add_message_def)

lemma grows_push_message: "grows [] [m] st (push_message m st)"
  by (auto simp: grows_def push_message_def push_def)

lemma grows_warm [simp]: "grows [] [] st (warm b c st)"
  by (simp add: grows_def warm_def)

lemma grows_cache: "grows [] [] st (start_cache_warming cf input m st)"
  by (simp add: start_cache_warming_def)

section \<open>The model's answer\<close>

lemma fail_assistant_grows:
  assumes "fail_assistant ox cf started err st = ((m, e), st')"
  shows "grows [] [Assistant m] st st'"
proof -
  obtain now st1 where w: "world_step (ox_now ox) st = (now, st1)" by fastforce
  let ?st2 = "if started then st1 else push (message_event EventMessageStart (Assistant m)) st1"
  have "grows [] [] st st1" using w by (rule grows_world_step)
  moreover have "grows [] [] st1 ?st2" by (simp add: grows_push_other)
  moreover have "st' = push (message_event EventMessageEnd (Assistant m)) ?st2"
    using assms w by (auto simp: fail_assistant_def Let_def)
  ultimately show ?thesis using grows_push_end grows_quiet by metis
qed

lemma finish_assistant_grows:
  assumes "finish_assistant ox cf input result started st = ((m, e), st')"
  shows "grows [] [Assistant m] st st'"
proof -
  obtain m' err st1 where r: "(case result of Inr m \<Rightarrow> ((m, None), st)
      | Inl e \<Rightarrow> (case world_step (ox_now ox) st of
          (now, st') \<Rightarrow> ((error_message (cf_model cf) e now, Some e), st'))) = ((m', err), st1)"
    by (metis (no_types, lifting) prod.exhaust)
  then have "grows [] [] st st1"
    by (auto split: sum.splits prod.splits dest: grows_world_step)
  let ?st2 = "if started then st1 else push (message_event EventMessageStart (Assistant m)) st1"
  let ?st3 = "push (message_event EventMessageEnd (Assistant m)) ?st2"
  have "m' = m" and "st' = start_cache_warming cf input m ?st3"
    using assms r by (auto simp: finish_assistant_def Let_def)
  moreover have "grows [] [] st1 ?st2" by (simp add: grows_push_other)
  ultimately show ?thesis
    using \<open>grows [] [] st st1\<close> grows_quiet grows_push_end grows_cache
    by (metis append_Nil2 grows_trans0)
qed

lemma consume_response_grows:
  "consume_response ox cf input result ns started st = ((m, e), st') \<Longrightarrow> grows [] [Assistant m] st st'"
proof (induction ox cf input result ns started st arbitrary: m e st' rule: consume_response.induct)
  case (1 ox cf input result started st)
  then show ?case using finish_assistant_grows by fastforce
next
  case (2 ox cf input result err ns started st)
  then show ?case using fail_assistant_grows by fastforce
next
  case (3 ox cf input result ae ns started st)
  have pushed: "grows [] [Assistant m] (push x st) st' \<Longrightarrow> grows [] [Assistant m] st st'"
    if "ev_type x = EventMessageStart \<or> ev_type x = EventMessageUpdate" for x
  proof -
    have "grows [] [] st (push x st)" using that by (intro grows_push_other) auto
    then show "grows [] [Assistant m] (push x st) st' \<Longrightarrow> grows [] [Assistant m] st st'"
      by (rule grows_quiet)
  qed
  show ?case
  proof (cases "ae_partial ae")
    case None
    with 3 show ?thesis by (cases "ae_type ae") (auto intro: finish_assistant_grows)
  next
    case (Some p)
    let ?s = "push (message_event EventMessageStart (AssistantPtr (Some p))) st"
    let ?u = "push ((message_event EventMessageUpdate (AssistantPtr (Some p)))
      \<lparr>ev_assistant_event := Some ae\<rparr>) st"
    have "grows [] [Assistant m] ?s st' \<Longrightarrow> ?thesis" "grows [] [Assistant m] ?u st' \<Longrightarrow> ?thesis"
      by (rule pushed; simp)+
    with 3 Some show ?thesis by (cases "ae_type ae") (auto intro: finish_assistant_grows)
  qed
qed

lemma stream_assistant_grows:
  assumes "stream_assistant ox cf tools system st = ((m, e), st')"
  shows "grows [] [Assistant m] st st'"
proof (cases "cf_provider cf")
  case None
  with assms show ?thesis by (auto simp: stream_assistant_def intro: fail_assistant_grows)
next
  case (Some ask)
  let ?input = "\<lparr>cx_system_prompt = system, cx_messages = ls_current st, cx_tools = map to_definition tools\<rparr>"
  obtain answer st2 where w: "world_step (ask (cf_model cf) ?input (cf_stream_options cf))
      (warm (has_warmer cf) WarmStop st) = (answer, st2)" by fastforce
  then have "grows [] [] st st2" using grows_quiet grows_warm grows_world_step by metis
  moreover have "grows [] [Assistant m] st2 st'"
    using assms Some w
    by (cases answer) (auto simp: stream_assistant_def Let_def intro: fail_assistant_grows
        consume_response_grows)
  ultimately show ?thesis by (rule grows_quiet)
qed

section \<open>Tool batches\<close>

lemma executed_events:
  assumes "execute_tool_after_start tools c st = ((x, es), st')"
  shows "xc_call x = c \<and> grows [] [] st st'
    \<and> (\<exists>us. es = map (tool_update_event c) us @ [tool_end_event x])"
  using assms
  by (auto simp: execute_tool_after_start_def report_def failed_call_def Let_def
      split: option.splits prod.splits sum.splits dest: grows_world_step)

definition tool_event :: "event \<Rightarrow> bool" where
  "tool_event e \<longleftrightarrow> ev_type e = EventToolExecutionStart \<or> ev_type e = EventToolExecutionUpdate
     \<or> ev_type e = EventToolExecutionEnd"

lemma tool_event_simps [simp]:
  "tool_event (tool_start_event c)" "tool_event (tool_update_event c r)" "tool_event (tool_end_event x)"
  by (simp_all add: tool_event_def)

lemma tool_events_silent:
  assumes "\<forall>e \<in> set es. tool_event e"
  shows "ended es = []" and "quiet es"
  using assms by (induction es) (auto simp: tool_event_def)

lemma grows_push_tool: "tool_event e \<Longrightarrow> grows [] [] st (push e st)"
  by (rule grows_push_other) (auto simp: tool_event_def)

lemma grows_push_tools: "\<forall>e \<in> set es. tool_event e \<Longrightarrow> grows [] [] st (push_all es st)"
  using grows_push_all [of es st] tool_events_silent [of es] by simp

lemma execute_tool_grows:
  assumes "execute_tool tools c st = (x, st')"
  shows "xc_call x = c \<and> grows [] [] st st'"
proof -
  obtain es st1 where r: "execute_tool_after_start tools c (push (tool_start_event c) st) = ((x, es), st1)"
    and st': "st' = push_all es st1"
    using assms by (auto simp: execute_tool_def split: prod.splits)
  from executed_events [OF r] have "\<forall>e \<in> set es. tool_event e" by auto
  then have "grows [] [] st1 st'" unfolding st' by (rule grows_push_tools)
  with executed_events [OF r] show ?thesis
    using grows_quiet grows_push_tool tool_event_simps(1) by metis
qed

lemma length_batch_grows:
  "length_batch cs st = (xs, st') \<Longrightarrow> map xc_call xs = cs \<and> grows [] [] st st'"
proof (induction cs arbitrary: st xs st')
  case Nil
  then show ?case by simp
next
  case (Cons c cs)
  let ?x = "failed_call c (ErrText (''tool call '' @ quote (tc_name c) @ '' was not executed: the response hit the output token limit, so its arguments may be truncated''))"
  let ?st = "push (tool_end_event ?x) (push (tool_start_event c) st)"
  obtain ys where "length_batch cs ?st = (ys, st')" and "xs = ?x # ys"
    using Cons.prems by (auto simp: Let_def split: prod.splits)
  moreover have "grows [] [] st ?st" by (meson grows_push_tool grows_quiet tool_event_simps)
  ultimately show ?case using Cons.IH grows_quiet by (fastforce simp: failed_call_def)
qed

lemma sequential_batch_grows:
  "sequential_batch ox tools cs st = (xs, st') \<Longrightarrow> map xc_call xs = cs \<and> grows [] [] st st'"
proof (induction cs arbitrary: st xs st')
  case Nil
  then show ?case by simp
next
  case (Cons c cs)
  obtain x st1 where one: "(case ox_err ox (ls_world st) of
      Some err \<Rightarrow> let x = failed_call c err in (x, push (tool_end_event x) (push (tool_start_event c) st))
    | None \<Rightarrow> execute_tool tools c st) = (x, st1)" by fastforce
  obtain ys where "sequential_batch ox tools cs st1 = (ys, st')" and "xs = x # ys"
    using Cons.prems one by (auto split: prod.splits)
  moreover have "xc_call x = c \<and> grows [] [] st st1"
  proof (cases "ox_err ox (ls_world st)")
    case None
    with one show ?thesis by (simp add: execute_tool_grows)
  next
    case (Some err)
    with one have "st1 = push (tool_end_event x) (push (tool_start_event c) st)" "xc_call x = c"
      by (auto simp: Let_def failed_call_def)
    then show ?thesis by (metis grows_push_tool grows_quiet tool_event_simps(1,3))
  qed
  ultimately show ?case using Cons.IH grows_quiet by fastforce
qed

end
