(* ===== verification/Loop_Batch.thy ===== *)
theory Loop_Batch
  imports Loop_Facts
begin

text \<open>
  The events and results of a batch of tool calls, in every execution mode: each call is
  announced once, in the order the model made them, each gets one result in that order, and
  its updates and its end follow its own start, however the goroutines of a parallel batch
  interleave.
\<close>

section \<open>Interleavings\<close>

lemma mset_concat_update:
  "i < length xss \<Longrightarrow> xss ! i = e # es \<Longrightarrow>
     mset (concat xss) = add_mset e (mset (concat (xss[i := es])))"
proof (induction xss arbitrary: i)
  case Nil
  then show ?case by simp
next
  case (Cons xs xss)
  then show ?case by (cases i) auto
qed

lemma interleave_mset:
  "mset (interleave ns pending running)
     = mset (map fst pending) + mset (concat running) + mset (concat (map snd pending))"
proof (induction ns pending running rule: interleave.induct)
  case (4 i ns pending running)
  show ?case
  proof (cases "i < length running")
    case False
    with 4 show ?thesis by simp
  next
    case True
    then show ?thesis
    proof (cases "running ! i")
      case Nil
      with 4 True show ?thesis by simp
    next
      case (Cons e es)
      with 4 True show ?thesis by (simp add: mset_concat_update [OF True Cons])
    qed
  qed
qed simp_all

lemma filter_concat_none: "\<forall>t \<in> set xss. \<forall>e \<in> set t. \<not> P e \<Longrightarrow> filter P (concat xss) = []"
  by (induction xss) (auto simp: filter_empty_conv)

lemma interleave_filter:
  "\<forall>t \<in> set running \<union> snd ` set pending. \<forall>e \<in> set t. \<not> P e \<Longrightarrow> \<forall>p \<in> set pending. P (fst p) \<Longrightarrow>
     filter P (interleave ns pending running) = map fst pending"
proof (induction ns pending running rule: interleave.induct)
  case (1 pending running)
  then have "filter P (concat running) = []" "filter P (concat (map snd pending)) = []"
    by (auto intro!: filter_concat_none)
  with 1 show ?case by (simp add: filter_id_conv)
next
  case (2 ns running)
  then show ?case by simp
next
  case (3 ns s t pending running)
  then show ?case by auto
next
  case (4 i ns pending running)
  show ?case
  proof (cases "i < length running")
    case False
    with 4 show ?thesis by simp
  next
    case True
    show ?thesis
    proof (cases "running ! i")
      case Nil
      with 4 True show ?thesis by simp
    next
      case (Cons e es)
      with True have "e # es \<in> set running" by (metis nth_mem)
      then have "\<forall>x \<in> set (e # es). \<not> P x" using 4(4) by blast
      then have e: "\<not> P e" and es: "\<forall>x \<in> set es. \<not> P x" by simp_all
      have "\<forall>t \<in> set (running[i := es]) \<union> snd ` set pending. \<forall>e \<in> set t. \<not> P e"
        using 4(4) es set_update_subset_insert [of running i es] by blast
      with 4(2) [OF True Cons _ 4(5)] True Cons e show ?thesis by simp
    qed
  qed
qed

lemma subseq_concat_nth: "i < length xss \<Longrightarrow> subseq (xss ! i) (concat xss)"
proof (induction xss arbitrary: i)
  case Nil
  then show ?case by simp
next
  case (Cons xs xss)
  then show ?case
    by (cases i) (auto intro: subseq_rev_drop_many list_emb_append2)
qed

lemma interleave_subseq:
  "(\<forall>j < length running. subseq (running ! j) (interleave ns pending running))
   \<and> (\<forall>j < length pending. subseq (fst (pending ! j) # snd (pending ! j)) (interleave ns pending running))"
proof (induction ns pending running rule: interleave.induct)
  case (1 pending running)
  have "subseq (running ! j) (map fst pending @ concat running @ concat (map snd pending))"
    if "j < length running" for j
    using subseq_concat_nth [OF that] by (metis append_assoc list_emb_append2 subseq_rev_drop_many)
  moreover have "subseq ([fst (pending ! j)] @ snd (pending ! j))
      (map fst pending @ concat running @ concat (map snd pending))" if "j < length pending" for j
  proof (rule list_emb_append_mono)
    show "subseq [fst (pending ! j)] (map fst pending)"
      using that by (simp add: subseq_singleton_left)
    show "subseq (snd (pending ! j)) (concat running @ concat (map snd pending))"
      using subseq_concat_nth [of j "map snd pending"] that by (simp add: list_emb_append2)
  qed
  ultimately show ?case by simp
next
  case (2 ns running)
  then show ?case by simp
next
  case (3 ns s t pending running)
  have a: "subseq (running ! j) (interleave ns pending (running @ [t]))" if "j < length running" for j
    using 3 that by (metis length_append_singleton less_Suc_eq nth_append)
  have b: "subseq t (interleave ns pending (running @ [t]))"
    using 3 by (metis length_append_singleton lessI nth_append_length)
  show ?case
  proof (intro conjI allI impI)
    fix j
    assume "j < length running"
    with a show "subseq (running ! j) (interleave (0 # ns) ((s, t) # pending) running)" by auto
  next
    fix j
    assume "j < length ((s, t) # pending)"
    with 3 b show "subseq (fst (((s, t) # pending) ! j) # snd (((s, t) # pending) ! j))
        (interleave (0 # ns) ((s, t) # pending) running)"
      by (cases j) (auto intro: list_emb_Cons simp del: subseq_Cons2_iff split: if_splits)
  qed
next
  case (4 i ns pending running)
  show ?case
  proof (cases "i < length running \<and> running ! i \<noteq> []")
    case False
    with 4 show ?thesis by (auto split: list.splits)
  next
    case True
    then obtain e es where es: "running ! i = e # es" by (auto simp: neq_Nil_conv)
    with True have step: "interleave (Suc i # ns) pending running
        = e # interleave ns pending (running[i := es])" by simp
    note ih = 4(2) [OF conjunct1 [OF True] es]
    have "subseq (running ! j) (interleave (Suc i # ns) pending running)" if "j < length running" for j
    proof (cases "j = i")
      case True
      then have "running[i := es] ! j = es" using that by simp
      with ih that have "subseq es (interleave ns pending (running[i := es]))"
        by (metis length_list_update)
      then show ?thesis unfolding step using True es by simp
    next
      case False
      then have "running[i := es] ! j = running ! j" by simp
      with ih that have "subseq (running ! j) (interleave ns pending (running[i := es]))"
        by (metis length_list_update)
      then show ?thesis unfolding step by (rule list_emb_Cons)
    qed
    moreover have "subseq (fst (pending ! j) # snd (pending ! j)) (interleave (Suc i # ns) pending running)"
      if "j < length pending" for j
      unfolding step using ih that by (blast intro: list_emb_Cons)
    ultimately show ?thesis by blast
  qed
qed

section \<open>Batches\<close>

definition is_start :: "event \<Rightarrow> bool" where
  "is_start e \<longleftrightarrow> ev_type e = EventToolExecutionStart"

definition is_end :: "event \<Rightarrow> bool" where
  "is_end e \<longleftrightarrow> ev_type e = EventToolExecutionEnd"

definition call_trace :: "tool_call \<Rightarrow> executed_call \<Rightarrow> event list \<Rightarrow> bool" where
  "call_trace c x es \<longleftrightarrow>
     (\<exists>us. subseq (tool_start_event c # map (tool_update_event c) us @ [tool_end_event x]) es)"

definition bracketed :: "tool_call list \<Rightarrow> executed_call list \<Rightarrow> event list \<Rightarrow> bool" where
  "bracketed calls xs es \<longleftrightarrow>
     map xc_call xs = calls \<and> (\<forall>e \<in> set es. tool_event e)
     \<and> filter is_start es = map tool_start_event calls
     \<and> mset (filter is_end es) = mset (map tool_end_event xs)
     \<and> list_all2 (\<lambda>c x. call_trace c x es) calls xs"

lemma is_start_end_simps [simp]:
  "is_start (tool_start_event c)" "\<not> is_start (tool_update_event c r)" "\<not> is_start (tool_end_event x)"
  "is_end (tool_end_event x)" "\<not> is_end (tool_update_event c r)" "\<not> is_end (tool_start_event c)"
  by (simp_all add: is_start_def is_end_def)

lemma filter_updates [simp]:
  "filter is_start (map (tool_update_event c) us) = []"
  "filter is_end (map (tool_update_event c) us) = []"
  by (induction us) auto

lemma bracketed_Nil [simp]: "bracketed [] [] []"
  by (simp add: bracketed_def)

lemma bracketed_Cons:
  assumes "bracketed cs xs es" and "xc_call x = c"
  shows "bracketed (c # cs) (x # xs)
    ((tool_start_event c # map (tool_update_event c) us @ [tool_end_event x]) @ es)"
proof -
  let ?t = "tool_start_event c # map (tool_update_event c) us @ [tool_end_event x]"
  have "subseq ?t (?t @ es)" using list_emb_append_mono [of "(=)" ?t ?t "[]" es] by simp
  then have "call_trace c x (?t @ es)" unfolding call_trace_def by blast
  moreover have "call_trace c' x' es \<Longrightarrow> call_trace c' x' (?t @ es)" for c' x'
    unfolding call_trace_def by (meson list_emb_append2)
  ultimately have "list_all2 (\<lambda>c x. call_trace c x (?t @ es)) (c # cs) (x # xs)"
    using assms(1) by (auto simp: bracketed_def elim!: list_all2_mono)
  with assms show ?thesis by (auto simp: bracketed_def)
qed

text \<open>\<open>batched\<close>: the step pushed exactly the bracketed events of the batch.\<close>

definition batched ::
  "tool_call list \<Rightarrow> executed_call list \<Rightarrow> 'w loop_state \<Rightarrow> 'w loop_state \<Rightarrow> bool" where
  "batched calls xs st st' \<longleftrightarrow>
     (\<exists>es. ls_events st' = ls_events st @ es \<and> bracketed calls xs es)"

lemma length_batch_bracketed: "length_batch cs st = (xs, st') \<Longrightarrow> batched cs xs st st'"
proof (induction cs arbitrary: st xs st')
  case Nil
  then show ?case by (simp add: batched_def)
next
  case (Cons c cs)
  let ?x = "failed_call c (ErrText (''tool call '' @ quote (tc_name c) @ '' was not executed: the response hit the output token limit, so its arguments may be truncated''))"
  let ?st = "push (tool_end_event ?x) (push (tool_start_event c) st)"
  obtain ys where "length_batch cs ?st = (ys, st')" and xs: "xs = ?x # ys"
    using Cons.prems by (auto simp: Let_def split: prod.splits)
  from Cons.IH [OF this(1)] obtain es where
    "ls_events st' = ls_events ?st @ es" "bracketed cs ys es" by (auto simp: batched_def)
  with bracketed_Cons [OF this(2), of ?x c "[]"] show ?case
    by (auto simp: batched_def xs push_def failed_call_def)
qed

lemma world_step_events: "world_step f st = (x, st') \<Longrightarrow> ls_events st' = ls_events st"
  by (auto simp: world_step_def split: prod.splits)

lemma executed_events_kept:
  "execute_tool_after_start tools c st = ((x, es), st') \<Longrightarrow> ls_events st' = ls_events st"
  by (auto simp: execute_tool_after_start_def Let_def split: option.splits prod.splits
      dest: world_step_events)

lemma execute_tool_events:
  assumes "execute_tool tools c st = (x, st')"
  shows "\<exists>us. ls_events st'
    = ls_events st @ tool_start_event c # map (tool_update_event c) us @ [tool_end_event x]"
proof -
  obtain es st1 where r: "execute_tool_after_start tools c (push (tool_start_event c) st) = ((x, es), st1)"
    and "st' = push_all es st1"
    using assms by (auto simp: execute_tool_def split: prod.splits)
  with executed_events [OF r] executed_events_kept [OF r] show ?thesis
    by (auto simp: push_def push_all_def)
qed

lemma sequential_batch_bracketed:
  "sequential_batch ox tools cs st = (xs, st') \<Longrightarrow> batched cs xs st st'"
proof (induction cs arbitrary: st xs st')
  case Nil
  then show ?case by (simp add: batched_def)
next
  case (Cons c cs)
  obtain x st1 where one: "(case ox_err ox (ls_world st) of
      Some err \<Rightarrow> let x = failed_call c err in (x, push (tool_end_event x) (push (tool_start_event c) st))
    | None \<Rightarrow> execute_tool tools c st) = (x, st1)" by fastforce
  obtain ys where rest: "sequential_batch ox tools cs st1 = (ys, st')" and xs: "xs = x # ys"
    using Cons.prems one by (auto split: prod.splits)
  have "xc_call x = c \<and> (\<exists>us. ls_events st1
    = ls_events st @ tool_start_event c # map (tool_update_event c) us @ [tool_end_event x])"
  proof (cases "ox_err ox (ls_world st)")
    case None
    with one have "execute_tool tools c st = (x, st1)" by simp
    with execute_tool_events execute_tool_grows show ?thesis by metis
  next
    case (Some err)
    with one show ?thesis
      by (auto simp: Let_def push_def failed_call_def intro: exI [of _ "[]"])
  qed
  moreover from Cons.IH [OF rest] obtain es where
    "ls_events st' = ls_events st1 @ es" "bracketed cs ys es" by (auto simp: batched_def)
  ultimately show ?case
    unfolding xs batched_def using bracketed_Cons [of cs ys es x c] by (metis append_assoc)
qed

definition is_trace :: "tool_call \<Rightarrow> executed_call \<times> event list \<Rightarrow> bool" where
  "is_trace c r \<longleftrightarrow> xc_call (fst r) = c
     \<and> (\<exists>us. snd r = map (tool_update_event c) us @ [tool_end_event (fst r)])"

lemma run_goroutines_traces:
  "run_goroutines tools cs st = (rs, st') \<Longrightarrow>
     list_all2 is_trace cs rs \<and> grows [] [] st st' \<and> ls_events st' = ls_events st"
proof (induction cs arbitrary: st rs st')
  case Nil
  then show ?case by simp
next
  case (Cons c cs)
  obtain r st1 rs' where one: "execute_tool_after_start tools c st = (r, st1)"
    and rest: "run_goroutines tools cs st1 = (rs', st')" and rs: "rs = r # rs'"
    using Cons.prems by (auto split: prod.splits)
  have "is_trace c r" "grows [] [] st st1" "ls_events st1 = ls_events st"
    using executed_events [of tools c st "fst r" "snd r" st1]
      executed_events_kept [of tools c st "fst r" "snd r" st1] one
    by (auto simp: is_trace_def)
  with Cons.IH [OF rest] rs show ?case using grows_quiet by auto
qed

lemma traces_ends:
  "list_all2 is_trace cs rs \<Longrightarrow>
     mset (filter is_end (concat (map snd rs))) = mset (map (tool_end_event \<circ> fst) rs)"
  by (induction rule: list_all2_induct) (auto simp: is_trace_def)

lemma traces_kinds:
  "list_all2 is_trace cs rs \<Longrightarrow>
     \<forall>t \<in> set (map snd rs). \<forall>e \<in> set t. tool_event e \<and> \<not> is_start e"
  by (induction rule: list_all2_induct) (auto simp: is_trace_def)

lemma filter_starts_end [simp]: "filter is_end (map tool_start_event cs) = []"
  by (induction cs) auto

lemma interleaved_bracketed:
  assumes "list_all2 is_trace cs rs"
  shows "bracketed cs (map fst rs) (interleave ns (zip (map tool_start_event cs) (map snd rs)) [])"
    (is "bracketed cs ?xs ?es")
proof -
  have len: "length cs = length rs" using assms by (rule list_all2_lengthD)
  let ?p = "zip (map tool_start_event cs) (map snd rs)"
  have mset: "mset ?es = mset (map tool_start_event cs) + mset (concat (map snd rs))"
    using interleave_mset [of ns ?p "[]"] len by simp
  have "map xc_call ?xs = cs"
    using assms by (induction rule: list_all2_induct) (auto simp: is_trace_def)
  moreover have "\<forall>e \<in> set ?es. tool_event e"
  proof -
    have "set ?es = set_mset (mset ?es)" by simp
    also have "\<dots> = set (map tool_start_event cs) \<union> set (concat (map snd rs))"
      unfolding mset by simp
    finally show ?thesis using traces_kinds [OF assms] by auto
  qed
  moreover have "filter is_start ?es = map tool_start_event cs"
  proof -
    have "\<not> is_start e" if "t \<in> set [] \<union> snd ` set ?p" and e: "e \<in> set t" for t e
    proof -
      from that(1) have "t \<in> set (map snd rs)" by (auto dest: set_zip_rightD)
      with traces_kinds [OF assms] e show ?thesis by blast
    qed
    then have "\<forall>t \<in> set [] \<union> snd ` set ?p. \<forall>e \<in> set t. \<not> is_start e" by blast
    moreover have "\<forall>p \<in> set ?p. is_start (fst p)" by (auto dest!: set_zip_leftD)
    ultimately have "filter is_start ?es = map fst ?p" by (rule interleave_filter)
    then show ?thesis using len by simp
  qed
  moreover have "mset (filter is_end ?es) = mset (map tool_end_event ?xs)"
    using traces_ends [OF assms] mset by (auto simp: mset_filter)
  moreover have "list_all2 (\<lambda>c x. call_trace c x ?es) cs ?xs"
  proof (rule list_all2_all_nthI)
    show "length cs = length ?xs" using len by simp
    fix i
    assume i: "i < length cs"
    then have "subseq (fst (?p ! i) # snd (?p ! i)) ?es"
      using interleave_subseq [of "[]" ns ?p] len by simp
    moreover have "is_trace (cs ! i) (rs ! i)" using assms i by (rule list_all2_nthD)
    ultimately show "call_trace (cs ! i) (?xs ! i) ?es"
      using i len by (auto simp: call_trace_def is_trace_def)
  qed
  ultimately show ?thesis by (simp add: bracketed_def)
qed

lemma parallel_batch_bracketed:
  assumes "parallel_batch ox tools calls st = (xs, st')"
  shows "batched calls xs st st' \<and> grows [] [] st st'"
proof -
  obtain rs st1 ns st2 where g: "run_goroutines tools calls st = (rs, st1)"
    and w: "world_step (ox_schedule ox) st1 = (ns, st2)" and xs: "xs = map fst rs"
    and st': "st' = push_all (interleave ns (zip (map tool_start_event calls) (map snd rs)) []) st2"
    using assms by (auto simp: parallel_batch_def split: prod.splits)
  from run_goroutines_traces [OF g] have t: "list_all2 is_trace calls rs" "grows [] [] st st1"
    "ls_events st1 = ls_events st" by auto
  from interleaved_bracketed [OF t(1), of ns] have b: "bracketed calls xs
      (interleave ns (zip (map tool_start_event calls) (map snd rs)) [])" by (simp add: xs)
  then have "batched calls xs st st'"
    using t(3) world_step_events [OF w] by (auto simp: batched_def st' push_all_def)
  moreover have "grows [] [] st2 st'"
    unfolding st' using b by (intro grows_push_tools) (simp add: bracketed_def)
  ultimately show ?thesis using t(2) grows_world_step [OF w] grows_quiet by blast
qed

lemma execute_tool_batch_grows:
  assumes "execute_tool_batch ox tools calls reason mode st = (xs, st')"
  shows "batched calls xs st st' \<and> grows [] [] st st'"
  using assms length_batch_bracketed [of calls st xs st'] length_batch_grows [of calls st xs st']
    sequential_batch_bracketed [of ox tools calls st xs st']
    sequential_batch_grows [of ox tools calls st xs st']
    parallel_batch_bracketed [of ox tools calls st xs st']
  by (auto simp: execute_tool_batch_def batched_def split: if_splits)


definition demo_tool :: "nat tool" where
  "demo_tool =
     \<lparr>to_definition = \<lparr>td_name = ''ls'', td_description = [], td_parameters = []\<rparr>, to_sequential = False,
      to_execute = (\<lambda>c n.
        let r = \<lparr>rs_content = [new_text ''ok''], rs_details = None, rs_usage = None,
                 rs_added_tool_names = [], rs_terminate = False\<rparr>
        in (\<lparr>tn_updates = [r], tn_late = [], tn_outcome = Inr r\<rparr>, Suc n))\<rparr>"

definition demo_outside :: "nat outside" where
  "demo_outside =
     \<lparr>ox_err = (\<lambda>n. None), ox_now = (\<lambda>n. (int n, n)), ox_arrivals = (\<lambda>n. ([], n)),
      ox_schedule = (\<lambda>n. ([0, 1, 0, 2, 1], n))\<rparr>"

definition demo_state :: "nat loop_state" where
  "demo_state =
     \<lparr>ls_current = [], ls_new = [], ls_err = None, ls_events = [], ls_queue = None, ls_accepted = [],
      ls_warm = [], ls_world = 0\<rparr>"


end
