(* ===== verification/Loop_Run.thy ===== *)
theory Loop_Run
  imports Loop_Batch
begin

text \<open>
  Whole turns and whole runs: the transcript a run leaves, the events that describe it, the
  steering queue at its end, and that a cancelled run ends.
\<close>

section \<open>One turn\<close>

definition adds :: "message list \<Rightarrow> 'w loop_state \<Rightarrow> 'w loop_state \<Rightarrow> bool" where
  "adds ms st st' \<longleftrightarrow>
     ls_current st' = ls_current st @ ms \<and> ls_new st' = ls_new st @ ms
     \<and> (\<exists>es. ls_events st' = ls_events st @ es \<and> ended es = ms \<and> quiet es)"

lemma adds_trans: "adds as st st1 \<Longrightarrow> adds bs st1 st2 \<Longrightarrow> adds (as @ bs) st st2"
  unfolding adds_def by fastforce

lemma adds_none: "adds as st st1 \<Longrightarrow> adds [] st1 st2 \<Longrightarrow> adds as st st2"
  using adds_trans [of as st st1 "[]" st2] by simp

lemma grows_adds: "grows ms ms st st' \<Longrightarrow> adds ms st st'"
  by (auto simp: grows_def adds_def)

lemma adds_queue [simp]: "adds [] st (st\<lparr>ls_queue := q\<rparr>)"
  by (simp add: adds_def)

lemma append_results_grows:
  "append_results ox xs st = (rs, st') \<Longrightarrow>
     grows (map ToolRes rs) (map ToolRes rs) st st'
     \<and> map tr_tool_call_id rs = map (tc_id \<circ> xc_call) xs"
proof (induction xs arbitrary: st rs st')
  case Nil
  then show ?case by simp
next
  case (Cons x xs)
  obtain now st1 where w: "world_step (ox_now ox) st = (now, st1)" by fastforce
  let ?r = "tool_result_msg x now"
  let ?st2 = "push_message (ToolRes ?r) (add_message (ToolRes ?r) st1)"
  obtain rs' where rest: "append_results ox xs ?st2 = (rs', st')" and rs: "rs = ?r # rs'"
    using Cons.prems w by (auto simp: Let_def split: prod.splits)
  have "grows [ToolRes ?r] [ToolRes ?r] st1 ?st2"
    using grows_trans [OF grows_add grows_push_message] by fastforce
  from grows_trans [OF this conjunct1 [OF Cons.IH [OF rest]]]
  have "grows (map ToolRes rs) (map ToolRes rs) st1 st'" by (simp add: rs)
  with grows_quiet [OF grows_world_step [OF w]]
  have "grows (map ToolRes rs) (map ToolRes rs) st st'" by blast
  moreover have "map tr_tool_call_id rs = map (tc_id \<circ> xc_call) (x # xs)"
    using Cons.IH [OF rest] by (simp add: rs tool_result_msg_def)
  ultimately show ?case by blast
qed

lemma append_steers_grows: "grows ms ms st (append_steers ms st)"
proof (induction ms arbitrary: st)
  case Nil
  then show ?case by simp
next
  case (Cons m ms)
  have "grows [m] [m] st (push_message m (add_message m st))"
    using grows_trans [OF grows_add grows_push_message] by fastforce
  from grows_trans [OF this Cons.IH] show ?case by simp
qed

lemma receive_all_spec:
  "receive_all ms q = (acc, q') \<Longrightarrow>
     sq_messages q' = sq_messages q @ acc \<and> sq_closed q' = sq_closed q
     \<and> acc = (if sq_closed q then [] else ms)"
proof (induction ms arbitrary: q acc q')
  case Nil
  then show ?case by simp
next
  case (Cons m ms)
  obtain ok q1 acc1 where "steer_push m q = (ok, q1)" and r: "receive_all ms q1 = (acc1, q')"
    and "acc = (if ok then m # acc1 else acc1)"
    using Cons.prems by (auto split: prod.splits)
  with Cons.IH [OF r] show ?case by (auto simp: steer_push_def split: if_splits)
qed

definition arrived :: "'w outside \<Rightarrow> message list \<Rightarrow> bool" where
  "arrived ox acc \<longleftrightarrow> (\<forall>m \<in> set acc. \<exists>w. m \<in> set (fst (ox_arrivals ox w)))"

lemma receive_spec:
  assumes "receive ox q st = (q', st')"
  obtains acc where "adds [] st st'" and "arrived ox acc"
    and "ls_accepted st' = ls_accepted st @ acc"
    and "sq_messages q' = sq_messages q @ acc" and "sq_closed q' = sq_closed q"
proof -
  obtain ms w acc where w: "ox_arrivals ox (ls_world st) = (ms, w)" and r: "receive_all ms q = (acc, q')"
    and st': "st' = st\<lparr>ls_world := w, ls_queue := Some q', ls_accepted := ls_accepted st @ acc\<rparr>"
    using assms by (auto simp: receive_def world_step_def split: prod.splits)
  show thesis
  proof (rule that [of acc])
    show "adds [] st st'" by (simp add: adds_def st')
    show "arrived ox acc"
      using receive_all_spec [OF r] w by (auto simp: arrived_def split: if_splits) (metis fst_conv)
  qed (use receive_all_spec [OF r] st' in auto)
qed

text \<open>The queue before and after a turn that does not fail: what was accepted and what was taken.\<close>

definition steered ::
  "bool \<Rightarrow> steering_queue option \<Rightarrow> message list \<Rightarrow> message list \<Rightarrow> steering_queue option \<Rightarrow> bool" where
  "steered finished queue acc steers queue' \<longleftrightarrow>
     (case queue of
        None \<Rightarrow> queue' = None \<and> acc = [] \<and> steers = []
      | Some q \<Rightarrow> \<exists>q'. queue' = Some q' \<and> steers = sq_messages q @ acc \<and> sq_messages q' = []
          \<and> sq_closed q' = (finished \<or> sq_closed q))"

lemma calls_executed:
  assumes "execute_tool_batch ox tools (tool_calls m) reason mode st = (xs, st1)"
    and "append_results ox xs st1 = (rs, st2)"
  shows "grows (map ToolRes rs) (map ToolRes rs) st st2
    \<and> map tr_tool_call_id rs = map tc_id (tool_calls m)"
proof -
  from execute_tool_batch_grows [OF assms(1)] have "map xc_call xs = tool_calls m" "grows [] [] st st1"
    by (auto simp: batched_def bracketed_def)
  with append_results_grows [OF assms(2)] show ?thesis
    using grows_quiet by (metis list.map_comp)
qed

text \<open>Everything a turn does, by the way it ends.\<close>

definition turn_summary ::
  "'w outside \<Rightarrow> 'w loop_state \<Rightarrow> bool \<Rightarrow> assistant_message \<Rightarrow> tool_result_message list
     \<Rightarrow> message list \<Rightarrow> message list \<Rightarrow> 'w loop_state \<Rightarrow> bool" where
  "turn_summary ox st finished m rs acc steers st' \<longleftrightarrow>
     adds (Assistant m # map ToolRes rs @ steers) st st'
     \<and> map tr_tool_call_id rs = open_ids m
     \<and> arrived ox acc \<and> ls_accepted st' = ls_accepted st @ acc
     \<and> (if failed_stop (am_stop_reason m)
        then finished \<and> acc = [] \<and> steers = [] \<and> ls_queue st' = ls_queue st
        else steered finished (ls_queue st) acc steers (ls_queue st'))"

lemma adds_turn_start: "adds [] st (push (event_of EventTurnStart) st)"
  by (rule grows_adds) (simp add: grows_push_other)

lemma turn_tail:
  assumes "grows (Assistant m # map ToolRes rs) (Assistant m # map ToolRes rs) st st5"
    and "map tr_tool_call_id rs = open_ids m" and "\<not> failed_stop (am_stop_reason m)"
    and "ls_queue st5 = Some q" and "receive ox q st5 = (q1, st6)"
    and "sq_messages q1 = steers" and "sq_messages q2 = []" and "sq_closed q2 = (finished \<or> sq_closed q1)"
    and "adds steers (st6\<lparr>ls_queue := Some q2\<rparr>) st'" and "ls_queue st' = Some q2"
    and "ls_accepted st' = ls_accepted st6"
  shows "\<exists>acc. turn_summary ox st finished m rs acc steers st'"
proof -
  from assms(5) obtain acc where acc: "adds [] st5 st6" "arrived ox acc"
    "ls_accepted st6 = ls_accepted st5 @ acc" "sq_messages q1 = sq_messages q @ acc"
    "sq_closed q1 = sq_closed q"
    by (rule receive_spec)
  have "adds ([] @ [] @ steers) st5 st'"
    using adds_trans [OF acc(1) adds_trans [OF adds_queue assms(9)]] .
  then have "adds ((Assistant m # map ToolRes rs) @ steers) st st'"
    using adds_trans [OF grows_adds [OF assms(1)]] by simp
  moreover have "ls_queue st = Some q" "ls_accepted st5 = ls_accepted st"
    using assms(1,4) by (simp_all add: grows_def)
  moreover from this have "steered finished (ls_queue st) acc steers (ls_queue st')"
    using assms(6,7,8,10) acc(4,5) by (simp add: steered_def)
  ultimately show ?thesis
    using assms(2,3,11) acc(2,3) by (intro exI [of _ acc]) (simp add: turn_summary_def)
qed

lemma append_steers_keeps [simp]:
  "ls_queue (append_steers ms st) = ls_queue st" "ls_accepted (append_steers ms st) = ls_accepted st"
  using append_steers_grows [of ms st] by (simp_all add: grows_def)

lemma push_keeps [simp]:
  "ls_queue (push e st) = ls_queue st" "ls_accepted (push e st) = ls_accepted st"
  by (simp_all add: push_def)

lemma turn_effect:
  assumes "turn ox cf tools system st = (finished, st')"
  obtains m rs acc steers where "turn_summary ox st finished m rs acc steers st'"
proof -
  obtain m err st1 where ask: "stream_assistant ox cf tools system st = ((m, err), st1)"
    by (metis prod.exhaust)
  let ?st2 = "add_message (Assistant m) (st1\<lparr>ls_err := err\<rparr>)"
  have g2: "grows [Assistant m] [Assistant m] st ?st2"
    using grows_trans [OF stream_assistant_grows [OF ask] grows_quiet [OF grows_world(2) grows_add]]
    by simp
  show thesis
  proof (cases "failed_stop (am_stop_reason m)")
    case True
    let ?final = "push ((message_event EventTurnEnd (Assistant m))\<lparr>ev_err := err\<rparr>) ?st2"
    have "finished \<and> st' = ?final"
      using assms ask True by (auto simp: turn_def failed_stop_def)
    moreover have "grows [Assistant m] [Assistant m] st ?final"
      using grows_trans [OF g2 grows_push_other] by simp
    ultimately have "turn_summary ox st finished m [] [] [] st'"
      using True by (auto simp: turn_summary_def open_ids_def arrived_def grows_adds)
        (auto simp: grows_def)
    then show thesis by (rule that)
  next
    case False
    obtain results st3 where batch: "execute_tool_batch ox tools (tool_calls m) (am_stop_reason m)
        (cf_tool_execution cf) ?st2 = (results, st3)" by fastforce
    obtain rs st4 where app: "append_results ox results st3 = (rs, st4)" by fastforce
    let ?st5 = "push ((message_event EventTurnEnd (Assistant m))\<lparr>ev_tool_results := rs\<rparr>) st4"
    have g5: "grows (Assistant m # map ToolRes rs) (Assistant m # map ToolRes rs) st ?st5"
      using grows_trans [OF grows_trans [OF g2 conjunct1 [OF calls_executed [OF batch app]]] grows_push_other]
      by simp
    have ids: "map tr_tool_call_id rs = open_ids m"
      using calls_executed [OF batch app] False by (simp add: open_ids_def)
    note tail = turn_tail [OF g5 ids False]
    define fin where
      "fin \<longleftrightarrow> (tool_calls m = [] \<or> results \<noteq> [] \<and> list_all (\<lambda>x. rs_terminate (xc_result x)) results)"
    have run: "leave_turn ox fin ?st5 = (finished, st')"
      using assms False ask batch app by (simp add: turn_def Let_def fin_def failed_stop_def)
    show thesis
    proof (cases "ls_queue ?st5")
      case None
      then have "st' = ?st5 \<or> st' = push (event_of EventTurnStart) ?st5"
        using run by (auto simp: leave_turn_def split: if_splits)
      then have "adds (Assistant m # map ToolRes rs) st st'"
        using adds_none [OF grows_adds [OF g5] adds_turn_start] grows_adds [OF g5] by auto
      moreover have "ls_queue st' = None" "ls_accepted st' = ls_accepted st" "ls_queue st = None"
        using \<open>st' = ?st5 \<or> st' = push (event_of EventTurnStart) ?st5\<close> None g5
        by (auto simp: grows_def)
      ultimately have "turn_summary ox st finished m rs [] [] st'"
        using ids False by (simp add: turn_summary_def arrived_def steered_def)
      then show thesis by (rule that)
    next
      case (Some q)
      obtain q1 st6 where rec: "receive ox q ?st5 = (q1, st6)" by fastforce
      let ?taken = "\<lambda>q2. append_steers (sq_messages q1) (st6\<lparr>ls_queue := Some q2\<rparr>)"
      let ?next = "push (event_of EventTurnStart) (?taken (q1\<lparr>sq_messages := []\<rparr>))"
      have taken: "adds (sq_messages q1) (st6\<lparr>ls_queue := Some q2\<rparr>) (?taken q2)" for q2
        by (rule grows_adds [OF append_steers_grows])
      have "adds (sq_messages q1) (st6\<lparr>ls_queue := Some (q1\<lparr>sq_messages := []\<rparr>)\<rparr>) ?next"
        by (rule adds_none [OF taken adds_turn_start])
      from tail [OF Some rec refl _ _ this] have next_turn:
        "\<exists>acc. turn_summary ox st False m rs acc (sq_messages q1) ?next" by simp
      consider (cancelled) "finished" "st' = ?taken (q1\<lparr>sq_closed := True, sq_messages := []\<rparr>)"
        | (closed) "finished" "sq_messages q1 = []" "st' = st6\<lparr>ls_queue := Some (q1\<lparr>sq_closed := True\<rparr>)\<rparr>"
        | (goes_on) "\<not> finished" "st' = ?next"
        using run Some rec
        by (auto simp: leave_turn_def close_def drain_or_close_def drain_def drain_locked_def Let_def split: if_splits)
      then have "\<exists>acc. turn_summary ox st finished m rs acc (sq_messages q1) st'"
      proof cases
        case cancelled
        from tail [OF Some rec refl _ _ taken] cancelled show ?thesis by simp
      next
        case closed
        then have "adds (sq_messages q1) (st6\<lparr>ls_queue := Some (q1\<lparr>sq_closed := True\<rparr>)\<rparr>) st'"
          by (simp add: adds_def)
        from tail [OF Some rec refl _ _ this] closed show ?thesis by simp
      next
        case goes_on
        with next_turn show ?thesis by simp
      qed
      with that show thesis by blast
    qed
  qed
qed

section \<open>Whole runs\<close>

lemma run_turns_last:
  "run_turns n ox cf tools system st = Some st' \<Longrightarrow>
     (\<And>st st'. Inv st \<Longrightarrow> turn ox cf tools system st = (False, st') \<Longrightarrow> Inv st') \<Longrightarrow> Inv st \<Longrightarrow>
     \<exists>st1. Inv st1 \<and> turn ox cf tools system st1 = (True, st')"
proof (induction n arbitrary: st)
  case 0
  then show ?case by simp
next
  case (Suc n)
  obtain finished st1 where t: "turn ox cf tools system st = (finished, st1)" by fastforce
  show ?case
  proof (cases finished)
    case True
    with Suc.prems(1,3) t show ?thesis by auto
  next
    case False
    with Suc.prems t have "run_turns n ox cf tools system st1 = Some st'" "Inv st1" by auto
    with Suc.IH Suc.prems(2) show ?thesis by blast
  qed
qed

fun is_user :: "message \<Rightarrow> bool" where
  "is_user (User _) = True"
| "is_user (UserPtr _) = True"
| "is_user _ = False"

definition queued :: "steering_queue option \<Rightarrow> message list" where
  "queued queue = (case queue of None \<Rightarrow> [] | Some q \<Rightarrow> sq_messages q)"

definition steers_users :: "'w outside \<Rightarrow> steering_queue option \<Rightarrow> bool" where
  "steers_users ox queue \<longleftrightarrow>
     (\<forall>w. list_all is_user (fst (ox_arrivals ox w))) \<and> list_all is_user (queued queue)"

lemma users_valid: "list_all is_user ms \<Longrightarrow> valid_transcript ms"
proof (induction ms)
  case Nil
  then show ?case by simp
next
  case (Cons m ms)
  then show ?case by (cases m) auto
qed

lemma users_arrived: "arrived ox acc \<Longrightarrow> steers_users ox queue \<Longrightarrow> list_all is_user acc"
  by (fastforce simp: arrived_def steers_users_def list_all_iff)

text \<open>The invariant of a run: \<open>hist\<close> is the conversation it started from.\<close>

definition run_inv :: "'w outside \<Rightarrow> message list \<Rightarrow> 'w loop_state \<Rightarrow> bool" where
  "run_inv ox hist st \<longleftrightarrow>
     ls_current st = hist @ ls_new st
     \<and> (\<exists>es. ls_events st = event_of EventAgentStart # es \<and> quiet es \<and> ended es = ls_new st)"

lemma adds_run_inv: "run_inv ox hist st \<Longrightarrow> adds ms st st' \<Longrightarrow> run_inv ox hist st'"
  by (auto simp: run_inv_def adds_def)

lemma turn_run_inv:
  "run_inv ox hist st \<Longrightarrow> turn ox cf tools system st = (finished, st') \<Longrightarrow> run_inv ox hist st'"
  by (metis turn_effect turn_summary_def adds_run_inv)

lemma push_prompts_spec:
  "ls_current (push_prompts ms st) = ls_current st \<and> ls_new (push_prompts ms st) = ls_new st
   \<and> ls_queue (push_prompts ms st) = ls_queue st \<and> ls_accepted (push_prompts ms st) = ls_accepted st
   \<and> ls_world (push_prompts ms st) = ls_world st
   \<and> (\<exists>es. ls_events (push_prompts ms st) = ls_events st @ es \<and> quiet es \<and> ended es = ms)"
proof (induction ms arbitrary: st)
  case Nil
  then show ?case by simp
next
  case (Cons m ms)
  from Cons.IH [of "push_message m st"] show ?case by (auto simp: push_message_def push_def)
qed

lemma start_run_inv: "run_inv ox initial (start_run prompts initial queue w)"
  using push_prompts_spec [of prompts "\<lparr>ls_current = initial @ prompts, ls_new = prompts, ls_err = None,
        ls_events = [event_of EventAgentStart, event_of EventTurnStart], ls_queue = queue,
        ls_accepted = [], ls_warm = [], ls_world = w\<rparr>"]
  by (auto simp: start_run_def run_inv_def)

lemma start_run_simps [simp]:
  "ls_current (start_run prompts initial queue w) = initial @ prompts"
  "ls_queue (start_run prompts initial queue w) = queue"
  "ls_accepted (start_run prompts initial queue w) = []"
  "ls_new (start_run prompts initial queue w) = prompts"
  "ls_world (start_run prompts initial queue w) = w"
  by (simp_all add: start_run_def push_prompts_spec)

lemma end_run_simps [simp]:
  "ls_current (end_run cf st) = ls_current st" "ls_new (end_run cf st) = ls_new st"
  "ls_queue (end_run cf st) = ls_queue st" "ls_accepted (end_run cf st) = ls_accepted st"
  "ls_events (end_run cf st)
     = ls_events st @ [(event_of EventAgentEnd)\<lparr>ev_messages := ls_new st, ev_err := ls_err st\<rparr>]"
  by (simp_all add: end_run_def warm_def push_def)

text \<open>Claim C11. A run reports itself faithfully: its first event is the only agent start, its last
  the only agent end, which carries the new messages; the messages whose end it announces
  are those messages, in order; and the transcript it worked on is the initial one followed
  by them.\<close>

theorem run_reports_messages:
  assumes "run fuel ox cf tools system prompts initial queue w = Some st"
  shows "ls_current st = initial @ ls_new st
    \<and> (\<exists>es last. ls_events st = event_of EventAgentStart # es @ [last] \<and> quiet es
         \<and> ended es = ls_new st \<and> agent_complete last = Some (ls_new st))"
proof -
  obtain st0 where turns: "run_turns fuel ox cf tools system (start_run prompts initial queue w) = Some st0"
    and st: "st = end_run cf st0"
    using assms by (auto simp: run_def)
  have "\<exists>st1. run_inv ox initial st1 \<and> turn ox cf tools system st1 = (True, st0)"
    by (rule run_turns_last [OF turns], erule (1) turn_run_inv, rule start_run_inv)
  then obtain st1 where "run_inv ox initial st1" "turn ox cf tools system st1 = (True, st0)" by blast
  then have "run_inv ox initial st0" by (rule turn_run_inv)
  then show ?thesis by (auto simp: run_inv_def st agent_complete_def)
qed

lemma result_ids: "map (result_id \<circ> ToolRes) rs = map Some (map tr_tool_call_id rs)"
  by (induction rs) simp_all

definition paired_inv :: "'w outside \<Rightarrow> 'w loop_state \<Rightarrow> bool" where
  "paired_inv ox st \<longleftrightarrow> valid_transcript (ls_current st) \<and> steers_users ox (ls_queue st)"

lemma turn_paired:
  assumes "paired_inv ox st" and "turn ox cf tools system st = (finished, st')"
  shows "paired_inv ox st'"
proof -
  obtain m rs acc steers where t: "turn_summary ox st finished m rs acc steers st'"
    using turn_effect [OF assms(2)] .
  then have acc: "list_all is_user acc"
    using assms(1) users_arrived by (auto simp: turn_summary_def paired_inv_def)
  have users: "list_all is_user steers \<and> steers_users ox (ls_queue st')"
    using t assms(1) acc
    by (auto simp: turn_summary_def steered_def paired_inv_def steers_users_def queued_def
        split: if_splits option.splits)
  have "map result_id (map ToolRes rs) = map Some (open_ids m)"
    using t by (simp add: turn_summary_def result_ids)
  from paired_results [OF this] users have "valid_transcript (Assistant m # map ToolRes rs @ steers)"
    by (simp add: users_valid)
  then have "valid_transcript (ls_current st')"
    using t assms(1) by (auto simp: turn_summary_def adds_def paired_inv_def intro: paired_append)
  with users show ?thesis by (simp add: paired_inv_def)
qed


section \<open>Steering at the end of a run\<close>

definition steer_track :: "'w outside \<Rightarrow> 'w loop_state \<Rightarrow> bool" where
  "steer_track ox st \<longleftrightarrow>
     (\<exists>q. ls_queue st = Some q \<and> \<not> sq_closed q \<and> sq_messages q = []) \<and> steers_users ox (ls_queue st)
     \<and> subseq (ls_accepted st) (ls_new st)"

lemma turn_steers:
  assumes "steer_track ox st" and "turn ox cf tools system st = (finished, st')"
  shows "subseq (ls_accepted st') (ls_new st')"
    and "\<not> finished \<Longrightarrow> steer_track ox st'"
    and "\<exists>q. ls_queue st' = Some q \<and> sq_messages q = []
      \<and> (finished \<longrightarrow> sq_closed q = (\<nexists>m. last (ls_new st') = Assistant m \<and> failed_stop (am_stop_reason m)))"
proof -
  obtain m rs acc steers where t: "turn_summary ox st finished m rs acc steers st'"
    using turn_effect [OF assms(2)] .
  obtain q where q: "ls_queue st = Some q" "\<not> sq_closed q" "sq_messages q = []"
    using assms(1) by (auto simp: steer_track_def)
  have new: "ls_new st' = ls_new st @ (Assistant m # map ToolRes rs @ steers)"
    and acc: "ls_accepted st' = ls_accepted st @ acc"
    using t by (auto simp: turn_summary_def adds_def)
  have "acc = steers"
    using t q by (auto simp: turn_summary_def steered_def split: if_splits)
  then show sub: "subseq (ls_accepted st') (ls_new st')"
    using assms(1) unfolding new acc steer_track_def
    by (intro list_emb_append_mono) (auto intro: list_emb_Cons list_emb_append2)
  show "\<not> finished \<Longrightarrow> steer_track ox st'"
    using t q sub assms(1)
    by (auto simp: turn_summary_def steered_def steer_track_def steers_users_def queued_def split: if_splits)
  have users: "list_all is_user steers"
    using users_arrived [of ox acc "ls_queue st"] t assms(1) \<open>acc = steers\<close>
    by (auto simp: turn_summary_def steer_track_def)
  have "(\<exists>m'. last (ls_new st') = Assistant m' \<and> failed_stop (am_stop_reason m'))
      = failed_stop (am_stop_reason m)"
  proof (cases "failed_stop (am_stop_reason m)")
    case True
    with t have "rs = []" "steers = []" by (auto simp: turn_summary_def open_ids_def)
    with True show ?thesis by (simp add: new)
  next
    case False
    have "last (ls_new st') = Assistant m' \<Longrightarrow> m' = m" for m'
    proof (cases "steers = []")
      case True
      then show "last (ls_new st') = Assistant m' \<Longrightarrow> m' = m"
        by (cases rs rule: rev_cases) (auto simp: new)
    next
      case False
      then have "is_user (last steers)" using users by (simp add: list_all_iff)
      then show "last (ls_new st') = Assistant m' \<Longrightarrow> m' = m" using False by (auto simp: new)
    qed
    with False show ?thesis by auto
  qed
  with t q show "\<exists>q. ls_queue st' = Some q \<and> sq_messages q = []
      \<and> (finished \<longrightarrow> sq_closed q = (\<nexists>m. last (ls_new st') = Assistant m \<and> failed_stop (am_stop_reason m)))"
    by (auto simp: turn_summary_def steered_def split: if_splits)
qed


section \<open>A run ends\<close>

text \<open>
  \<open>countdown b\<close>: \<open>b\<close> is the time left to the run. It never grows, a request to the provider
  uses some of it up, and when it is gone the context is cancelled and stays so.
\<close>

definition lowers :: "('w \<Rightarrow> nat) \<Rightarrow> ('w \<Rightarrow> 'a \<times> 'w) \<Rightarrow> bool" where
  "lowers b f \<longleftrightarrow> (\<forall>w. b (snd (f w)) \<le> b w)"

definition countdown :: "('w \<Rightarrow> nat) \<Rightarrow> 'w outside \<Rightarrow> 'w config \<Rightarrow> 'w tool list \<Rightarrow> bool" where
  "countdown b ox cf tools \<longleftrightarrow>
     (\<forall>w. b w = 0 \<longrightarrow> ox_err ox w \<noteq> None)
     \<and> lowers b (ox_now ox) \<and> lowers b (ox_arrivals ox) \<and> lowers b (ox_schedule ox)
     \<and> (\<forall>t \<in> set tools. \<forall>c. lowers b (to_execute t c))
     \<and> (\<forall>ask. cf_provider cf = Some ask \<longrightarrow>
          (\<forall>input. lowers b (ask (cf_model cf) input (cf_stream_options cf))
             \<and> (\<forall>w. 0 < b w \<longrightarrow> b (snd (ask (cf_model cf) input (cf_stream_options cf) w)) < b w)))"

abbreviation left :: "('w \<Rightarrow> nat) \<Rightarrow> 'w loop_state \<Rightarrow> nat" where
  "left b st \<equiv> b (ls_world st)"

lemma left_world_step: "lowers b f \<Longrightarrow> world_step f st = (x, st') \<Longrightarrow> left b st' \<le> left b st"
  by (auto simp: world_step_def lowers_def split: prod.splits) (metis snd_conv)

lemma left_simps [simp]:
  "ls_world (push e st) = ls_world st" "ls_world (warm h c st) = ls_world st"
  "ls_world (push_all es st) = ls_world st" "ls_world (add_message m st) = ls_world st"
  "ls_world (push_message m st) = ls_world st" "ls_world (append_steers ms st) = ls_world st"
  "ls_world (start_cache_warming cf input a st) = ls_world st"
proof -
  show "ls_world (append_steers ms st) = ls_world st"
    by (induction ms arbitrary: st) (simp_all add: push_def push_message_def add_message_def)
qed (simp_all add: push_def warm_def push_all_def add_message_def push_message_def start_cache_warming_def)

lemma left_fail:
  "lowers b (ox_now ox) \<Longrightarrow> fail_assistant ox cf started err st = (r, st') \<Longrightarrow> left b st' \<le> left b st"
  by (auto simp: fail_assistant_def Let_def split: prod.splits if_splits dest: left_world_step)

lemma left_finish:
  "lowers b (ox_now ox) \<Longrightarrow> finish_assistant ox cf input result started st = (r, st') \<Longrightarrow>
     left b st' \<le> left b st"
  by (auto simp: finish_assistant_def Let_def split: prod.splits sum.splits if_splits
      dest: left_world_step)

lemma consume_event_cases:
  "consume_response ox cf input result (NextEvent ae # ns) started st
       = finish_assistant ox cf input result started st
   \<or> (\<exists>s st2. ls_world st2 = ls_world st
         \<and> consume_response ox cf input result (NextEvent ae # ns) started st
             = consume_response ox cf input result ns s st2)"
proof -
  have same: "\<exists>s' st3. ls_world st3 = ls_world st
      \<and> consume_response ox cf input result ns s st2 = consume_response ox cf input result ns s' st3"
    if "ls_world st2 = ls_world st" for s st2
    using that by blast
  show ?thesis
    by (cases "ae_type ae"; cases "ae_partial ae"; simp only: consume_response.simps
        ai_event_type.case option.case; (rule disjI1 [OF refl] | rule disjI2 [OF same]; simp))
qed

lemma left_consume:
  assumes "lowers b (ox_now ox)"
  shows "consume_response ox cf input result ns started st = (r, st') \<Longrightarrow> left b st' \<le> left b st"
proof (induction ns arbitrary: started st)
  case Nil
  then show ?case using left_finish [OF assms] by simp
next
  case (Cons n ns)
  show ?case
  proof (cases n)
    case (NextErr err)
    then show ?thesis using Cons.prems left_fail [OF assms] by simp
  next
    case (NextEvent ae)
    note eq = Cons.prems [unfolded NextEvent]
    from consume_event_cases [of ox cf input result ae ns started st]
    show ?thesis
    proof
      assume "consume_response ox cf input result (NextEvent ae # ns) started st
          = finish_assistant ox cf input result started st"
      with eq show ?thesis using left_finish [OF assms] by metis
    next
      assume "\<exists>s st2. ls_world st2 = ls_world st
         \<and> consume_response ox cf input result (NextEvent ae # ns) started st
             = consume_response ox cf input result ns s st2"
      then obtain s st2 where "ls_world st2 = ls_world st"
        and "consume_response ox cf input result ns s st2 = (r, st')"
        using eq by metis
      with Cons.IH [of s st2] show ?thesis by simp
    qed
  qed
qed

lemma left_execute:
  "\<forall>t \<in> set tools. \<forall>c. lowers b (to_execute t c) \<Longrightarrow>
     execute_tool_after_start tools c st = (r, st') \<Longrightarrow> left b st' \<le> left b st"
  by (auto simp: execute_tool_after_start_def Let_def find_Some_iff split: option.splits prod.splits
      dest: left_world_step [rotated] nth_mem)

lemma left_batch:
  assumes tools: "\<forall>t \<in> set tools. \<forall>c. lowers b (to_execute t c)" and "lowers b (ox_schedule ox)"
    and "execute_tool_batch ox tools calls reason mode st = (xs, st')"
  shows "left b st' \<le> left b st"
proof -
  have len: "length_batch cs s = (ys, s') \<Longrightarrow> left b s' \<le> left b s" for cs s ys s'
    by (induction cs arbitrary: s ys s') (fastforce simp: Let_def split: prod.splits)+
  have one: "execute_tool tools c s = (x, s') \<Longrightarrow> left b s' \<le> left b s" for c s x s'
    by (auto simp: execute_tool_def split: prod.splits dest!: left_execute [OF tools])
  have sequ: "sequential_batch ox tools cs s = (ys, s') \<Longrightarrow> left b s' \<le> left b s" for cs s ys s'
  proof (induction cs arbitrary: s ys s')
    case (Cons c cs)
    from Cons.prems Cons.IH show ?case
      by (fastforce simp: Let_def split: prod.splits option.splits dest: one intro: order_trans)
  qed simp
  have gor: "run_goroutines tools cs s = (rs, s') \<Longrightarrow> left b s' \<le> left b s" for cs s rs s'
  proof (induction cs arbitrary: s rs s')
    case (Cons c cs)
    from Cons.prems Cons.IH show ?case
      by (fastforce split: prod.splits dest: left_execute [OF tools] intro: order_trans)
  qed simp
  have par: "parallel_batch ox tools calls st = (xs, st') \<Longrightarrow> left b st' \<le> left b st"
    by (auto simp: parallel_batch_def split: prod.splits
        dest!: gor left_world_step [OF assms(2)] intro: order_trans)
  from assms(3) show ?thesis
    by (auto simp: execute_tool_batch_def split: if_splits dest: len sequ par)
qed

lemma left_results:
  "lowers b (ox_now ox) \<Longrightarrow> append_results ox xs st = (rs, st') \<Longrightarrow> left b st' \<le> left b st"
proof (induction xs arbitrary: st rs st')
  case (Cons x xs)
  obtain now st1 where w: "world_step (ox_now ox) st = (now, st1)" by fastforce
  let ?r = "ToolRes (tool_result_msg x now)"
  obtain rs' where "append_results ox xs (push_message ?r (add_message ?r st1)) = (rs', st')"
    using Cons.prems w by (auto simp: Let_def split: prod.splits)
  from Cons.IH [OF Cons.prems(1) this] left_world_step [OF Cons.prems(1) w] show ?case by simp
qed simp

lemma left_leave:
  assumes "lowers b (ox_arrivals ox)" and "leave_turn ox fin st = (False, st')"
  shows "ox_err ox (ls_world st) = None \<and> left b st' \<le> left b st"
proof -
  have rec: "receive ox q st = (q1, st1) \<Longrightarrow> left b st1 \<le> left b st" for q q1 st1
    using assms(1) by (auto simp: receive_def split: prod.splits dest: left_world_step)
  with assms(2) show ?thesis
    by (auto simp: leave_turn_def Let_def split: option.splits if_splits prod.splits)
qed

lemma left_stream:
  assumes "countdown b ox cf tools"
    and "stream_assistant ox cf tools system st = ((m, err), st')" and "\<not> failed_stop (am_stop_reason m)"
  shows "left b st' \<le> left b st \<and> (0 < left b st \<longrightarrow> left b st' < left b st)"
proof (cases "cf_provider cf")
  case None
  with assms(2,3) show ?thesis
    by (auto simp: stream_assistant_def fail_assistant_def Let_def error_message_def failed_stop_def
        split: prod.splits)
next
  case (Some ask)
  let ?f = "ask (cf_model cf) \<lparr>cx_system_prompt = system, cx_messages = ls_current st,
      cx_tools = map to_definition tools\<rparr> (cf_stream_options cf)"
  obtain answer st2 where w: "world_step ?f (warm (has_warmer cf) WarmStop st) = (answer, st2)"
    by fastforce
  then have st2: "left b st2 = b (snd (?f (ls_world st)))"
    by (auto simp: world_step_def split: prod.splits)
  have now: "lowers b (ox_now ox)" using assms(1) by (simp add: countdown_def)
  have "left b st' \<le> left b st2"
    using assms(2) Some w by (cases answer)
      (auto simp: stream_assistant_def Let_def dest: left_fail [OF now] left_consume [OF now])
  moreover have "left b st2 \<le> left b st \<and> (0 < left b st \<longrightarrow> left b st2 < left b st)"
    using assms(1) Some unfolding st2 countdown_def lowers_def by blast
  ultimately show ?thesis by auto
qed

lemma turn_continues:
  assumes "countdown b ox cf tools" and "turn ox cf tools system st = (False, st')"
  shows "left b st' < left b st"
proof -
  obtain m err st1 where ask: "stream_assistant ox cf tools system st = ((m, err), st1)"
    by (metis prod.exhaust)
  with assms(2) have ok: "\<not> failed_stop (am_stop_reason m)"
    by (auto simp: turn_def failed_stop_def)
  let ?st2 = "add_message (Assistant m) (st1\<lparr>ls_err := err\<rparr>)"
  obtain xs st3 where batch: "execute_tool_batch ox tools (tool_calls m) (am_stop_reason m)
      (cf_tool_execution cf) ?st2 = (xs, st3)" by fastforce
  obtain rs st4 where app: "append_results ox xs st3 = (rs, st4)" by fastforce
  let ?st5 = "push ((message_event EventTurnEnd (Assistant m))\<lparr>ev_tool_results := rs\<rparr>) st4"
  have "\<exists>fin. leave_turn ox fin ?st5 = (False, st')"
    using assms(2) ask batch app ok by (auto simp: turn_def Let_def failed_stop_def)
  with left_leave assms(1) have last: "ox_err ox (ls_world ?st5) = None" "left b st' \<le> left b ?st5"
    unfolding countdown_def by blast+
  from last(1) have "0 < left b ?st5" using assms(1) unfolding countdown_def by blast
  moreover have "left b ?st5 \<le> left b st1"
    using left_results [OF _ app, of b] left_batch [OF _ _ batch, of b] assms(1)
    by (auto simp: countdown_def intro: order_trans)
  ultimately show ?thesis using left_stream [OF assms(1) ask ok] last(2) by auto
qed

text \<open>Claim C12. A run ends: if the context has a deadline that every request to the provider
  brings closer, the loop returns after at most that many further turns, whatever the model
  and the tools answer. In particular, a run whose context is already cancelled ends in the
  turn it is in.\<close>

theorem run_terminates:
  assumes "countdown b ox cf tools" and "b w < fuel"
  shows "\<exists>st. run fuel ox cf tools system prompts initial queue w = Some st"
proof -
  have "left b st < n \<Longrightarrow> run_turns n ox cf tools system st \<noteq> None" for n st
  proof (induction n arbitrary: st)
    case 0
    then show ?case by simp
  next
    case (Suc n)
    obtain finished st' where t: "turn ox cf tools system st = (finished, st')" by fastforce
    show ?case
    proof (cases finished)
      case True
      with t show ?thesis by simp
    next
      case False
      with t have "turn ox cf tools system st = (False, st')" by simp
      from turn_continues [OF assms(1) this] have "left b st' < left b st" .
      with Suc t show ?thesis by (cases finished) auto
    qed
  qed
  from this [of "start_run prompts initial queue w" fuel] assms(2) show ?thesis
    by (auto simp: run_def)
qed

section \<open>A concrete run\<close>

definition demo_answer :: "content list \<Rightarrow> stop_reason \<Rightarrow> assistant_message" where
  "demo_answer cs r = (error_message demo_model Canceled 0)
     \<lparr>am_content := cs, am_stop_reason := r, am_error_message := []\<rparr>"

text \<open>The world counts down from 9; the model first calls a tool and then finishes.\<close>

definition demo_ask :: "model \<Rightarrow> ai_context \<Rightarrow> stream_options \<Rightarrow> nat \<Rightarrow> (go_error + response) \<times> nat" where
  "demo_ask m input options n =
     (Inr \<lparr>rp_next = [],
           rp_result = Inr (if n = 9 then demo_answer [Call (new_tool_call ''a'' ''ls'' [])] StopToolUse
                            else demo_answer [new_text ''done''] StopComplete)\<rparr>,
      n - 1)"

definition demo_config :: "nat config" where
  "demo_config =
     \<lparr>cf_provider = Some demo_ask, cf_model = demo_model, cf_stream_options = demo_options,
      cf_tool_execution = ToolExecutionParallel, cf_cache_warming = CacheWarmingOff,
      cf_cache_warmer = False\<rparr>"

definition demo_clock :: "nat outside" where
  "demo_clock = demo_outside\<lparr>ox_err := (\<lambda>n. if n = 0 then Some DeadlineExceeded else None),
     ox_arrivals := (\<lambda>n. (if n = 8 then [User (new_user_message ''also'' 0)] else [], n))\<rparr>"

definition demo_tools :: "nat tool list" where
  "demo_tools = [demo_tool\<lparr>to_execute := \<lambda>c n. (fst (to_execute demo_tool c n), n)\<rparr>]"

definition demo_prompt :: "message list" where
  "demo_prompt = [User (new_user_message ''list'' 0)]"

abbreviation demo_run :: "nat loop_state option" where
  "demo_run \<equiv> run 10 demo_clock demo_config demo_tools [] demo_prompt [] (Some new_steering_queue) 9"

lemma demo_users: "steers_users demo_clock (Some new_steering_queue)"
  by (simp add: steers_users_def demo_clock_def queued_def new_steering_queue_def)

lemma demo_run_returns: "demo_run = Some (the demo_run)"
proof -
  have "demo_run \<noteq> None" by code_simp
  then show ?thesis by simp
qed

theorem run_reports_messages_witness:
  "ls_current (the demo_run) = [] @ ls_new (the demo_run) \<and> length (ls_new (the demo_run)) = 5"
proof -
  have "length (ls_new (the demo_run)) = 5" by code_simp
  with run_reports_messages [OF demo_run_returns] show ?thesis by blast
qed



theorem run_terminates_witness:
  "\<exists>st. run 10 demo_clock demo_config demo_tools [] demo_prompt [] None (9::nat) = Some st"
proof (rule run_terminates [of "\<lambda>n. n"])
  show "countdown (\<lambda>n. n) demo_clock demo_config demo_tools"
    by (auto simp: countdown_def lowers_def demo_clock_def demo_outside_def demo_config_def demo_ask_def
        demo_tools_def)
qed simp

end
