(* ===== verification/Goal.thy ===== *)
theory Goal
  imports Agent_Types
begin

text \<open>
  The persistent goal of \<^verbatim>\<open>src/internal/goal\<close>: its lifecycle (\<^verbatim>\<open>goal.go\<close>), the file it is kept
  in (\<^verbatim>\<open>store.go\<close>) and the tools that expose it (\<^verbatim>\<open>tools.go\<close>). Times are nanoseconds. The file
  system is what the store uses of it: the content of the goal file and of a temporary file
  left beside it; every step of a write may fail, and the process may be killed before any of
  them. The JSON codec is a parameter.
\<close>

section \<open>The goal\<close>

datatype goal_status = StatusActive | StatusPaused | StatusComplete | StatusBlocked | StatusOther string

fun status_text :: "goal_status \<Rightarrow> string" where
  "status_text StatusActive = ''active''"
| "status_text StatusPaused = ''paused''"
| "status_text StatusComplete = ''complete''"
| "status_text StatusBlocked = ''blocked''"
| "status_text (StatusOther s) = s"

definition status_of :: "string \<Rightarrow> goal_status" where
  "status_of s =
     (if s = ''active'' then StatusActive else if s = ''paused'' then StatusPaused
      else if s = ''complete'' then StatusComplete else if s = ''blocked'' then StatusBlocked
      else StatusOther s)"

definition err_no_goal :: go_error where
  "err_no_goal = ErrText ''goal: no current goal''"

definition err_conflict :: go_error where
  "err_conflict = ErrText ''goal: a different non-closed goal already exists''"

definition err_closed :: go_error where
  "err_closed = ErrText ''goal: closed goals cannot be resumed''"

record limits =
  li_token_budget :: int
  li_max_turns :: int
  li_max_duration :: int

record goal_event =
  ge_at :: int
  ge_kind :: string
  ge_detail :: string
  ge_tokens :: int
  ge_turns :: int

record goal =
  go_id :: string
  go_objective :: string
  go_status :: goal_status
  go_created_at :: int
  go_updated_at :: int
  go_active_since :: "int option"
  go_active_duration_ms :: int
  go_token_budget :: int
  go_tokens_used :: int
  go_max_turns :: int
  go_turns_used :: int
  go_max_duration_ms :: int
  go_evidence :: string
  go_blocker :: string
  go_history :: "goal_event list"

definition zero_goal :: goal where
  "zero_goal =
     \<lparr>go_id = [], go_objective = [], go_status = StatusOther [], go_created_at = 0, go_updated_at = 0,
      go_active_since = None, go_active_duration_ms = 0, go_token_budget = 0, go_tokens_used = 0,
      go_max_turns = 0, go_turns_used = 0, go_max_duration_ms = 0, go_evidence = [], go_blocker = [],
      go_history = []\<rparr>"

definition goal_closed :: "goal \<Rightarrow> bool" where
  "goal_closed g \<longleftrightarrow> go_status g = StatusComplete \<or> go_status g = StatusBlocked"

text \<open>\<^verbatim>\<open>time.Time.Sub\<close> saturates; \<^verbatim>\<open>Duration.Milliseconds\<close> truncates.\<close>

definition time_sub :: "int \<Rightarrow> int \<Rightarrow> int" where
  "time_sub a b = max (- (2 ^ 63)) (min (2 ^ 63 - 1) (a - b))"

definition milliseconds :: "int \<Rightarrow> int" where
  "milliseconds d = go_div d 1000000"

definition active_duration :: "goal \<Rightarrow> int \<Rightarrow> int" where
  "active_duration g at_time =
     (let duration = wrap64 (go_active_duration_ms g * 1000000) in
      case go_active_since g of
        Some since \<Rightarrow>
          if go_status g = StatusActive \<and> at_time > since
          then wrap64 (duration + time_sub at_time since) else duration
      | None \<Rightarrow> duration)"

datatype limit_reason = LimitNone | LimitTokens | LimitTurns | LimitDuration

definition limit_reached :: "goal \<Rightarrow> int \<Rightarrow> limit_reason" where
  "limit_reached g at_time =
     (if go_token_budget g > 0 \<and> go_tokens_used g \<ge> go_token_budget g then LimitTokens
      else if go_max_turns g > 0 \<and> go_turns_used g \<ge> go_max_turns g then LimitTurns
      else if go_max_duration_ms g > 0
           \<and> active_duration g at_time \<ge> wrap64 (go_max_duration_ms g * 1000000) then LimitDuration
      else LimitNone)"

definition normalize_objective :: "string \<Rightarrow> go_error + string" where
  "normalize_objective v =
     (let v = trim_space v in
      if v = [] then Inl (ErrText ''goal: objective must not be empty'') else Inr v)"

definition validate_limits :: "limits \<Rightarrow> go_error option" where
  "validate_limits l =
     (if li_token_budget l < 0 \<or> li_max_turns l < 0 \<or> li_max_duration l < 0
      then Some (ErrText ''goal: limits must not be negative'') else None)"

section \<open>The state file\<close>

record disk =
  dk_file :: "string option"
  dk_temp :: "string option"

datatype write_step =
    MkdirStep | CreateTempStep | ChmodStep | WriteStep | SyncStep | CloseStep
  | RenameStep | OpenDirStep | SyncDirStep

text \<open>What becomes of a step: it runs, it fails (a failed write leaves a part of the data), or the
  process is killed before it.\<close>

datatype fate = Runs | Fails go_error nat | Killed_at

text \<open>What one call of the store depends on: the context, the clock at its two readings, the
  fresh identifier, reading and removing the file, the fate of each step of a write, and the
  codec.\<close>

record goal_env =
  en_ctx :: "go_error option"
  en_now :: int
  en_later :: int
  en_id :: "go_error + string"
  en_read :: "go_error option"
  en_remove :: "go_error option"
  en_fate :: "write_step \<Rightarrow> fate"
  en_encode :: "int \<times> goal \<Rightarrow> string option"
  en_decode :: "string \<Rightarrow> (int \<times> goal) option"

datatype 'a reply = Reply 'a "go_error option" | Killed

definition wrap_step :: "write_step \<Rightarrow> go_error \<Rightarrow> go_error" where
  "wrap_step s e =
     Wrap (case s of
         MkdirStep \<Rightarrow> ''goal: create state directory: ''
       | CreateTempStep \<Rightarrow> ''goal: create temporary state: ''
       | ChmodStep \<Rightarrow> ''goal: protect temporary state: ''
       | WriteStep \<Rightarrow> ''goal: write temporary state: ''
       | SyncStep \<Rightarrow> ''goal: sync temporary state: ''
       | CloseStep \<Rightarrow> ''goal: close temporary state: ''
       | RenameStep \<Rightarrow> ''goal: replace state: ''
       | OpenDirStep \<Rightarrow> ''goal: open state directory: ''
       | SyncDirStep \<Rightarrow> ''goal: sync state directory: '') e"

definition write_steps :: "write_step list" where
  "write_steps = [CreateTempStep, ChmodStep, WriteStep, SyncStep, CloseStep,
     RenameStep, OpenDirStep, SyncDirStep]"

definition step_effect :: "string \<Rightarrow> write_step \<Rightarrow> disk \<Rightarrow> disk" where
  "step_effect data s d =
     (case s of
        CreateTempStep \<Rightarrow> d\<lparr>dk_temp := Some []\<rparr>
      | WriteStep \<Rightarrow> d\<lparr>dk_temp := Some data\<rparr>
      | RenameStep \<Rightarrow> \<lparr>dk_file = dk_temp d, dk_temp = None\<rparr>
      | _ \<Rightarrow> d)"

text \<open>An error between the creation of the temporary file and the rename: the deferred removal
  runs; \<^verbatim>\<open>errors.Join\<close> adds the error of closing the file.\<close>

definition join_errors :: "go_error \<Rightarrow> go_error option \<Rightarrow> go_error" where
  "join_errors e e2 =
     (case e2 of None \<Rightarrow> e | Some e' \<Rightarrow> ErrText (err_text e @ [CHR 0x0A] @ err_text e'))"

definition step_error :: "goal_env \<Rightarrow> write_step \<Rightarrow> go_error \<Rightarrow> go_error" where
  "step_error en s e =
     (if s \<in> {ChmodStep, WriteStep, SyncStep}
      then join_errors (wrap_step s e) (case en_fate en CloseStep of Fails e2 _ \<Rightarrow> Some e2 | _ \<Rightarrow> None)
      else wrap_step s e)"

definition partial_write :: "string \<Rightarrow> write_step \<Rightarrow> nat \<Rightarrow> disk \<Rightarrow> disk" where
  "partial_write data s k d = (if s = WriteStep then d\<lparr>dk_temp := Some (take k data)\<rparr> else d)"

definition remove_temp :: "write_step \<Rightarrow> disk \<Rightarrow> disk" where
  "remove_temp s d =
     (if s \<in> {ChmodStep, WriteStep, SyncStep, CloseStep, RenameStep} then d\<lparr>dk_temp := None\<rparr> else d)"

fun write_loop :: "goal_env \<Rightarrow> string \<Rightarrow> write_step list \<Rightarrow> disk \<Rightarrow> unit reply \<times> disk" where
  "write_loop en data [] d = (Reply () None, d)"
| "write_loop en data (s # ss) d =
     (case en_fate en s of
        Runs \<Rightarrow> write_loop en data ss (step_effect data s d)
      | Fails e k \<Rightarrow> (Reply () (Some (step_error en s e)), remove_temp s (partial_write data s k d))
      | Killed_at \<Rightarrow> (Killed, d))"

definition goal_write :: "goal_env \<Rightarrow> goal \<Rightarrow> disk \<Rightarrow> unit reply \<times> disk" where
  "goal_write en g d =
     (case write_loop en [] [MkdirStep] d of
        (Reply _ None, d1) \<Rightarrow>
          (case en_encode en (1, g) of
             None \<Rightarrow> (Reply () (Some (Wrap ''goal: encode: '' (ErrText ''json: unsupported value''))), d1)
           | Some data \<Rightarrow> write_loop en data write_steps d1)
      | other \<Rightarrow> other)"

definition goal_read :: "goal_env \<Rightarrow> disk \<Rightarrow> go_error + goal option" where
  "goal_read en d =
     (case en_read en of
        Some e \<Rightarrow> Inl (Wrap ''goal: read: '' e)
      | None \<Rightarrow>
          (case dk_file d of
             None \<Rightarrow> Inr None
           | Some data \<Rightarrow>
               (case en_decode en data of
                  None \<Rightarrow> Inl (Wrap ''goal: decode: '' (ErrText ''invalid JSON''))
                | Some (version, g) \<Rightarrow>
                    if version \<noteq> 1 \<or> go_id g = [] then Inl (ErrText ''goal: invalid state file'')
                    else Inr (Some g))))"

section \<open>The operations of the store\<close>

record create_result =
  cr_goal :: goal
  cr_reused :: bool

definition new_goal :: "string \<Rightarrow> string \<Rightarrow> limits \<Rightarrow> int \<Rightarrow> goal" where
  "new_goal ident objective l now =
     zero_goal\<lparr>go_id := ident, go_objective := objective, go_status := StatusActive,
       go_created_at := now, go_updated_at := now, go_active_since := Some now,
       go_token_budget := li_token_budget l, go_max_turns := li_max_turns l,
       go_max_duration_ms := milliseconds (li_max_duration l),
       go_history := [\<lparr>ge_at = now, ge_kind = ''created'', ge_detail = [], ge_tokens = 0, ge_turns = 0\<rparr>]\<rparr>"

definition create :: "goal_env \<Rightarrow> string \<Rightarrow> limits \<Rightarrow> disk \<Rightarrow> create_result reply \<times> disk" where
  "create en objective l d =
     (let none = \<lparr>cr_goal = zero_goal, cr_reused = False\<rparr> in
      case normalize_objective objective of
        Inl e \<Rightarrow> (Reply none (Some e), d)
      | Inr objective \<Rightarrow>
      case validate_limits l of
        Some e \<Rightarrow> (Reply none (Some e), d)
      | None \<Rightarrow>
      case en_ctx en of
        Some e \<Rightarrow> (Reply none (Some e), d)
      | None \<Rightarrow>
      case goal_read en d of
        Inl e \<Rightarrow> (Reply none (Some e), d)
      | Inr current \<Rightarrow>
      (case filter (\<lambda>g. \<not> goal_closed g) (case current of None \<Rightarrow> [] | Some g \<Rightarrow> [g]) of
         g # _ \<Rightarrow>
           if go_objective g = objective then (Reply \<lparr>cr_goal = g, cr_reused = True\<rparr> None, d)
           else (Reply \<lparr>cr_goal = g, cr_reused = False\<rparr> (Some err_conflict), d)
       | [] \<Rightarrow>
           (case en_id en of
              Inl e \<Rightarrow> (Reply none (Some (Wrap ''goal: generate id: '' e)), d)
            | Inr ident \<Rightarrow>
                let g = new_goal (''goal_'' @ ident) objective l (en_now en) in
                case goal_write en g d of
                  (Killed, d') \<Rightarrow> (Killed, d')
                | (Reply _ (Some e), d') \<Rightarrow> (Reply none (Some e), d')
                | (Reply _ None, d') \<Rightarrow> (Reply \<lparr>cr_goal = g, cr_reused = False\<rparr> None, d'))))"

definition get :: "goal_env \<Rightarrow> disk \<Rightarrow> goal reply \<times> disk" where
  "get en d =
     (case en_ctx en of
        Some e \<Rightarrow> (Reply zero_goal (Some e), d)
      | None \<Rightarrow>
          (case goal_read en d of
             Inl e \<Rightarrow> (Reply zero_goal (Some e), d)
           | Inr None \<Rightarrow> (Reply zero_goal (Some err_no_goal), d)
           | Inr (Some g) \<Rightarrow> (Reply g None, d)))"

definition max_goal_history :: nat where
  "max_goal_history = 500"

definition trim_history :: "goal \<Rightarrow> goal" where
  "trim_history g =
     (if length (go_history g) > max_goal_history
      then g\<lparr>go_history := last_n max_goal_history (go_history g)\<rparr> else g)"

definition freeze_active_duration :: "goal \<Rightarrow> int \<Rightarrow> goal" where
  "freeze_active_duration g now =
     (case go_active_since g of
        None \<Rightarrow> g
      | Some since \<Rightarrow>
          if go_status g \<noteq> StatusActive then g
          else
            (if now > since
             then g\<lparr>go_active_duration_ms :=
                      wrap64 (go_active_duration_ms g + milliseconds (time_sub now since))\<rparr>
             else g)\<lparr>go_active_since := None\<rparr>)"

definition mutate :: "goal_env \<Rightarrow> (goal \<Rightarrow> int \<Rightarrow> go_error + goal) \<Rightarrow> disk \<Rightarrow> goal reply \<times> disk" where
  "mutate en change d =
     (case en_ctx en of
        Some e \<Rightarrow> (Reply zero_goal (Some e), d)
      | None \<Rightarrow>
      case goal_read en d of
        Inl e \<Rightarrow> (Reply zero_goal (Some e), d)
      | Inr None \<Rightarrow> (Reply zero_goal (Some err_no_goal), d)
      | Inr (Some g) \<Rightarrow>
      case change g (en_now en) of
        Inl e \<Rightarrow> (Reply zero_goal (Some e), d)
      | Inr g' \<Rightarrow>
          let g'' = trim_history (g'\<lparr>go_updated_at := en_now en\<rparr>) in
          case goal_write en g'' d of
            (Killed, d') \<Rightarrow> (Killed, d')
          | (Reply _ (Some e), d') \<Rightarrow> (Reply zero_goal (Some e), d')
          | (Reply _ None, d') \<Rightarrow> (Reply g'' None, d'))"

record patch =
  pa_objective :: "string option"
  pa_status :: "goal_status option"
  pa_detail :: string

definition add_event :: "goal_event \<Rightarrow> goal \<Rightarrow> goal" where
  "add_event e g = g\<lparr>go_history := go_history g @ [e]\<rparr>"

text \<open>The change of \<^verbatim>\<open>Update\<close>: \<open>objective\<close> and \<open>detail\<close> are already trimmed.\<close>

definition apply_status :: "goal_status \<Rightarrow> string \<Rightarrow> goal \<Rightarrow> int \<Rightarrow> goal" where
  "apply_status s detail g now =
     (let g1 = (case s of
            StatusActive \<Rightarrow>
              (if go_status g = StatusPaused then g\<lparr>go_active_since := Some now\<rparr> else g)
                \<lparr>go_blocker := []\<rparr>
          | StatusPaused \<Rightarrow> freeze_active_duration g now
          | StatusComplete \<Rightarrow> (freeze_active_duration g now)\<lparr>go_evidence := detail\<rparr>
          | StatusBlocked \<Rightarrow> (freeze_active_duration g now)\<lparr>go_blocker := detail\<rparr>
          | StatusOther _ \<Rightarrow> g)
      in add_event \<lparr>ge_at = now, ge_kind = ''status_'' @ status_text s, ge_detail = detail,
                    ge_tokens = 0, ge_turns = 0\<rparr> (g1\<lparr>go_status := s\<rparr>))"

definition update_change ::
  "string option \<Rightarrow> goal_status option \<Rightarrow> string \<Rightarrow> goal \<Rightarrow> int \<Rightarrow> go_error + goal" where
  "update_change objective status detail g now =
     (if goal_closed g then Inl err_closed
      else
        let g1 = (case objective of
               None \<Rightarrow> g
             | Some v \<Rightarrow> add_event \<lparr>ge_at = now, ge_kind = ''objective_updated'', ge_detail = v,
                                     ge_tokens = 0, ge_turns = 0\<rparr> (g\<lparr>go_objective := v\<rparr>))
        in Inr (case status of None \<Rightarrow> g1 | Some s \<Rightarrow> apply_status s detail g1 now))"

definition check_status :: "goal_status option \<Rightarrow> string \<Rightarrow> go_error option" where
  "check_status status detail =
     (case status of
        Some StatusComplete \<Rightarrow>
          if detail = [] then Some (ErrText ''goal: completion evidence is required'') else None
      | Some StatusBlocked \<Rightarrow>
          if detail = [] then Some (ErrText ''goal: blocker is required'') else None
      | Some (StatusOther s) \<Rightarrow> Some (ErrText (''goal: invalid status '' @ quote s))
      | _ \<Rightarrow> None)"

definition update :: "goal_env \<Rightarrow> patch \<Rightarrow> disk \<Rightarrow> goal reply \<times> disk" where
  "update en p d =
     (if pa_objective p = None \<and> pa_status p = None
      then (Reply zero_goal (Some (ErrText ''goal: update requires an objective or status'')), d)
      else
        case (case pa_objective p of
                None \<Rightarrow> Inr None
              | Some v \<Rightarrow> (case normalize_objective v of Inl e \<Rightarrow> Inl e | Inr v' \<Rightarrow> Inr (Some v'))) of
          Inl e \<Rightarrow> (Reply zero_goal (Some e), d)
        | Inr objective \<Rightarrow>
            let detail = trim_space (pa_detail p) in
            case check_status (pa_status p) detail of
              Some e \<Rightarrow> (Reply zero_goal (Some e), d)
            | None \<Rightarrow> mutate en (update_change objective (pa_status p) detail) d)"

definition update_objective :: "goal_env \<Rightarrow> string \<Rightarrow> disk \<Rightarrow> goal reply \<times> disk" where
  "update_objective en objective d =
     update en \<lparr>pa_objective = Some objective, pa_status = None, pa_detail = []\<rparr> d"

definition set_status :: "goal_env \<Rightarrow> goal_status \<Rightarrow> string \<Rightarrow> disk \<Rightarrow> goal reply \<times> disk" where
  "set_status en s detail d = update en \<lparr>pa_objective = None, pa_status = Some s, pa_detail = detail\<rparr> d"

definition turn_change :: "int \<Rightarrow> goal \<Rightarrow> int \<Rightarrow> go_error + goal" where
  "turn_change tokens g now =
     (if go_status g \<noteq> StatusActive
      then Inl (ErrText (''goal: cannot record a turn while '' @ status_text (go_status g)))
      else Inr (add_event \<lparr>ge_at = now, ge_kind = ''turn'', ge_detail = [], ge_tokens = tokens, ge_turns = 1\<rparr>
             (g\<lparr>go_turns_used := wrap64 (go_turns_used g + 1),
                go_tokens_used := wrap64 (go_tokens_used g + tokens)\<rparr>)))"

definition record_turn :: "goal_env \<Rightarrow> int \<Rightarrow> disk \<Rightarrow> (goal \<times> limit_reason) reply \<times> disk" where
  "record_turn en tokens d =
     (if tokens < 0
      then (Reply (zero_goal, LimitNone) (Some (ErrText ''goal: token usage must not be negative'')), d)
      else case mutate en (turn_change tokens) d of
        (Killed, d') \<Rightarrow> (Killed, d')
      | (Reply g (Some e), d') \<Rightarrow> (Reply (zero_goal, LimitNone) (Some e), d')
      | (Reply g None, d') \<Rightarrow> (Reply (g, limit_reached g (en_later en)) None, d'))"

definition clear :: "goal_env \<Rightarrow> disk \<Rightarrow> unit reply \<times> disk" where
  "clear en d =
     (case en_ctx en of
        Some e \<Rightarrow> (Reply () (Some e), d)
      | None \<Rightarrow>
          (if dk_file d = None then (Reply () None, d)
           else case en_remove en of
             Some e \<Rightarrow> (Reply () (Some (Wrap ''goal: clear: '' e)), d)
           | None \<Rightarrow> (Reply () None, d\<lparr>dk_file := None\<rparr>)))"

section \<open>The tools\<close>

datatype goal_value = ValCreate create_result | ValGoal goal | ValCleared

text \<open>\<^verbatim>\<open>strconv.ParseInt(s, 10, 64)\<close>, which \<^verbatim>\<open>json.Number.Int64\<close> calls.\<close>

definition digit_val :: "char \<Rightarrow> nat option" where
  "digit_val c = (if 48 \<le> (of_char c :: nat) \<and> of_char c \<le> (57 :: nat) then Some (of_char c - 48) else None)"

fun parse_digits :: "int \<Rightarrow> string \<Rightarrow> int option" where
  "parse_digits acc [] = Some acc"
| "parse_digits acc (c # cs) =
     (case digit_val c of None \<Rightarrow> None | Some d \<Rightarrow> parse_digits (acc * 10 + int d) cs)"

definition parse_int64 :: "string \<Rightarrow> int option" where
  "parse_int64 s =
     (let (neg, ds) = (case s of
            c # cs \<Rightarrow> if c = CHR ''-'' then (True, cs) else if c = CHR ''+'' then (False, cs) else (False, s)
          | [] \<Rightarrow> (False, []))
      in if ds = [] then None
         else case parse_digits 0 ds of
             None \<Rightarrow> None
           | Some v \<Rightarrow> (let i = (if neg then - v else v) in if in_int64 i then Some i else None))"

definition integer_argument :: "arguments \<Rightarrow> string \<Rightarrow> go_error + int" where
  "integer_argument args name =
     (let bad = Inl (ErrText (''goal: '' @ name @ '' must be an integer'')) in
      case map_of args name of
        None \<Rightarrow> Inr 0
      | Some JNull \<Rightarrow> Inr 0
      | Some (JInt i) \<Rightarrow> Inr i
      | Some (JInt64 i) \<Rightarrow> Inr i
      | Some (JFloat (Finite q)) \<Rightarrow>
          if of_int \<lfloor>q\<rfloor> \<noteq> q \<or> q < - (2 ^ 63) \<or> q \<ge> 2 ^ 63 then bad else Inr \<lfloor>q\<rfloor>
      | Some (JNumber s) \<Rightarrow> (case parse_int64 s of None \<Rightarrow> bad | Some i \<Rightarrow> Inr i)
      | _ \<Rightarrow> bad)"

definition string_argument :: "arguments \<Rightarrow> string \<Rightarrow> go_error + string option" where
  "string_argument args name =
     (case map_of args name of
        None \<Rightarrow> Inr None
      | Some (JString s) \<Rightarrow> Inr (Some s)
      | _ \<Rightarrow> Inl (ErrText (''goal: '' @ name @ '' must be a string'')))"

definition second_ns :: int where
  "second_ns = 1000000000"

text \<open>The limits of \<^verbatim>\<open>create_goal\<close>: the product with \<^verbatim>\<open>time.Second\<close> is one of 64-bit integers.\<close>

definition tool_limits :: "arguments \<Rightarrow> go_error + limits" where
  "tool_limits args =
     (case integer_argument args ''tokenBudget'' of Inl e \<Rightarrow> Inl e
      | Inr tokens \<Rightarrow>
      case integer_argument args ''maxTurns'' of Inl e \<Rightarrow> Inl e
      | Inr turns \<Rightarrow>
      case integer_argument args ''maxDurationSeconds'' of Inl e \<Rightarrow> Inl e
      | Inr seconds \<Rightarrow>
          Inr \<lparr>li_token_budget = tokens, li_max_turns = turns,
               li_max_duration = wrap64 (seconds * second_ns)\<rparr>)"

fun fmap_reply :: "('a \<Rightarrow> 'b) \<Rightarrow> 'a reply \<times> disk \<Rightarrow> 'b option reply \<times> disk" where
  "fmap_reply f (Reply x None, d) = (Reply (Some (f x)) None, d)"
| "fmap_reply f (Reply x (Some e), d) = (Reply None (Some e), d)"
| "fmap_reply f (Killed, d) = (Killed, d)"

text \<open>\<open>goal_execute\<close>: what \<^verbatim>\<open>Execute\<close> computes before its value is rendered as JSON; \<open>has_store\<close>
  is the test of a nil store.\<close>

definition goal_execute ::
  "goal_env \<Rightarrow> bool \<Rightarrow> string \<Rightarrow> arguments \<Rightarrow> disk \<Rightarrow> goal_value option reply \<times> disk" where
  "goal_execute en has_store name args d =
     (let fail = (\<lambda>e. (Reply None (Some e), d)) in
      if \<not> has_store then fail (ErrText ''goal: store is nil'')
      else if name = ''create_goal'' then
        (case map_of args ''objective'' of
           Some (JString objective) \<Rightarrow>
             (case tool_limits args of
                Inl e \<Rightarrow> fail e
              | Inr l \<Rightarrow> fmap_reply ValCreate (create en objective l d))
         | _ \<Rightarrow> fail (ErrText ''goal: objective must be a string''))
      else if name = ''get_goal'' then fmap_reply ValGoal (get en d)
      else if name = ''update_goal'' then
        (case string_argument args ''objective'' of Inl e \<Rightarrow> fail e
         | Inr objective \<Rightarrow>
         case string_argument args ''status'' of Inl e \<Rightarrow> fail e
         | Inr status \<Rightarrow>
         case string_argument args ''detail'' of Inl e \<Rightarrow> fail e
         | Inr detail \<Rightarrow>
             fmap_reply ValGoal (update en
               \<lparr>pa_objective = objective, pa_status = map_option status_of status,
                pa_detail = (case detail of None \<Rightarrow> [] | Some s \<Rightarrow> s)\<rparr> d))
      else if name = ''clear_goal'' then fmap_reply (\<lambda>_. ValCleared) (clear en d)
      else fail (ErrText (''goal: unsupported tool '' @ quote name)))"

end
