(* ===== verification/Goal_Facts.thy ===== *)
theory Goal_Facts
  imports Goal
begin

text \<open>
  The goal store is correct: what its file holds after any sequence of calls, with any of
  their steps failing or the process killed; the lifecycle of a goal; how its active time is
  counted.
\<close>

section \<open>Calls\<close>

definition codec_ok :: "goal_env \<Rightarrow> bool" where
  "codec_ok en \<longleftrightarrow> (\<forall>x s. en_encode en x = Some s \<longrightarrow> en_decode en s = Some x)"

definition stored :: "goal_env \<Rightarrow> disk \<Rightarrow> (int \<times> goal) option" where
  "stored en d = (case dk_file d of None \<Rightarrow> None | Some data \<Rightarrow> en_decode en data)"

datatype goal_call =
  CallCreate string limits | CallGet | CallUpdate patch | CallTurn int | CallClear

fun exec :: "goal_env \<Rightarrow> goal_call \<Rightarrow> disk \<Rightarrow> goal option reply \<times> disk" where
  "exec en (CallCreate objective l) d = fmap_reply cr_goal (create en objective l d)"
| "exec en CallGet d = fmap_reply (\<lambda>g. g) (get en d)"
| "exec en (CallUpdate p) d = fmap_reply (\<lambda>g. g) (update en p d)"
| "exec en (CallTurn tokens) d = fmap_reply fst (record_turn en tokens d)"
| "exec en CallClear d = fmap_reply (\<lambda>_. zero_goal) (clear en d)"

section \<open>Writing\<close>

lemma goal_write_cases:
  assumes "goal_write en g d = (r, d')"
  shows "dk_file d' = dk_file d \<and> r \<noteq> Reply () None
      \<or> (\<exists>data. en_encode en (1, g) = Some data \<and> dk_file d' = Some data)"
    and "r \<noteq> Killed \<Longrightarrow> dk_temp d = None \<Longrightarrow> dk_temp d' = None"
  using assms
  by (auto simp: goal_write_def write_steps_def step_effect_def remove_temp_def partial_write_def
      split: option.splits fate.splits reply.splits prod.splits if_splits)

lemma stored_write:
  assumes "goal_write en g d = (r, d')" and "codec_ok en"
  shows "dk_file d' = dk_file d \<and> r \<noteq> Reply () None \<or> stored en d' = Some (1, g)"
  using goal_write_cases(1) [OF assms(1)] assms(2) by (auto simp: stored_def codec_ok_def)

lemma goal_read_stored: "goal_read en d = Inr (Some g) \<Longrightarrow> stored en d = Some (1, g) \<and> go_id g \<noteq> []"
  by (auto simp: goal_read_def stored_def split: option.splits prod.splits if_splits)

lemma goal_read_none: "goal_read en d = Inr None \<Longrightarrow> dk_file d = None"
  by (auto simp: goal_read_def split: option.splits prod.splits if_splits)

text \<open>What a mutation does to the file: nothing, or the change of the goal that was there.\<close>

lemma mutate_cases:
  assumes "mutate en change d = (r, d')" and "codec_ok en"
  obtains (same) "dk_file d' = dk_file d" "\<And>g. r \<noteq> Reply g None"
  | (changed) g g' where "stored en d = Some (1, g)" "go_id g \<noteq> []" "change g (en_now en) = Inr g'"
      "stored en d' = Some (1, trim_history (g'\<lparr>go_updated_at := en_now en\<rparr>))"
      "\<And>x. r = Reply x None \<Longrightarrow> x = trim_history (g'\<lparr>go_updated_at := en_now en\<rparr>)"
proof -
  consider (err) "d' = d" "\<And>g. r \<noteq> Reply g None"
    | (written) g g' r1 where "goal_read en d = Inr (Some g)" "change g (en_now en) = Inr g'"
      "goal_write en (trim_history (g'\<lparr>go_updated_at := en_now en\<rparr>)) d = (r1, d')"
      "\<And>x. r = Reply x None \<Longrightarrow> r1 = Reply () None \<and> x = trim_history (g'\<lparr>go_updated_at := en_now en\<rparr>)"
    using assms(1) by (auto simp: mutate_def Let_def split: option.splits sum.splits reply.splits prod.splits)
  then show thesis
  proof cases
    case err
    then show thesis by (intro same) auto
  next
    case written
    from stored_write [OF written(3) assms(2)] show thesis
    proof
      assume "dk_file d' = dk_file d \<and> r1 \<noteq> Reply () None"
      with written(4) show thesis by (intro same) blast+
    next
      assume "stored en d' = Some (1, trim_history (g'\<lparr>go_updated_at := en_now en\<rparr>))"
      with goal_read_stored [OF written(1)] written(2,4) show thesis by (intro changed) blast+
    qed
  qed
qed

lemma mutate_temp:
  "mutate en change d = (r, d') \<Longrightarrow> r \<noteq> Killed \<Longrightarrow> dk_temp d = None \<Longrightarrow> dk_temp d' = None"
  by (auto simp: mutate_def Let_def split: option.splits sum.splits reply.splits prod.splits
      dest!: goal_write_cases(2))

section \<open>The lifecycle\<close>

text \<open>One step of the stored goal. \<open>created\<close> needs no goal or a closed one.\<close>

inductive goal_step :: "goal option \<Rightarrow> goal option \<Rightarrow> bool" where
  stays: "goal_step x x"
| created: "(case x of None \<Rightarrow> True | Some g \<Rightarrow> goal_closed g) \<Longrightarrow> normalize_objective v = Inr objective \<Longrightarrow>
    validate_limits l = None \<Longrightarrow> ident \<noteq> [] \<Longrightarrow> goal_step x (Some (new_goal ident objective l now))"
| updated: "go_id g \<noteq> [] \<Longrightarrow> update_change objective status detail g now = Inr g' \<Longrightarrow>
    check_status status detail = None \<Longrightarrow>
    (\<And>v. objective = Some v \<Longrightarrow> v \<noteq> [] \<and> trim_space v = v) \<Longrightarrow>
    goal_step (Some g) (Some (trim_history (g'\<lparr>go_updated_at := now\<rparr>)))"
| turned: "go_id g \<noteq> [] \<Longrightarrow> turn_change tokens g now = Inr g' \<Longrightarrow>
    goal_step (Some g) (Some (trim_history (g'\<lparr>go_updated_at := now\<rparr>)))"
| cleared: "goal_step x None"

inductive_simps goal_step_none: "goal_step None None"

definition stored_goal :: "goal_env \<Rightarrow> disk \<Rightarrow> goal option" where
  "stored_goal en d = map_option snd (stored en d)"

definition version_one :: "goal_env \<Rightarrow> disk \<Rightarrow> bool" where
  "version_one en d \<longleftrightarrow> (case dk_file d of None \<Rightarrow> True | Some data \<Rightarrow> \<exists>g. en_decode en data = Some (1, g))"

lemma stored_same: "dk_file d' = dk_file d \<Longrightarrow>
    stored en d' = stored en d \<and> stored_goal en d' = stored_goal en d \<and> version_one en d' = version_one en d"
  by (simp add: stored_def stored_goal_def version_one_def)

lemma stored_one: "stored en d = Some (1, g) \<Longrightarrow> version_one en d \<and> stored_goal en d = Some g"
  by (auto simp: version_one_def stored_def stored_goal_def split: option.splits)

lemma normalized: "normalize_objective v = Inr w \<Longrightarrow> w \<noteq> [] \<and> trim_space w = w"
  by (auto simp: normalize_objective_def Let_def split: if_splits)

lemma fmap_reply_disk: "fmap_reply f (r, d) = (r', d') \<Longrightarrow> d' = d"
  by (cases "(f, (r, d))" rule: fmap_reply.cases) auto

lemma fmap_reply_outcome:
  assumes "(r, d') = fmap_reply f (r1, d1)"
  shows "(r = Killed \<longleftrightarrow> r1 = Killed) \<and> (\<forall>g. r = Reply (Some g) None \<longrightarrow> (\<exists>x. r1 = Reply x None \<and> g = f x))"
proof (cases r1)
  case (Reply x e)
  with assms show ?thesis by (cases e) auto
next
  case Killed
  with assms show ?thesis by simp
qed

lemma create_step:
  assumes "create en v l d = (r, d')" and "codec_ok en"
  shows "dk_file d' = dk_file d \<or>
    (\<exists>g. stored en d' = Some (1, g) \<and> goal_step (stored_goal en d) (Some g)
       \<and> (\<forall>c. r = Reply c None \<longrightarrow> cr_goal c = g))"
proof (cases "dk_file d' = dk_file d")
  case True
  then show ?thesis by simp
next
  case ne: False
  then obtain objective current ident r1 where o: "normalize_objective v = Inr objective"
    and l: "validate_limits l = None" and rd: "goal_read en d = Inr current"
    and none: "filter (\<lambda>g. \<not> goal_closed g) (case current of None \<Rightarrow> [] | Some g \<Rightarrow> [g]) = []"
    and w: "goal_write en (new_goal (''goal_'' @ ident) objective l (en_now en)) d = (r1, d')"
    and r: "\<And>c. r = Reply c None \<Longrightarrow> cr_goal c = new_goal (''goal_'' @ ident) objective l (en_now en)"
    using assms(1)
    by (auto simp: create_def Let_def split: sum.splits option.splits list.splits if_splits
        prod.splits reply.splits)
  have "stored_goal en d = current \<and> (case current of None \<Rightarrow> True | Some g \<Rightarrow> goal_closed g)"
  proof (cases current)
    case None
    with rd goal_read_none [of en d] show ?thesis by (simp add: stored_goal_def stored_def)
  next
    case (Some g)
    with rd goal_read_stored [of en d g] none show ?thesis
      by (auto simp: stored_goal_def split: if_splits)
  qed
  with o l have "goal_step (stored_goal en d)
      (Some (new_goal (''goal_'' @ ident) objective l (en_now en)))"
    by (intro created) auto
  with stored_write [OF w assms(2)] ne r show ?thesis by blast
qed

lemma update_step:
  assumes "update en p d = (r, d')" and "codec_ok en"
  shows "dk_file d' = dk_file d \<and> (\<forall>x. r \<noteq> Reply x None) \<or>
    (\<exists>g. stored en d' = Some (1, g) \<and> goal_step (stored_goal en d) (Some g)
       \<and> (\<forall>x. r = Reply x None \<longrightarrow> x = g))"
proof -
  consider (err) "d' = d" "\<forall>x. r \<noteq> Reply x None"
    | (run) objective where "mutate en (update_change objective (pa_status p) (trim_space (pa_detail p))) d = (r, d')"
      "check_status (pa_status p) (trim_space (pa_detail p)) = None"
      "\<And>v. objective = Some v \<Longrightarrow> v \<noteq> [] \<and> trim_space v = v"
    using assms(1) normalized
    by (auto simp: update_def Let_def split: if_splits option.splits sum.splits)
  then show ?thesis
  proof cases
    case err
    then show ?thesis by simp
  next
    case run
    from run(1) assms(2) show ?thesis
    proof (cases rule: mutate_cases)
      case same
      then show ?thesis by simp
    next
      case (changed g g')
      then have "stored_goal en d = Some g" using stored_one by blast
      with updated [OF changed(2) changed(3) run(2,3)] changed show ?thesis by auto
    qed
  qed
qed

lemma turn_step:
  assumes "record_turn en tokens d = (r, d')" and "codec_ok en"
  shows "dk_file d' = dk_file d \<and> (\<forall>x. r \<noteq> Reply x None) \<or>
    (\<exists>g. stored en d' = Some (1, g) \<and> goal_step (stored_goal en d) (Some g)
       \<and> (\<forall>x. r = Reply x None \<longrightarrow> fst x = g))"
proof (cases "tokens < 0")
  case True
  with assms(1) show ?thesis by (auto simp: record_turn_def)
next
  case False
  obtain r1 where m: "mutate en (turn_change tokens) d = (r1, d')"
    and r: "\<And>x. r = Reply x None \<Longrightarrow> r1 = Reply (fst x) None"
    using assms(1) False
    by (auto simp: record_turn_def split: prod.splits reply.splits option.splits)
  from m assms(2) show ?thesis
  proof (cases rule: mutate_cases)
    case same
    with r show ?thesis by blast
  next
    case (changed g g')
    then have "stored_goal en d = Some g" using stored_one by blast
    with turned [OF changed(2,3)] changed r show ?thesis by auto
  qed
qed

lemma exec_step:
  assumes "exec en c d = (r, d')" and "codec_ok en" and "version_one en d"
  shows "goal_step (stored_goal en d) (stored_goal en d') \<and> version_one en d'"
proof -
  have same: "?thesis" if "dk_file d' = dk_file d"
    using stored_same [OF that] assms(3) by (simp add: stays)
  have one: "?thesis" if "stored en d' = Some (1, g)" "goal_step (stored_goal en d) (Some g)" for g
    using stored_one [OF that(1)] that(2) by simp
  show ?thesis
  proof (cases c)
    case (CallCreate v l)
    with assms(1) obtain r1 where "create en v l d = (r1, d')"
      by (metis exec.simps(1) fmap_reply_disk prod.exhaust)
    from create_step [OF this assms(2)] same one show ?thesis by blast
  next
    case CallGet
    then have "d' = d" using assms(1)
      by (auto simp: get_def split: option.splits sum.splits)
    with same show ?thesis by simp
  next
    case (CallUpdate p)
    with assms(1) obtain r1 where "update en p d = (r1, d')"
      by (metis exec.simps(3) fmap_reply_disk prod.exhaust)
    from update_step [OF this assms(2)] same one show ?thesis by blast
  next
    case (CallTurn tokens)
    with assms(1) obtain r1 where "record_turn en tokens d = (r1, d')"
      by (metis exec.simps(4) fmap_reply_disk prod.exhaust)
    from turn_step [OF this assms(2)] same one show ?thesis by blast
  next
    case CallClear
    then have "dk_file d' = dk_file d \<or> dk_file d' = None" using assms(1)
      by (auto simp: clear_def split: option.splits if_splits)
    then show ?thesis using same by (auto simp: stored_goal_def stored_def version_one_def cleared)
  qed
qed

section \<open>Every reachable goal is well formed\<close>

definition wf_goal :: "goal \<Rightarrow> bool" where
  "wf_goal g \<longleftrightarrow>
     go_id g \<noteq> [] \<and> go_objective g \<noteq> [] \<and> trim_space (go_objective g) = go_objective g
     \<and> go_status g \<in> {StatusActive, StatusPaused, StatusComplete, StatusBlocked}
     \<and> (go_status g = StatusActive \<longleftrightarrow> go_active_since g \<noteq> None)
     \<and> (go_status g = StatusComplete \<longrightarrow> go_evidence g \<noteq> [])
     \<and> (go_status g = StatusBlocked \<longrightarrow> go_blocker g \<noteq> [])
     \<and> length (go_history g) \<le> max_goal_history
     \<and> 0 \<le> go_token_budget g \<and> 0 \<le> go_max_turns g \<and> 0 \<le> go_max_duration_ms g"

lemma trim_history_simps [simp]:
  "go_id (trim_history g) = go_id g" "go_objective (trim_history g) = go_objective g"
  "go_status (trim_history g) = go_status g" "go_active_since (trim_history g) = go_active_since g"
  "go_evidence (trim_history g) = go_evidence g" "go_blocker (trim_history g) = go_blocker g"
  "go_token_budget (trim_history g) = go_token_budget g" "go_max_turns (trim_history g) = go_max_turns g"
  "go_max_duration_ms (trim_history g) = go_max_duration_ms g"
  "length (go_history (trim_history g)) \<le> max_goal_history"
  by (simp_all add: trim_history_def)

lemma freeze_simps [simp]:
  "go_id (freeze_active_duration g now) = go_id g"
  "go_objective (freeze_active_duration g now) = go_objective g"
  "go_status (freeze_active_duration g now) = go_status g"
  "go_evidence (freeze_active_duration g now) = go_evidence g"
  "go_blocker (freeze_active_duration g now) = go_blocker g"
  "go_token_budget (freeze_active_duration g now) = go_token_budget g"
  "go_max_turns (freeze_active_duration g now) = go_max_turns g"
  "go_max_duration_ms (freeze_active_duration g now) = go_max_duration_ms g"
  "go_active_since (freeze_active_duration g now)
     = (if go_status g = StatusActive then None else go_active_since g)"
  by (auto simp: freeze_active_duration_def split: option.splits)

lemma add_event_simps [simp]:
  "go_id (add_event e g) = go_id g" "go_objective (add_event e g) = go_objective g"
  "go_status (add_event e g) = go_status g" "go_active_since (add_event e g) = go_active_since g"
  "go_evidence (add_event e g) = go_evidence g" "go_blocker (add_event e g) = go_blocker g"
  "go_token_budget (add_event e g) = go_token_budget g" "go_max_turns (add_event e g) = go_max_turns g"
  "go_max_duration_ms (add_event e g) = go_max_duration_ms g"
  by (simp_all add: add_event_def)

lemma new_goal_wf:
  "normalize_objective v = Inr objective \<Longrightarrow> validate_limits l = None \<Longrightarrow> ident \<noteq> [] \<Longrightarrow>
     wf_goal (new_goal ident objective l now)"
  using normalized [of v objective]
  by (auto simp: wf_goal_def new_goal_def zero_goal_def max_goal_history_def validate_limits_def
      milliseconds_def pos_imp_zdiv_nonneg_iff split: if_splits)

lemma apply_status_wf:
  assumes "wf_goal g" and "\<not> goal_closed g" and "check_status (Some s) detail = None"
  shows "wf_goal (trim_history ((apply_status s detail g now)\<lparr>go_updated_at := now'\<rparr>))"
  using assms
  by (cases s) (auto simp: wf_goal_def apply_status_def goal_closed_def check_status_def Let_def
      split: if_splits)

lemma goal_step_wf:
  "goal_step x y \<Longrightarrow> (\<And>g. x = Some g \<Longrightarrow> wf_goal g) \<Longrightarrow> y = Some g' \<Longrightarrow> wf_goal g'"
proof (induction rule: goal_step.induct)
  case (created x v objective l ident now)
  then show ?case by (auto intro: new_goal_wf)
next
  case (updated g objective status detail now g1)
  define g2 where "g2 = (case objective of None \<Rightarrow> g
      | Some v \<Rightarrow> add_event \<lparr>ge_at = now, ge_kind = ''objective_updated'', ge_detail = v,
                              ge_tokens = 0, ge_turns = 0\<rparr> (g\<lparr>go_objective := v\<rparr>))"
  from updated have open_goal: "\<not> goal_closed g" and wf: "wf_goal g"
    by (auto simp: update_change_def split: if_splits)
  have g1: "g1 = (case status of None \<Rightarrow> g2 | Some s \<Rightarrow> apply_status s detail g2 now)"
    using updated(2) open_goal
    by (cases objective; cases status) (simp_all add: g2_def update_change_def)
  have wf2: "wf_goal (trim_history (g2\<lparr>go_updated_at := now\<rparr>))" and "\<not> goal_closed g2"
    using wf open_goal updated(4) by (auto simp: g2_def wf_goal_def goal_closed_def split: option.splits)
  show ?case
  proof (cases status)
    case None
    with wf2 g1 updated(6) show ?thesis by simp
  next
    case (Some s)
    have "wf_goal (g2\<lparr>go_history := []\<rparr>)"
      using wf updated(4) by (auto simp: g2_def wf_goal_def add_event_def split: option.splits)
    from apply_status_wf [OF this, of s detail now now] Some updated(3) \<open>\<not> goal_closed g2\<close>
    have "wf_goal (trim_history ((apply_status s detail (g2\<lparr>go_history := []\<rparr>) now)\<lparr>go_updated_at := now\<rparr>))"
      by (simp add: goal_closed_def)
    then have "wf_goal (trim_history ((apply_status s detail g2 now)\<lparr>go_updated_at := now\<rparr>))"
      by (cases s) (auto simp: wf_goal_def apply_status_def Let_def split: if_splits)
    with Some g1 updated(6) show ?thesis by simp
  qed
next
  case (turned g tokens now g1)
  then have "wf_goal g" by blast
  moreover have "g1 = add_event \<lparr>ge_at = now, ge_kind = ''turn'', ge_detail = [], ge_tokens = tokens,
      ge_turns = 1\<rparr> (g\<lparr>go_turns_used := wrap64 (go_turns_used g + 1),
        go_tokens_used := wrap64 (go_tokens_used g + tokens)\<rparr>)"
    using turned(2) by (simp add: turn_change_def split: if_splits)
  ultimately show ?case using turned(4) by (auto simp: wf_goal_def)
qed auto

fun run_calls :: "(goal_env \<times> goal_call) list \<Rightarrow> disk \<Rightarrow> disk" where
  "run_calls [] d = d"
| "run_calls ((en, c) # cs) d = run_calls cs (snd (exec en c d))"

definition no_disk :: disk where
  "no_disk = \<lparr>dk_file = None, dk_temp = None\<rparr>"

definition one_codec :: "(int \<times> goal \<Rightarrow> string option) \<Rightarrow> (string \<Rightarrow> (int \<times> goal) option) \<Rightarrow> goal_env \<Rightarrow> bool" where
  "one_codec e d en \<longleftrightarrow> en_encode en = e \<and> en_decode en = d \<and> codec_ok en"

lemma run_calls_inv:
  "list_all (\<lambda>(en, c). one_codec e dec en) cs \<Longrightarrow> one_codec e dec en0 \<Longrightarrow> version_one en0 d \<Longrightarrow>
     (\<And>g. stored_goal en0 d = Some g \<Longrightarrow> wf_goal g) \<Longrightarrow>
     version_one en0 (run_calls cs d) \<and> (\<forall>g. stored_goal en0 (run_calls cs d) = Some g \<longrightarrow> wf_goal g)"
proof (induction cs arbitrary: d)
  case Nil
  then show ?case by simp
next
  case (Cons ec cs)
  obtain en c where ec: "ec = (en, c)" by fastforce
  have same: "stored_goal en x = stored_goal en0 x" "version_one en x = version_one en0 x" for x
    using Cons.prems(1,2)
    by (auto simp: ec one_codec_def stored_goal_def stored_def version_one_def split: option.split)
  obtain r d' where x: "exec en c d = (r, d')" by fastforce
  have "codec_ok en" using Cons.prems(1) by (simp add: ec one_codec_def)
  from exec_step [OF x this] Cons.prems(3) same
  have step: "goal_step (stored_goal en0 d) (stored_goal en0 d')" "version_one en0 d'" by auto
  have "wf_goal g" if "stored_goal en0 d' = Some g" for g
    using goal_step_wf [OF step(1) Cons.prems(4) that] .
  with Cons.IH [OF _ Cons.prems(2) step(2)] Cons.prems(1) show ?case by (simp add: ec x)
qed

text \<open>Claim C15. Whatever calls are made of the goal store, in any order, with any of their file
  operations failing or the process killed at any of them, the state file is absent or holds a
  readable, well-formed goal: an active-since time exactly while active, evidence when
  complete, a blocker when blocked, a trimmed objective, a bounded history.\<close>

theorem goal_file_always_wf:
  assumes "list_all (\<lambda>(en, c). one_codec encode dec en) calls" and "one_codec encode dec en"
  shows "case dk_file (run_calls calls no_disk) of
      None \<Rightarrow> True
    | Some data \<Rightarrow> \<exists>g. en_decode en data = Some (1, g) \<and> wf_goal g"
proof -
  have "version_one en no_disk" "stored_goal en no_disk = None"
    by (simp_all add: no_disk_def version_one_def stored_goal_def stored_def)
  with run_calls_inv [OF assms, of no_disk] show ?thesis
    by (auto simp: version_one_def stored_goal_def stored_def split: option.splits)
qed

text \<open>A codec for concrete runs: the stored file is the objective, and decoding knows the rest.\<close>

definition demo_goal :: goal where
  "demo_goal = new_goal ''goal_1'' ''ship'' \<lparr>li_token_budget = 0, li_max_turns = 0, li_max_duration = 0\<rparr> 5"

definition demo_env :: goal_env where
  "demo_env =
     \<lparr>en_ctx = None, en_now = 5, en_later = 6, en_id = Inr ''1'', en_read = None, en_remove = None,
      en_fate = (\<lambda>s. if s = SyncDirStep then Fails (ErrText ''io'') 0 else Runs),
      en_encode = (\<lambda>x. if x = (1, demo_goal) then Some ''G'' else None),
      en_decode = (\<lambda>s. if s = ''G'' then Some (1, demo_goal) else None)\<rparr>"

lemma demo_codec: "one_codec (en_encode demo_env) (en_decode demo_env) demo_env"
  by (auto simp: one_codec_def codec_ok_def demo_env_def split: if_splits)

abbreviation demo_create :: goal_call where
  "demo_create \<equiv> CallCreate ''ship'' \<lparr>li_token_budget = 0, li_max_turns = 0, li_max_duration = 0\<rparr>"

theorem goal_file_always_wf_witness:
  "dk_file (run_calls [(demo_env, demo_create)] no_disk) = Some ''G'' \<and> wf_goal demo_goal"
proof -
  have held: "dk_file (run_calls [(demo_env, demo_create)] no_disk) = Some ''G''" by code_simp
  have "list_all (\<lambda>(en, c). one_codec (en_encode demo_env) (en_decode demo_env) en) [(demo_env, demo_create)]"
    using demo_codec by simp
  from goal_file_always_wf [OF this demo_codec] held show ?thesis by (simp add: demo_env_def)
qed

lemma atomicI:
  assumes "dk_file d' = dk_file d \<or> (\<exists>g. stored en d' = Some (1, g))"
    and "\<forall>x. r1 = Reply x None \<longrightarrow> stored en d' = Some (1, f x)"
    and "r1 \<noteq> Killed \<Longrightarrow> dk_temp d' = None" and "(r, d') = fmap_reply f (r1, d')"
  shows "(dk_file d' = dk_file d \<or> (\<exists>g. stored en d' = Some (1, g)) \<or> c = CallClear \<and> dk_file d' = None)
    \<and> (\<forall>g. r = Reply (Some g) None \<and> c \<noteq> CallClear \<longrightarrow> stored en d' = Some (1, g))
    \<and> (r \<noteq> Killed \<longrightarrow> dk_temp d' = None)"
proof -
  note out = fmap_reply_outcome [OF assms(4)]
  have "stored en d' = Some (1, g)" if "r = Reply (Some g) None" for g
    using out that assms(2) by blast
  moreover have "r \<noteq> Killed \<longrightarrow> dk_temp d' = None" using out assms(3) by blast
  ultimately show ?thesis using assms(1) by blast
qed

text \<open>Claim C16. A write is atomic: after any call the file is what it was, or holds the one goal the
  call computed in full; a call that reports success has stored the goal it returns; and no
  temporary file is left unless the process was killed.\<close>

theorem goal_call_atomic:
  assumes "exec en c d = (r, d')" and "codec_ok en" and "dk_temp d = None"
  shows "(dk_file d' = dk_file d \<or> (\<exists>g. stored en d' = Some (1, g)) \<or> c = CallClear \<and> dk_file d' = None)
    \<and> (\<forall>g. r = Reply (Some g) None \<and> c \<noteq> CallClear \<longrightarrow> stored en d' = Some (1, g))
    \<and> (r \<noteq> Killed \<longrightarrow> dk_temp d' = None)"
proof (cases c)
  case (CallCreate v l)
  then obtain r1 where op: "create en v l d = (r1, d')" and r: "(r, d') = fmap_reply cr_goal (r1, d')"
    using assms(1) by (metis exec.simps(1) fmap_reply_disk prod.exhaust)
  have "dk_temp d' = None" if "r1 \<noteq> Killed"
    using op that assms(3) by (auto simp: create_def Let_def split: sum.splits option.splits list.splits
        if_splits prod.splits reply.splits dest!: goal_write_cases(2))
  moreover have "stored en d' = Some (1, cr_goal x)" if "r1 = Reply x None" for x
  proof (cases "cr_reused x")
    case True
    with op that have "goal_read en d = Inr (Some (cr_goal x)) \<and> d' = d"
      by (auto simp: create_def Let_def split: sum.splits option.splits list.splits if_splits
          prod.splits reply.splits)
    with goal_read_stored show ?thesis by blast
  next
    case False
    with op that obtain r2 where "goal_write en (cr_goal x) d = (r2, d')" "r2 = Reply () None"
      by (auto simp: create_def Let_def split: sum.splits option.splits list.splits if_splits
          prod.splits reply.splits)
    with stored_write assms(2) show ?thesis by blast
  qed
  moreover have "dk_file d' = dk_file d \<or> (\<exists>g. stored en d' = Some (1, g))"
    using create_step [OF op assms(2)] by blast
  ultimately show ?thesis by (intro atomicI [OF _ _ _ r]) auto
next
  case CallGet
  with assms show ?thesis
    by (auto simp: get_def split: option.splits sum.splits dest: goal_read_stored)
next
  case (CallUpdate p)
  then obtain r1 where op: "update en p d = (r1, d')" and r: "(r, d') = fmap_reply (\<lambda>g. g) (r1, d')"
    using assms(1) by (metis exec.simps(3) fmap_reply_disk prod.exhaust)
  have "dk_temp d' = None" if "r1 \<noteq> Killed"
    using op that assms(3) by (auto simp: update_def Let_def split: sum.splits option.splits if_splits
        dest!: mutate_temp)
  moreover have "dk_file d' = dk_file d \<or> (\<exists>g. stored en d' = Some (1, g))"
    "\<forall>x. r1 = Reply x None \<longrightarrow> stored en d' = Some (1, x)"
    using update_step [OF op assms(2)] by auto
  ultimately show ?thesis by (intro atomicI [OF _ _ _ r]) auto
next
  case (CallTurn tokens)
  then obtain r1 where op: "record_turn en tokens d = (r1, d')" and r: "(r, d') = fmap_reply fst (r1, d')"
    using assms(1) by (metis exec.simps(4) fmap_reply_disk prod.exhaust)
  have "dk_temp d' = None" if "r1 \<noteq> Killed"
    using op that assms(3) by (auto simp: record_turn_def split: if_splits option.splits prod.splits
        reply.splits dest!: mutate_temp)
  moreover have "dk_file d' = dk_file d \<or> (\<exists>g. stored en d' = Some (1, g))"
    "\<forall>x. r1 = Reply x None \<longrightarrow> stored en d' = Some (1, fst x)"
    using turn_step [OF op assms(2)] by auto
  ultimately show ?thesis by (intro atomicI [OF _ _ _ r]) auto
next
  case CallClear
  with assms show ?thesis by (auto simp: clear_def split: option.splits if_splits)
qed

theorem goal_call_atomic_witness:
  "dk_file (snd (exec demo_env demo_create no_disk)) = Some ''G''
   \<and> dk_temp (snd (exec demo_env demo_create no_disk)) = None"
proof -
  have "codec_ok demo_env" using demo_codec by (simp add: one_codec_def)
  moreover have "dk_temp no_disk = None" by (simp add: no_disk_def)
  moreover have "fst (exec demo_env demo_create no_disk) \<noteq> Killed"
    "dk_file (snd (exec demo_env demo_create no_disk)) = Some ''G''" by code_simp+
  ultimately show ?thesis using goal_call_atomic [OF prod.collapse [symmetric]] by blast
qed

text \<open>Claim C17. A closed goal is final: no update and no turn changes the file of a complete or
  blocked goal, and each reports an error.\<close>

theorem closed_goal_final:
  assumes "stored en d = Some (1, g)" and "goal_closed g"
  shows "(\<exists>e. update en p d = (Reply zero_goal (Some e), d))
    \<and> (\<exists>e. record_turn en tokens d = (Reply (zero_goal, LimitNone) (Some e), d))"
proof -
  have mutation: "\<exists>e. mutate en change d = (Reply zero_goal (Some e), d)"
    if "\<And>now. \<exists>e. change g now = Inl e" for change
    using assms(1) that [of "en_now en"]
    by (auto simp: mutate_def goal_read_def stored_def split: option.splits)
  have "\<exists>e. update_change objective status detail g now = Inl e" for objective status detail now
    using assms(2) by (simp add: update_change_def)
  moreover have "\<exists>e. turn_change tokens g now = Inl e" for now
    using assms(2) by (auto simp: turn_change_def goal_closed_def)
  ultimately show ?thesis
    using mutation [of "turn_change tokens"] mutation [of "update_change _ _ _"]
    by (auto simp: update_def record_turn_def Let_def split: option.splits sum.splits)
qed

theorem closed_goal_final_witness:
  "\<exists>e. record_turn (demo_env\<lparr>en_decode := \<lambda>s. Some (1, demo_goal\<lparr>go_status := StatusComplete\<rparr>)\<rparr>) 3
         \<lparr>dk_file = Some ''G'', dk_temp = None\<rparr>
       = (Reply (zero_goal, LimitNone) (Some e), \<lparr>dk_file = Some ''G'', dk_temp = None\<rparr>)"
  using closed_goal_final [of "demo_env\<lparr>en_decode := \<lambda>s. Some (1, demo_goal\<lparr>go_status := StatusComplete\<rparr>)\<rparr>"
      "\<lparr>dk_file = Some ''G'', dk_temp = None\<rparr>" "demo_goal\<lparr>go_status := StatusComplete\<rparr>"]
  by (simp add: stored_def goal_closed_def)

section \<open>Active time\<close>

text \<open>Claim C18. Pausing stops the clock of a goal and resuming restarts it: the time shown while
  paused is constant, it is the active time at the pause rounded down to a millisecond, and
  after a resume it grows by exactly the time since then.\<close>

theorem pause_keeps_active_time:
  assumes "go_status g = StatusActive" and "go_active_since g = Some since" and "since \<le> now"
    and "0 \<le> go_active_duration_ms g"
    and "go_active_duration_ms g * 1000000 + (now - since) + (t - later) < 2 ^ 63" and "later \<le> t"
    and "paused = apply_status StatusPaused d1 g now"
    and "resumed = apply_status StatusActive d2 paused later"
  shows "active_duration paused u = active_duration paused now
    \<and> active_duration paused now \<le> active_duration g now
    \<and> active_duration g now < active_duration paused now + 1000000
    \<and> active_duration resumed t = active_duration paused now + (t - later)"
proof -
  let ?ms = "go_active_duration_ms g"
  let ?add = "(now - since) div 1000000"
  have bounds: "0 \<le> ?add" "?add * 1000000 \<le> now - since" "now - since < ?add * 1000000 + 1000000"
    using assms(3) by (auto simp: pos_imp_zdiv_nonneg_iff)
  have small: "0 \<le> now - since" "now - since < 2 ^ 63" "?ms * 1000000 + (now - since) < 2 ^ 63"
    "0 \<le> t - later" "t - later < 2 ^ 63"
    using assms(3-6) by auto
  have sub: "time_sub now since = now - since" "time_sub t later = t - later"
    using small by (simp_all add: time_sub_def)
  have sum: "wrap64 (?ms + ?add) = ?ms + ?add"
    using bounds small assms(4) by (intro wrap64_id) (auto simp: in_int64_def)
  have paused: "go_status paused = StatusPaused" "go_active_since paused = None"
    "go_active_duration_ms paused = ?ms + ?add"
  proof -
    show "go_active_duration_ms paused = ?ms + ?add"
    proof (cases "now > since")
      case True
      then show ?thesis
        using assms(1,2) sub sum small(1) by (simp add: assms(7) apply_status_def add_event_def
            freeze_active_duration_def milliseconds_def)
    next
      case False
      with assms(3) have "now = since" by simp
      then show ?thesis using assms(1,2)
        by (simp add: assms(7) apply_status_def add_event_def freeze_active_duration_def)
    qed
  qed (use assms(1,2) in \<open>simp_all add: assms(7) apply_status_def\<close>)
  have p: "active_duration paused v = (?ms + ?add) * 1000000" for v
  proof -
    have "wrap64 ((?ms + ?add) * 1000000) = (?ms + ?add) * 1000000"
      using bounds small assms(4) by (intro wrap64_id) (auto simp: in_int64_def algebra_simps)
    then show ?thesis using paused by (simp add: active_duration_def)
  qed
  have g: "active_duration g now = ?ms * 1000000 + (now - since)"
  proof -
    have "wrap64 (?ms * 1000000) = ?ms * 1000000"
      "wrap64 (?ms * 1000000 + (now - since)) = ?ms * 1000000 + (now - since)"
      using small assms(4) by (auto intro!: wrap64_id simp: in_int64_def)
    then show ?thesis using assms(1-3) sub by (auto simp: active_duration_def Let_def)
  qed
  have "go_status resumed = StatusActive" "go_active_since resumed = Some later"
    "go_active_duration_ms resumed = go_active_duration_ms paused"
    using paused by (simp_all add: assms(8) apply_status_def add_event_def)
  then have "active_duration resumed t = active_duration paused now + (t - later)"
  proof -
    have "wrap64 ((?ms + ?add) * 1000000) = (?ms + ?add) * 1000000"
      "wrap64 ((?ms + ?add) * 1000000 + (t - later)) = (?ms + ?add) * 1000000 + (t - later)"
      using bounds small assms(4,5) by (auto intro!: wrap64_id simp: in_int64_def algebra_simps)
    then show ?thesis
      using \<open>go_status resumed = StatusActive\<close> \<open>go_active_since resumed = Some later\<close>
        \<open>go_active_duration_ms resumed = go_active_duration_ms paused\<close> paused(3) sub assms(6) p
      by (auto simp: active_duration_def Let_def)
  qed
  then show ?thesis using p g bounds by (simp add: algebra_simps)
qed

theorem pause_keeps_active_time_witness:
  "active_duration (apply_status StatusActive [] (apply_status StatusPaused [] demo_goal 2000009) 7000000)
     9000000 = 2000000 + 2000000"
proof -
  have g: "go_status demo_goal = StatusActive" "go_active_since demo_goal = Some 5"
    "go_active_duration_ms demo_goal = 0"
    by (simp_all add: demo_goal_def new_goal_def zero_goal_def)
  have "active_duration (apply_status StatusPaused [] demo_goal 2000009) 2000009 = 2000000"
    by code_simp
  moreover have "(5::int) \<le> 2000009" "0 \<le> go_active_duration_ms demo_goal" "(7000000::int) \<le> 9000000"
    "go_active_duration_ms demo_goal * 1000000 + (2000009 - 5) + (9000000 - 7000000) < (2::int) ^ 63"
    using g(3) by simp_all
  ultimately show ?thesis
    using pause_keeps_active_time [OF g(1,2), of 2000009 9000000 7000000, OF _ _ _ _ refl refl] by simp
qed



end
