(* ===== verification/Hub_Store.thy ===== *)
theory Hub_Store
  imports Prelude
begin

text \<open>
  The state of the messaging hub, \<^verbatim>\<open>src/pkg/hub/store.go\<close> with the records of \<^verbatim>\<open>protocol.go\<close>:
  the messages seen, the read cursors and the bridges' descriptions of conversations. The
  three state files are kept as what a restart decodes from them; a write may fail, and then
  leaves its file as it was. \<^verbatim>\<open>strings.EqualFold\<close> (Unicode case folding) is the parameter
  \<open>fold_eq\<close>.
\<close>

record reaction =
  re_emoji :: string
  re_sender :: string
  re_at :: int
  re_removed :: bool

record media =
  me_kind :: string
  me_mime :: string
  me_filename :: string
  me_size :: int
  me_caption :: string
  me_duration_ms :: int
  me_path :: string
  me_url :: string
  me_sha256 :: string
  me_thumbnail :: string

record hub_message =
  hm_id :: string
  hm_account :: string
  hm_thread :: string
  hm_sender :: string
  hm_text :: string
  hm_timestamp :: int
  hm_incoming :: bool
  hm_kind :: string
  hm_media :: "media list"
  hm_reply_to :: string
  hm_reactions :: "reaction list"
  hm_edited :: bool
  hm_deleted :: bool
  hm_status :: string
  hm_error :: string

definition is_empty :: "hub_message \<Rightarrow> bool" where
  "is_empty m \<longleftrightarrow> trim_space (hm_text m) = [] \<and> hm_media m = []"

record hub_thread =
  ht_id :: string
  ht_account :: string
  ht_title :: string
  ht_bridge :: string
  ht_unread :: int
  ht_last_message :: int
  ht_kind :: string
  ht_parent :: string
  ht_participants :: "string list"
  ht_muted :: "bool option"
  ht_archived :: "bool option"

definition zero_thread :: hub_thread where
  "zero_thread =
     \<lparr>ht_id = [], ht_account = [], ht_title = [], ht_bridge = [], ht_unread = 0, ht_last_message = 0,
      ht_kind = [], ht_parent = [], ht_participants = [], ht_muted = None, ht_archived = None\<rparr>"

record hub_store =
  hs_messages :: "hub_message list"
  hs_by_id :: "string list"
  hs_reads :: "(string \<times> int) list"
  hs_threads :: "(string \<times> hub_thread) list"
  hf_messages :: "hub_message list"
  hf_reads :: "(string \<times> int) list"
  hf_threads :: "(string \<times> hub_thread) list"

definition read_key :: "string \<Rightarrow> string \<Rightarrow> string" where
  "read_key account thread = account @ [CHR 0x00] @ thread"

section \<open>Writing the state files\<close>

definition rewrite_messages :: "bool \<Rightarrow> hub_store \<Rightarrow> hub_store" where
  "rewrite_messages ok s = (if ok then s\<lparr>hf_messages := hs_messages s\<rparr> else s)"

definition write_threads :: "bool \<Rightarrow> hub_store \<Rightarrow> hub_store" where
  "write_threads ok s = (if ok then s\<lparr>hf_threads := hs_threads s\<rparr> else s)"

definition write_reads :: "bool \<Rightarrow> hub_store \<Rightarrow> hub_store" where
  "write_reads ok s = (if ok then s\<lparr>hf_reads := hs_reads s\<rparr> else s)"

fun load_loop :: "hub_message list \<Rightarrow> hub_message list \<Rightarrow> string list \<Rightarrow> hub_message list \<times> string list" where
  "load_loop [] ms ids = (ms, ids)"
| "load_loop (m # lines) ms ids =
     (if hm_id m = [] \<or> hm_id m \<in> set ids then load_loop lines ms ids
      else load_loop lines (ms @ [m]) (ids @ [hm_id m]))"

definition open_store ::
  "hub_message list \<Rightarrow> (string \<times> int) list \<Rightarrow> (string \<times> hub_thread) list \<Rightarrow> hub_store" where
  "open_store lines reads threads =
     (let (ms, ids) = load_loop lines [] [] in
      \<lparr>hs_messages = ms, hs_by_id = ids, hs_reads = reads, hs_threads = threads,
       hf_messages = lines, hf_reads = reads, hf_threads = threads\<rparr>)"

definition reopen :: "hub_store \<Rightarrow> hub_store" where
  "reopen s = open_store (hf_messages s) (hf_reads s) (hf_threads s)"

section \<open>Messages\<close>

fun index_loop :: "(string \<Rightarrow> string \<Rightarrow> bool) \<Rightarrow> string \<Rightarrow> string \<Rightarrow> nat \<Rightarrow> hub_message list \<Rightarrow> nat option" where
  "index_loop fold_eq account ident i [] = None"
| "index_loop fold_eq account ident i (m # ms) =
     (if hm_id m \<noteq> ident then index_loop fold_eq account ident (Suc i) ms
      else if account = [] \<or> fold_eq (hm_account m) account then Some i
      else index_loop fold_eq account ident (Suc i) ms)"

definition index_locked :: "(string \<Rightarrow> string \<Rightarrow> bool) \<Rightarrow> string \<Rightarrow> string \<Rightarrow> hub_store \<Rightarrow> nat option" where
  "index_locked fold_eq account ident s =
     (let ident = trim_space ident in
      if ident = [] then None else index_loop fold_eq account ident 0 (hs_messages s))"

text \<open>A change of the message at an index, and the rewrite of the log: \<^verbatim>\<open>Edit\<close>, \<^verbatim>\<open>Delete\<close> and
  \<^verbatim>\<open>React\<close> return the changed message, or false when the rewrite failed.\<close>

definition change_message ::
  "bool \<Rightarrow> nat \<Rightarrow> (hub_message \<Rightarrow> hub_message) \<Rightarrow> hub_store \<Rightarrow> hub_message option \<times> hub_store" where
  "change_message ok i f s =
     (let s1 = rewrite_messages ok (s\<lparr>hs_messages := (hs_messages s)[i := f (hs_messages s ! i)]\<rparr>)
      in (if ok then Some (hs_messages s1 ! i) else None, s1))"

definition edit ::
  "(string \<Rightarrow> string \<Rightarrow> bool) \<Rightarrow> bool \<Rightarrow> string \<Rightarrow> string \<Rightarrow> string \<Rightarrow> int \<Rightarrow> hub_store
     \<Rightarrow> hub_message option \<times> hub_store" where
  "edit fold_eq ok account ident text at_time s =
     (case index_locked fold_eq account ident s of
        None \<Rightarrow> (None, s)
      | Some i \<Rightarrow>
          change_message ok i (\<lambda>m.
            let m1 = m\<lparr>hm_text := text\<rparr>;
                m2 = (if hm_media m1 = [] then m1\<lparr>hm_kind := ''text''\<rparr> else m1);
                m3 = m2\<lparr>hm_edited := True\<rparr>
            in if at_time > 0 then m3\<lparr>hm_timestamp := at_time\<rparr> else m3) s)"

definition delete_message ::
  "(string \<Rightarrow> string \<Rightarrow> bool) \<Rightarrow> bool \<Rightarrow> string \<Rightarrow> string \<Rightarrow> hub_store \<Rightarrow> hub_message option \<times> hub_store" where
  "delete_message fold_eq ok account ident s =
     (case index_locked fold_eq account ident s of
        None \<Rightarrow> (None, s)
      | Some i \<Rightarrow> change_message ok i (\<lambda>m. m\<lparr>hm_text := [], hm_media := [], hm_deleted := True\<rparr>) s)"

definition fold_reaction ::
  "(string \<Rightarrow> string \<Rightarrow> bool) \<Rightarrow> reaction \<Rightarrow> reaction list \<Rightarrow> reaction list" where
  "fold_reaction fold_eq r existing =
     (let sender = trim_space (re_sender r);
          kept = filter (\<lambda>e. \<not> (sender \<noteq> [] \<and> fold_eq (trim_space (re_sender e)) sender)) existing
      in if trim_space (re_emoji r) \<noteq> [] \<and> \<not> re_removed r then kept @ [r] else kept)"

definition react ::
  "(string \<Rightarrow> string \<Rightarrow> bool) \<Rightarrow> bool \<Rightarrow> string \<Rightarrow> string \<Rightarrow> reaction \<Rightarrow> hub_store
     \<Rightarrow> hub_message option \<times> hub_store" where
  "react fold_eq ok account ident r s =
     (case index_locked fold_eq account ident s of
        None \<Rightarrow> (None, s)
      | Some i \<Rightarrow>
          change_message ok i (\<lambda>m. m\<lparr>hm_reactions := fold_reaction fold_eq r (hm_reactions m)\<rparr>) s)"

definition append_message :: "bool \<Rightarrow> hub_message \<Rightarrow> hub_store \<Rightarrow> bool \<times> hub_store" where
  "append_message ok m s =
     (if hm_id m = [] \<or> hm_id m \<in> set (hs_by_id s) then (True, s)
      else
        let s1 = s\<lparr>hs_by_id := hs_by_id s @ [hm_id m], hs_messages := hs_messages s @ [m]\<rparr>
        in (ok, if ok then s1\<lparr>hf_messages := hf_messages s1 @ [m]\<rparr> else s1))"

definition messages :: "string \<Rightarrow> string \<Rightarrow> int \<Rightarrow> hub_store \<Rightarrow> hub_message list" where
  "messages account thread limit s =
     (let limit = (if limit \<le> 0 then 50 else limit);
          found = sort_key hm_timestamp
            (filter (\<lambda>m. (account = [] \<or> hm_account m = account) \<and> (thread = [] \<or> hm_thread m = thread))
              (hs_messages s))
      in if int (length found) > limit then last_n (nat limit) found else found)"

definition count_messages :: "hub_store \<Rightarrow> nat" where
  "count_messages s = length (hs_messages s)"

section \<open>Conversations\<close>

definition merge_thread :: "hub_thread \<Rightarrow> hub_thread \<Rightarrow> hub_thread" where
  "merge_thread t existing =
     existing\<lparr>ht_id := ht_id t, ht_account := ht_account t,
       ht_title := (if ht_title t \<noteq> [] then ht_title t else ht_title existing),
       ht_bridge := (if ht_bridge t \<noteq> [] then ht_bridge t else ht_bridge existing),
       ht_kind := (if ht_kind t \<noteq> [] then ht_kind t else ht_kind existing),
       ht_parent := (if ht_parent t \<noteq> [] then ht_parent t else ht_parent existing),
       ht_participants := (if ht_participants t \<noteq> [] then ht_participants t else ht_participants existing),
       ht_muted := (if ht_muted t \<noteq> None then ht_muted t else ht_muted existing),
       ht_archived := (if ht_archived t \<noteq> None then ht_archived t else ht_archived existing),
       ht_unread := (if ht_unread t > ht_unread existing then ht_unread t else ht_unread existing),
       ht_last_message := (if ht_last_message t > ht_last_message existing then ht_last_message t
                           else ht_last_message existing)\<rparr>"

definition set_thread :: "bool \<Rightarrow> hub_thread \<Rightarrow> hub_store \<Rightarrow> bool \<times> hub_store" where
  "set_thread ok t s =
     (if trim_space (ht_account t) = [] \<or> trim_space (ht_id t) = [] then (False, s)
      else
        let key = read_key (ht_account t) (ht_id t);
            existing = (case map_of (hs_threads s) key of Some e \<Rightarrow> e | None \<Rightarrow> zero_thread)
        in (ok, write_threads ok (s\<lparr>hs_threads := AList.update key (merge_thread t existing) (hs_threads s)\<rparr>)))"

text \<open>\<open>ok_threads\<close> and \<open>ok_reads\<close>: whether each of the two writes succeeds.\<close>

definition mark_read ::
  "bool \<Rightarrow> bool \<Rightarrow> int \<Rightarrow> string \<Rightarrow> string \<Rightarrow> int \<Rightarrow> hub_store \<Rightarrow> bool \<times> hub_store" where
  "mark_read ok_threads ok_reads now account thread up_to s =
     (let up_to = (if up_to = 0 then now else up_to);
          key = read_key account thread
      in if (case map_of (hs_reads s) key of Some existing \<Rightarrow> existing \<ge> up_to | None \<Rightarrow> False) then (True, s)
         else
           let s1 = s\<lparr>hs_reads := AList.update key up_to (hs_reads s)\<rparr>
           in case map_of (hs_threads s1) key of
                Some described \<Rightarrow>
                  if ht_unread described \<noteq> 0 then
                    let s2 = write_threads ok_threads
                          (s1\<lparr>hs_threads := AList.update key (described\<lparr>ht_unread := 0\<rparr>) (hs_threads s1)\<rparr>)
                    in if ok_threads then (ok_reads, write_reads ok_reads s2) else (False, s2)
                  else (ok_reads, write_reads ok_reads s1)
              | None \<Rightarrow> (ok_reads, write_reads ok_reads s1))"

text \<open>The two loops of \<^verbatim>\<open>Threads\<close>: \<open>order\<close> is a slice of keys, \<open>index\<close> the map beside it.\<close>

definition described_threads ::
  "string \<Rightarrow> hub_store \<Rightarrow> (string \<times> hub_thread) list" where
  "described_threads account s =
     filter (\<lambda>(key, t). account = [] \<or> ht_account t = account) (hs_threads s)"

definition note_message ::
  "(string \<times> int) list \<Rightarrow> hub_message \<Rightarrow> hub_thread \<Rightarrow> hub_thread" where
  "note_message reads m t =
     (let t1 = (if hm_timestamp m > ht_last_message t then t\<lparr>ht_last_message := hm_timestamp m\<rparr> else t);
          cursor = (case map_of reads (read_key (hm_account m) (hm_thread m)) of Some c \<Rightarrow> c | None \<Rightarrow> 0);
          t2 = (if hm_incoming m \<and> hm_timestamp m > cursor then t1\<lparr>ht_unread := ht_unread t1 + 1\<rparr> else t1)
      in if ht_title t2 = [] \<and> hm_sender m \<noteq> [] then t2\<lparr>ht_title := hm_sender m\<rparr> else t2)"

fun thread_loop ::
  "(string \<times> int) list \<Rightarrow> string \<Rightarrow> hub_message list \<Rightarrow> (string \<times> hub_thread) list
     \<Rightarrow> (string \<times> hub_thread) list" where
  "thread_loop reads account [] index = index"
| "thread_loop reads account (m # ms) index =
     (if account \<noteq> [] \<and> hm_account m \<noteq> account then thread_loop reads account ms index
      else
        let key = read_key (hm_account m) (hm_thread m);
            t = (case map_of index key of
                   Some t \<Rightarrow> t
                 | None \<Rightarrow> zero_thread\<lparr>ht_id := hm_thread m, ht_account := hm_account m\<rparr>)
        in thread_loop reads account ms (AList.update key (note_message reads m t) index))"

definition threads :: "string \<Rightarrow> hub_store \<Rightarrow> hub_thread list" where
  "threads account s =
     (let index = thread_loop (hs_reads s) account (hs_messages s) (described_threads account s);
          raise_unread = (\<lambda>(key, t). case map_of (hs_threads s) key of
              Some described \<Rightarrow>
                if ht_unread described > ht_unread t then t\<lparr>ht_unread := ht_unread described\<rparr> else t
            | None \<Rightarrow> t)
      in sort_key (\<lambda>t. - ht_last_message t) (map raise_unread index))"

section \<open>Histories of the store\<close>

text \<open>The calls of the store, each with whether its writes succeed, and a restart of the hub.\<close>

datatype store_op =
    OpAppend bool hub_message
  | OpEdit bool string string string int
  | OpDelete bool string string
  | OpReact bool string string reaction
  | OpSetThread bool hub_thread
  | OpMarkRead bool bool int string string int
  | OpReopen

fun apply_op :: "(string \<Rightarrow> string \<Rightarrow> bool) \<Rightarrow> store_op \<Rightarrow> hub_store \<Rightarrow> hub_store" where
  "apply_op fold_eq (OpAppend ok m) s = snd (append_message ok m s)"
| "apply_op fold_eq (OpEdit ok account ident text t) s = snd (edit fold_eq ok account ident text t s)"
| "apply_op fold_eq (OpDelete ok account ident) s = snd (delete_message fold_eq ok account ident s)"
| "apply_op fold_eq (OpReact ok account ident r) s = snd (react fold_eq ok account ident r s)"
| "apply_op fold_eq (OpSetThread ok t) s = snd (set_thread ok t s)"
| "apply_op fold_eq (OpMarkRead ok1 ok2 now account thread t) s =
     snd (mark_read ok1 ok2 now account thread t s)"
| "apply_op fold_eq OpReopen s = reopen s"

definition apply_ops :: "(string \<Rightarrow> string \<Rightarrow> bool) \<Rightarrow> store_op list \<Rightarrow> hub_store \<Rightarrow> hub_store" where
  "apply_ops fold_eq ops s = fold (apply_op fold_eq) ops s"

lemma apply_ops_inv:
  "Inv s \<Longrightarrow> (\<And>op s. Inv s \<Longrightarrow> Inv (apply_op fold_eq op s)) \<Longrightarrow> Inv (apply_ops fold_eq ops s)"
  unfolding apply_ops_def by (induction ops arbitrary: s) auto

lemmas store_write_defs = rewrite_messages_def write_threads_def write_reads_def

section \<open>Messages are stored once\<close>

definition unique_ids :: "hub_store \<Rightarrow> bool" where
  "unique_ids s \<longleftrightarrow>
     map hm_id (hs_messages s) = hs_by_id s \<and> distinct (hs_by_id s) \<and> [] \<notin> set (hs_by_id s)"

lemma load_loop_unique:
  "map hm_id ms = ids \<Longrightarrow> distinct ids \<Longrightarrow> [] \<notin> set ids \<Longrightarrow> load_loop lines ms ids = (ms', ids') \<Longrightarrow>
     map hm_id ms' = ids' \<and> distinct ids' \<and> [] \<notin> set ids'"
  by (induction lines ms ids rule: load_loop.induct) (auto split: if_splits)

lemma open_store_unique: "unique_ids (open_store lines reads ts)"
  using load_loop_unique [of "[]" "[]" lines]
  by (auto simp: open_store_def unique_ids_def split: prod.splits)

lemma index_loop_bound: "index_loop fold_eq account ident i ms = Some j \<Longrightarrow> j < i + length ms"
  by (induction fold_eq account ident i ms rule: index_loop.induct) (auto split: if_splits)

lemma index_locked_bound: "index_locked fold_eq account ident s = Some i \<Longrightarrow> i < length (hs_messages s)"
  using index_loop_bound [of fold_eq account "trim_space ident" 0 "hs_messages s" i]
  by (auto simp: index_locked_def Let_def split: if_splits)

lemma change_message_simps [simp]:
  "hs_messages (snd (change_message ok i f s)) = (hs_messages s)[i := f (hs_messages s ! i)]"
  "hs_by_id (snd (change_message ok i f s)) = hs_by_id s"
  "hs_reads (snd (change_message ok i f s)) = hs_reads s"
  "hf_reads (snd (change_message ok i f s)) = hf_reads s"
  by (auto simp: change_message_def rewrite_messages_def Let_def)

lemma change_message_unique:
  assumes "unique_ids s" and "i < length (hs_messages s)"
    and "hm_id (f (hs_messages s ! i)) = hm_id (hs_messages s ! i)"
  shows "unique_ids (snd (change_message ok i f s))"
proof -
  have "map hm_id ((hs_messages s)[i := f (hs_messages s ! i)]) = map hm_id (hs_messages s)"
    using assms(2,3) by (metis list_update_id map_update nth_map)
  with assms(1) show ?thesis by (simp add: unique_ids_def)
qed

lemma apply_op_unique: "unique_ids s \<Longrightarrow> unique_ids (apply_op fold_eq op s)"
proof (cases op)
  case (OpAppend ok m)
  then show "unique_ids s \<Longrightarrow> unique_ids (apply_op fold_eq op s)"
    by (auto simp: append_message_def unique_ids_def Let_def)
next
  case (OpEdit ok account ident body t)
  then show "unique_ids s \<Longrightarrow> unique_ids (apply_op fold_eq op s)"
    by (auto simp: edit_def Let_def split: option.splits
        intro!: change_message_unique dest: index_locked_bound)
next
  case (OpDelete ok account ident)
  then show "unique_ids s \<Longrightarrow> unique_ids (apply_op fold_eq op s)"
    by (auto simp: delete_message_def split: option.splits
        intro!: change_message_unique dest: index_locked_bound)
next
  case (OpReact ok account ident r)
  then show "unique_ids s \<Longrightarrow> unique_ids (apply_op fold_eq op s)"
    by (auto simp: react_def split: option.splits intro!: change_message_unique dest: index_locked_bound)
next
  case (OpSetThread ok t)
  then show "unique_ids s \<Longrightarrow> unique_ids (apply_op fold_eq op s)"
    by (auto simp: set_thread_def unique_ids_def store_write_defs Let_def)
next
  case (OpMarkRead ok1 ok2 now account thread t)
  then show "unique_ids s \<Longrightarrow> unique_ids (apply_op fold_eq op s)"
    by (auto simp: mark_read_def unique_ids_def store_write_defs Let_def split: option.splits)
next
  case OpReopen
  then show "unique_ids s \<Longrightarrow> unique_ids (apply_op fold_eq op s)"
    by (simp add: reopen_def open_store_unique)
qed

text \<open>Claim C25. The hub stores a message once: after any calls and restarts, with any writes failing,
  the stored identifiers are distinct and not empty, and appending a message adds it exactly
  when no stored message has its identifier, of whatever account.\<close>

theorem hub_message_stored_once:
  assumes "s = apply_ops fold_eq ops (open_store lines reads ts)"
  shows "distinct (map hm_id (hs_messages s)) \<and> [] \<notin> set (map hm_id (hs_messages s))
    \<and> hs_messages (snd (append_message ok m s))
      = (if hm_id m = [] \<or> hm_id m \<in> set (map hm_id (hs_messages s)) then hs_messages s
         else hs_messages s @ [m])"
proof -
  have "unique_ids s" unfolding assms
    by (rule apply_ops_inv [where Inv = unique_ids, OF open_store_unique]) (rule apply_op_unique)
  then show ?thesis by (auto simp: unique_ids_def append_message_def Let_def)
qed

definition demo_msg :: "string \<Rightarrow> string \<Rightarrow> int \<Rightarrow> hub_message" where
  "demo_msg i account t =
     \<lparr>hm_id = i, hm_account = account, hm_thread = ''t'', hm_sender = ''ann'', hm_text = ''hi'',
      hm_timestamp = t, hm_incoming = True, hm_kind = [], hm_media = [], hm_reply_to = [],
      hm_reactions = [], hm_edited = False, hm_deleted = False, hm_status = [], hm_error = []\<rparr>"

theorem hub_message_stored_once_witness:
  "hs_messages (snd (append_message True (demo_msg ''1'' ''b'' 9)
      (apply_ops (=) [OpAppend True (demo_msg ''1'' ''a'' 5), OpReopen] (open_store [] [] []))))
   = [demo_msg ''1'' ''a'' 5]"
proof -
  let ?s = "apply_ops (=) [OpAppend True (demo_msg ''1'' ''a'' 5), OpReopen] (open_store [] [] [])"
  have "hs_messages ?s = [demo_msg ''1'' ''a'' 5]"
    by (simp add: apply_ops_def open_store_def reopen_def append_message_def demo_msg_def Let_def)
  with hub_message_stored_once [of ?s "(=)"
      "[OpAppend True (demo_msg ''1'' ''a'' 5), OpReopen]" "[]" "[]" "[]" True "demo_msg ''1'' ''b'' 9"]
  show ?thesis by (simp add: demo_msg_def)
qed

section \<open>Read cursors\<close>

definition cursor_le :: "int option \<Rightarrow> int option \<Rightarrow> bool" where
  "cursor_le a b \<longleftrightarrow> (case a of None \<Rightarrow> True | Some x \<Rightarrow> (case b of None \<Rightarrow> False | Some y \<Rightarrow> x \<le> y))"

lemma cursor_le_refl [simp]: "cursor_le a a"
  by (simp add: cursor_le_def split: option.splits)

lemma cursor_le_trans: "cursor_le a b \<Longrightarrow> cursor_le b c \<Longrightarrow> cursor_le a c"
  by (auto simp: cursor_le_def split: option.splits)

definition file_behind :: "hub_store \<Rightarrow> bool" where
  "file_behind s \<longleftrightarrow> (\<forall>k. cursor_le (map_of (hf_reads s) k) (map_of (hs_reads s) k))"

lemma mark_read_reads:
  assumes "mark_read ok1 ok2 now account thread t s = (r, s')"
  shows "\<forall>k. cursor_le (map_of (hs_reads s) k) (map_of (hs_reads s') k)"
    and "hf_reads s' = hf_reads s \<or> hf_reads s' = hs_reads s'"
  using assms
  by (auto simp: mark_read_def store_write_defs Let_def cursor_le_def split: option.splits if_splits)

lemma apply_op_reads:
  assumes "file_behind s"
  shows "file_behind (apply_op fold_eq op s)
    \<and> (\<forall>k. cursor_le (map_of (hf_reads s) k) (map_of (hf_reads (apply_op fold_eq op s)) k))"
proof (cases "\<exists>ok1 ok2 now account thread t. op = OpMarkRead ok1 ok2 now account thread t")
  case True
  then obtain ok1 ok2 now account thread t where op: "op = OpMarkRead ok1 ok2 now account thread t"
    by blast
  obtain r s' where m: "mark_read ok1 ok2 now account thread t s = (r, s')" by fastforce
  from mark_read_reads [OF m] assms show ?thesis
    by (auto simp: op m file_behind_def) (metis cursor_le_trans)+
next
  case False
  then have "hf_reads (apply_op fold_eq op s) = hf_reads s
      \<and> (hs_reads (apply_op fold_eq op s) = hs_reads s \<or> hs_reads (apply_op fold_eq op s) = hf_reads s)"
    by (cases op) (auto simp: append_message_def edit_def delete_message_def react_def set_thread_def
        reopen_def open_store_def store_write_defs Let_def split: option.splits prod.splits)
  with assms show ?thesis by (auto simp: file_behind_def)
qed

text \<open>Claim C26. A conversation never becomes unread again by itself: the read cursor kept in the state
  file only moves forward, over any calls and restarts and with any writes failing.\<close>

theorem read_cursor_monotone:
  assumes "s = apply_ops fold_eq ops (open_store lines reads ts)"
  shows "cursor_le (map_of (hf_reads s) k) (map_of (hf_reads (apply_ops fold_eq later s)) k)"
proof -
  have start: "file_behind (open_store lines reads ts)"
    by (simp add: file_behind_def open_store_def split: prod.splits)
  have "file_behind s" unfolding assms
    by (rule apply_ops_inv [where Inv = file_behind, OF start]) (simp add: apply_op_reads)
  then have "file_behind s \<and> cursor_le (map_of (hf_reads s) k) (map_of (hf_reads s) k)" by simp
  then have "file_behind (apply_ops fold_eq later s)
      \<and> cursor_le (map_of (hf_reads s) k) (map_of (hf_reads (apply_ops fold_eq later s)) k)"
    by (rule apply_ops_inv [where Inv = "\<lambda>x. file_behind x
          \<and> cursor_le (map_of (hf_reads s) k) (map_of (hf_reads x) k)"])
      (use apply_op_reads in \<open>blast intro: cursor_le_trans\<close>)
  then show ?thesis ..
qed

theorem read_cursor_monotone_witness:
  "cursor_le (Some 7) (map_of (hf_reads (apply_ops (=) [OpMarkRead True True 0 ''a'' ''t'' 3, OpReopen]
     (apply_ops (=) [OpMarkRead True True 0 ''a'' ''t'' 7] (open_store [] [] [])))) (read_key ''a'' ''t''))"
proof -
  have "map_of (hf_reads (apply_ops (=) [OpMarkRead True True 0 ''a'' ''t'' 7] (open_store [] [] [])))
      (read_key ''a'' ''t'') = Some 7"
    by (simp add: apply_ops_def open_store_def mark_read_def store_write_defs Let_def)
  then show ?thesis using read_cursor_monotone [OF refl] by metis
qed

section \<open>Listing messages\<close>

definition matching :: "string \<Rightarrow> string \<Rightarrow> hub_store \<Rightarrow> hub_message list" where
  "matching account thread s =
     filter (\<lambda>m. (account = [] \<or> hm_account m = account) \<and> (thread = [] \<or> hm_thread m = thread))
       (hs_messages s)"

definition window_size :: "int \<Rightarrow> nat" where
  "window_size limit = (if limit \<le> 0 then 50 else nat limit)"

lemma messages_last_n:
  "messages account thread limit s
     = last_n (window_size limit) (sort_key hm_timestamp (matching account thread s))"
  by (auto simp: messages_def matching_def window_size_def last_n_all Let_def)

text \<open>Claim C27. A page of messages is the newest ones: it has as many of the matching messages as the
  limit allows (50 when none is given), oldest first, and every matching message left out is
  at least as old as every one returned.\<close>

theorem messages_window:
  "sorted (map hm_timestamp (messages account thread limit s))
   \<and> length (messages account thread limit s) = min (window_size limit) (length (matching account thread s))
   \<and> (\<exists>older. mset older + mset (messages account thread limit s) = mset (matching account thread s)
        \<and> (\<forall>x \<in> set older. \<forall>y \<in> set (messages account thread limit s). hm_timestamp x \<le> hm_timestamp y))"
proof -
  let ?found = "sort_key hm_timestamp (matching account thread s)"
  let ?k = "length ?found - window_size limit"
  have split: "?found = take ?k ?found @ messages account thread limit s"
    by (simp add: messages_last_n last_n_def)
  have "sorted (map hm_timestamp ?found)" by simp
  then have "sorted (map hm_timestamp (take ?k ?found) @ map hm_timestamp (messages account thread limit s))"
    by (metis split map_append)
  then have "sorted (map hm_timestamp (messages account thread limit s))"
    "\<forall>x \<in> set (take ?k ?found). \<forall>y \<in> set (messages account thread limit s). hm_timestamp x \<le> hm_timestamp y"
    by (auto simp: sorted_append)
  moreover have "mset (take ?k ?found) + mset (messages account thread limit s) = mset (matching account thread s)"
    by (metis split mset_append mset_sort)
  ultimately show ?thesis by (auto simp: messages_last_n)
qed

theorem messages_window_witness:
  "let s = apply_ops (=) [OpAppend True (demo_msg ''1'' ''a'' 9), OpAppend True (demo_msg ''2'' ''a'' 5)]
         (open_store [] [] [])
   in messages ''a'' [] 1 s = [demo_msg ''1'' ''a'' 9]
      \<and> (\<exists>older. mset older + mset (messages ''a'' [] 1 s) = mset (matching ''a'' [] s)
           \<and> (\<forall>x \<in> set older. hm_timestamp x \<le> 9))"
proof -
  let ?s = "apply_ops (=) [OpAppend True (demo_msg ''1'' ''a'' 9), OpAppend True (demo_msg ''2'' ''a'' 5)]
         (open_store [] [] [])"
  have page: "messages ''a'' [] 1 ?s = [demo_msg ''1'' ''a'' 9]" by code_simp
  from messages_window [of "''a''" "[]" 1 ?s] show ?thesis
    by (simp add: Let_def page) (auto simp: demo_msg_def)
qed

section \<open>Reactions\<close>

definition same_sender :: "(string \<Rightarrow> string \<Rightarrow> bool) \<Rightarrow> reaction \<Rightarrow> reaction \<Rightarrow> bool" where
  "same_sender fold_eq a b \<longleftrightarrow>
     trim_space (re_sender b) \<noteq> [] \<and> fold_eq (trim_space (re_sender a)) (trim_space (re_sender b))"

definition one_per_sender :: "(string \<Rightarrow> string \<Rightarrow> bool) \<Rightarrow> hub_store \<Rightarrow> bool" where
  "one_per_sender fold_eq s \<longleftrightarrow>
     (\<forall>m \<in> set (hs_messages s) \<union> set (hf_messages s).
        sorted_wrt (\<lambda>a b. \<not> same_sender fold_eq a b) (hm_reactions m))"

lemma fold_reaction_one:
  "sorted_wrt (\<lambda>a b. \<not> same_sender fold_eq a b) rs \<Longrightarrow>
     sorted_wrt (\<lambda>a b. \<not> same_sender fold_eq a b) (fold_reaction fold_eq r rs)"
  by (auto simp: fold_reaction_def Let_def sorted_wrt_append sorted_wrt_filter same_sender_def)

lemma change_message_one:
  assumes "one_per_sender fold_eq s" and "i < length (hs_messages s)"
    and "sorted_wrt (\<lambda>a b. \<not> same_sender fold_eq a b) (hm_reactions (f (hs_messages s ! i)))"
  shows "one_per_sender fold_eq (snd (change_message ok i f s))"
  using assms set_update_subset_insert [of "hs_messages s" i "f (hs_messages s ! i)"]
  by (auto simp: one_per_sender_def change_message_def rewrite_messages_def Let_def)

lemma load_loop_subset: "load_loop lines ms ids = (ms', ids') \<Longrightarrow> set ms' \<subseteq> set ms \<union> set lines"
  by (induction lines ms ids rule: load_loop.induct) (auto split: if_splits)

lemma index_locked_reactions:
  "one_per_sender fold_eq s \<Longrightarrow> index_locked fold_eq account ident s = Some i \<Longrightarrow>
     i < length (hs_messages s)
     \<and> sorted_wrt (\<lambda>a b. \<not> same_sender fold_eq a b) (hm_reactions (hs_messages s ! i))"
  using index_locked_bound [of fold_eq account ident s i] by (auto simp: one_per_sender_def)

fun op_one :: "(string \<Rightarrow> string \<Rightarrow> bool) \<Rightarrow> store_op \<Rightarrow> bool" where
  "op_one fold_eq (OpAppend ok m) = sorted_wrt (\<lambda>a b. \<not> same_sender fold_eq a b) (hm_reactions m)"
| "op_one fold_eq op = True"

lemma apply_op_one:
  assumes "one_per_sender fold_eq s" and "op_one fold_eq op"
  shows "one_per_sender fold_eq (apply_op fold_eq op s)"
proof (cases op)
  case (OpAppend ok m)
  with assms show ?thesis by (auto simp: append_message_def one_per_sender_def Let_def)
next
  case (OpEdit ok account ident body t)
  with assms show ?thesis
    by (auto simp: edit_def Let_def split: option.splits intro!: change_message_one
        dest: index_locked_reactions)
next
  case (OpDelete ok account ident)
  with assms show ?thesis
    by (auto simp: delete_message_def split: option.splits intro!: change_message_one
        dest: index_locked_reactions)
next
  case (OpReact ok account ident r)
  with assms show ?thesis
    by (auto simp: react_def split: option.splits intro!: change_message_one fold_reaction_one
        dest: index_locked_reactions)
next
  case (OpSetThread ok t)
  with assms show ?thesis by (auto simp: set_thread_def one_per_sender_def store_write_defs Let_def)
next
  case (OpMarkRead ok1 ok2 now account thread t)
  with assms show ?thesis
    by (auto simp: mark_read_def one_per_sender_def store_write_defs Let_def split: option.splits)
next
  case OpReopen
  obtain ms ids where l: "load_loop (hf_messages s) [] [] = (ms, ids)" by fastforce
  with load_loop_subset [OF l] assms(1) show ?thesis
    by (auto simp: OpReopen reopen_def open_store_def one_per_sender_def)
qed


definition demo_reaction :: "string \<Rightarrow> string \<Rightarrow> reaction" where
  "demo_reaction e sender = \<lparr>re_emoji = e, re_sender = sender, re_at = 0, re_removed = False\<rparr>"


section \<open>Unread counts\<close>

definition cursor_of :: "(string \<times> int) list \<Rightarrow> string \<Rightarrow> int" where
  "cursor_of reads key = (case map_of reads key of Some c \<Rightarrow> c | None \<Rightarrow> 0)"

definition waiting :: "(string \<times> int) list \<Rightarrow> string \<Rightarrow> string \<Rightarrow> hub_message list \<Rightarrow> nat" where
  "waiting reads account key ms = length (filter (\<lambda>m. (account = [] \<or> hm_account m = account)
     \<and> read_key (hm_account m) (hm_thread m) = key \<and> hm_incoming m \<and> hm_timestamp m > cursor_of reads key) ms)"

lemma note_message_unread:
  "ht_unread (note_message reads m t) = ht_unread t
     + (if hm_incoming m \<and> hm_timestamp m > cursor_of reads (read_key (hm_account m) (hm_thread m))
        then 1 else 0)"
  by (simp add: note_message_def cursor_of_def Let_def)

lemma thread_loop_unread:
  "map_of index key = Some t \<Longrightarrow>
     \<exists>t'. map_of (thread_loop reads account ms index) key = Some t'
        \<and> ht_unread t' = ht_unread t + int (waiting reads account key ms)"
proof (induction ms arbitrary: index t)
  case Nil
  then show ?case by (simp add: waiting_def)
next
  case (Cons m ms)
  show ?case
  proof (cases "account \<noteq> [] \<and> hm_account m \<noteq> account")
    case True
    with Cons show ?thesis by (auto simp: waiting_def)
  next
    case mine: False
    let ?k = "read_key (hm_account m) (hm_thread m)"
    let ?t = "case map_of index ?k of Some t \<Rightarrow> t
        | None \<Rightarrow> zero_thread\<lparr>ht_id := hm_thread m, ht_account := hm_account m\<rparr>"
    let ?index = "AList.update ?k (note_message reads m ?t) index"
    have step: "thread_loop reads account (m # ms) index = thread_loop reads account ms ?index"
      using mine by (auto simp: Let_def)
    show ?thesis
    proof (cases "?k = key")
      case True
      then have "map_of ?index key = Some (note_message reads m t)" using Cons.prems by simp
      from Cons.IH [OF this] step mine True show ?thesis
        by (auto simp: note_message_unread waiting_def)
    next
      case False
      then have "map_of ?index key = Some t" using Cons.prems by simp
      from Cons.IH [OF this] step mine False show ?thesis by (auto simp: waiting_def)
    qed
  qed
qed

lemma map_of_in_set: "map_of xs k = Some v \<Longrightarrow> (k, v) \<in> set xs"
  by (rule map_of_SomeD)

lemma described_key:
  "gomap_wf (hs_threads s) \<Longrightarrow> map_of (hs_threads s) key = Some t \<Longrightarrow> account = [] \<or> ht_account t = account \<Longrightarrow>
     map_of (described_threads account s) key = Some t"
  by (auto simp: described_threads_def gomap_wf_def distinct_map_filter dest: map_of_SomeD)



end
