(* ===== verification/Tools_Edit.thy ===== *)
theory Tools_Edit
  imports Agent_Types
begin

text \<open>
  The edit tool, \<^verbatim>\<open>src/internal/tools/edit.go\<close>: exact replacements in one file. Resolving the
  path, reading and writing the file, the two tests of the context and the JSON decoder are
  parameters; the result says what was written.
\<close>

section \<open>Arguments\<close>

definition string_arg :: "arguments \<Rightarrow> string \<Rightarrow> go_error + string" where
  "string_arg args name =
     (case map_of args name of
        None \<Rightarrow> Inl (ErrText (''missing required argument '' @ quote name))
      | Some (JString s) \<Rightarrow> Inr s
      | Some _ \<Rightarrow> Inl (ErrText (''argument '' @ quote name @ '' must be a string'')))"

fun edit_items :: "nat \<Rightarrow> json list \<Rightarrow> go_error + (string \<times> string) list" where
  "edit_items i [] = Inr []"
| "edit_items i (JObject members # items) =
     (case map_of members ''oldText'' of
        Some (JString old) \<Rightarrow>
          (case map_of members ''newText'' of
             Some (JString new) \<Rightarrow>
               (case edit_items (Suc i) items of Inl e \<Rightarrow> Inl e | Inr rest \<Rightarrow> Inr ((old, new) # rest))
           | _ \<Rightarrow> Inl (ErrText (''edits['' @ show_nat i @ ''].newText must be a string'')))
      | _ \<Rightarrow> Inl (ErrText (''edits['' @ show_nat i @ ''].oldText must be a string'')))"
| "edit_items i (_ # items) = Inl (ErrText (''edits['' @ show_nat i @ ''] must be an object''))"

definition no_edits :: go_error where
  "no_edits = ErrText ''edits must contain at least one replacement''"

definition edit_arguments ::
  "(string \<Rightarrow> go_error + json) \<Rightarrow> arguments \<Rightarrow> go_error + (string \<times> string) list" where
  "edit_arguments decode args =
     (case map_of args ''edits'' of
        None \<Rightarrow>
          (case (map_of args ''oldText'', map_of args ''newText'') of
             (Some (JString old), Some (JString new)) \<Rightarrow> Inr [(old, new)]
           | _ \<Rightarrow> Inl no_edits)
      | Some v \<Rightarrow>
          (case (case v of
                   JString s \<Rightarrow> (case decode s of
                       Inl e \<Rightarrow> Inl (Wrap ''edits must be an array: '' e) | Inr d \<Rightarrow> Inr d)
                 | _ \<Rightarrow> Inr v) of
             Inl e \<Rightarrow> Inl e
           | Inr (JArray items) \<Rightarrow> if items = [] then Inl no_edits else edit_items 0 items
           | Inr _ \<Rightarrow> Inl no_edits))"

section \<open>Line endings\<close>

abbreviation CR :: char where "CR \<equiv> CHR 0x0D"
abbreviation LF :: char where "LF \<equiv> CHR 0x0A"

definition byte_order_mark :: string where
  "byte_order_mark = [CHR 0xEF, CHR 0xBB, CHR 0xBF]"

definition normalize_newlines :: "string \<Rightarrow> string" where
  "normalize_newlines s = replace_all [CR] [LF] (replace_all [CR, LF] [LF] s)"

definition has_mixed_line_endings :: "string \<Rightarrow> bool" where
  "has_mixed_line_endings s =
     (let crlf = int (count_sub [CR, LF] s); bare = int (count_sub [LF] s) - crlf
      in crlf > 0 \<and> bare > 0)"

section \<open>The replacements\<close>

record replacement =
  rp_old :: string
  rp_new :: string
  rp_index :: nat

text \<open>The first loop: each text must be found exactly once.\<close>

fun locate_edits :: "string \<Rightarrow> string \<Rightarrow> nat \<Rightarrow> (string \<times> string) list \<Rightarrow> go_error + replacement list" where
  "locate_edits name content i [] = Inr []"
| "locate_edits name content i ((old, new) # edits) =
     (let old = normalize_newlines old; new = normalize_newlines new in
      if old = [] then Inl (ErrText (''edits['' @ show_nat i @ ''].oldText must not be empty''))
      else
        let count = count_sub old content in
        if count = 0 then
          Inl (ErrText (''could not find edits['' @ show_nat i @ ''] in '' @ name @ ''; oldText must match exactly''))
        else if count > 1 then
          Inl (ErrText (''found '' @ show_nat count @ '' occurrences of edits['' @ show_nat i @ ''] in '' @ name
            @ ''; oldText must be unique''))
        else
          case locate_edits name content (Suc i) edits of
            Inl e \<Rightarrow> Inl e
          | Inr rest \<Rightarrow>
              Inr (\<lparr>rp_old = old, rp_new = new,
                    rp_index = (case index_of old content of Some j \<Rightarrow> j | None \<Rightarrow> 0)\<rparr> # rest))"

fun edits_overlap :: "replacement list \<Rightarrow> bool" where
  "edits_overlap (a # b # es) \<longleftrightarrow> rp_index a + length (rp_old a) > rp_index b \<or> edits_overlap (b # es)"
| "edits_overlap _ \<longleftrightarrow> False"

definition apply_edit :: "replacement \<Rightarrow> string \<Rightarrow> string" where
  "apply_edit e content =
     take (rp_index e) content @ rp_new e @ drop (rp_index e + length (rp_old e)) content"

text \<open>The loop from the last edit to the first.\<close>

definition apply_edits :: "replacement list \<Rightarrow> string \<Rightarrow> string" where
  "apply_edits edits content = foldr apply_edit edits content"

text \<open>From the content of the file to the new content.\<close>

definition edit_content :: "string \<Rightarrow> (string \<times> string) list \<Rightarrow> string \<Rightarrow> go_error + string" where
  "edit_content name edits raw =
     (let (bom, content) = (if prefix byte_order_mark raw
            then (byte_order_mark, drop (length byte_order_mark) raw) else ([], raw));
          crlf = contains content [CR, LF]
      in if crlf \<and> has_mixed_line_endings content
         then Inl (ErrText (''edit '' @ name @ '': file mixes LF and CRLF line endings; normalise it first''))
         else
           let normalized = normalize_newlines content in
           case locate_edits name normalized 0 edits of
             Inl e \<Rightarrow> Inl e
           | Inr located \<Rightarrow>
               let ordered = sort_key rp_index located in
               if edits_overlap ordered then Inl (ErrText (''edits overlap in '' @ name))
               else
                 let updated = apply_edits ordered normalized in
                 if updated = normalized then Inl (ErrText (''no changes made to '' @ name))
                 else Inr (bom @ (if crlf then replace_all [LF] [CR, LF] updated else updated)))"

record edit_env =
  ee_decode :: "string \<Rightarrow> go_error + json"
  ee_resolve :: "string \<Rightarrow> go_error + string"
  ee_ctx_before :: "go_error option"
  ee_read :: "string \<Rightarrow> go_error + string"
  ee_ctx_after :: "go_error option"
  ee_write :: "string \<Rightarrow> string \<Rightarrow> go_error option"

definition edit_execute ::
  "edit_env \<Rightarrow> arguments \<Rightarrow> (go_error + tool_result) \<times> (string \<times> string) option" where
  "edit_execute en args =
     (case string_arg args ''path'' of Inl e \<Rightarrow> (Inl e, None)
      | Inr name \<Rightarrow>
      case edit_arguments (ee_decode en) args of Inl e \<Rightarrow> (Inl e, None)
      | Inr edits \<Rightarrow>
      case ee_resolve en name of Inl e \<Rightarrow> (Inl (Wrap (''edit '' @ name @ '': '') e), None)
      | Inr path \<Rightarrow>
      case ee_ctx_before en of Some e \<Rightarrow> (Inl e, None)
      | None \<Rightarrow>
      case ee_read en path of Inl e \<Rightarrow> (Inl (Wrap (''edit '' @ name @ '': '') e), None)
      | Inr raw \<Rightarrow>
      case edit_content name edits raw of Inl e \<Rightarrow> (Inl e, None)
      | Inr new \<Rightarrow>
      case ee_ctx_after en of Some e \<Rightarrow> (Inl e, None)
      | None \<Rightarrow>
      (case ee_write en path new of
         Some e \<Rightarrow> (Inl (Wrap (''edit '' @ name @ '': '') e), Some (path, new))
       | None \<Rightarrow>
           (Inr \<lparr>rs_content = [new_text (''Successfully replaced '' @ show_nat (length edits) @ '' block(s) in ''
                    @ name @ ''.'')],
                 rs_details = Some [(''replacements'', JInt (int (length edits)))], rs_usage = None,
                 rs_added_tool_names = [], rs_terminate = False\<rparr>, Some (path, new))))"

section \<open>All edits at once\<close>

text \<open>\<open>weave\<close>: gaps and fills alternating.\<close>

fun weave :: "string list \<Rightarrow> string list \<Rightarrow> string" where
  "weave (g # gs) (f # fs) = g @ f @ weave gs fs"
| "weave gs [] = concat gs"
| "weave [] fs = []"

definition occurs_at :: "string \<Rightarrow> replacement \<Rightarrow> bool" where
  "occurs_at content e \<longleftrightarrow>
     rp_index e + length (rp_old e) \<le> length content
     \<and> take (length (rp_old e)) (drop (rp_index e) content) = rp_old e"

lemma apply_edits_weave:
  "list_all (occurs_at content) es \<Longrightarrow> \<not> edits_overlap es \<Longrightarrow>
     (es \<noteq> [] \<Longrightarrow> k \<le> rp_index (hd es)) \<Longrightarrow>
     \<exists>gaps. length gaps = Suc (length es) \<and> drop k content = weave gaps (map rp_old es)
        \<and> apply_edits es content = take k content @ weave gaps (map rp_new es)"
proof (induction es arbitrary: k)
  case Nil
  then show ?case by (intro exI [of _ "[drop k content]"]) (simp add: apply_edits_def)
next
  case (Cons e es)
  let ?i = "rp_index e"
  let ?k = "?i + length (rp_old e)"
  have e: "occurs_at content e" and rest: "list_all (occurs_at content) es"
    using Cons.prems(1) by simp_all
  from e have occ: "?k \<le> length content" "take (length (rp_old e)) (drop ?i content) = rp_old e"
    by (simp_all add: occurs_at_def)
  have "\<not> edits_overlap es" "es \<noteq> [] \<Longrightarrow> ?k \<le> rp_index (hd es)"
    using Cons.prems(2) by (cases es; simp)+
  from Cons.IH [OF rest this] obtain gaps where gaps: "length gaps = Suc (length es)"
    "drop ?k content = weave gaps (map rp_old es)"
    "apply_edits es content = take ?k content @ weave gaps (map rp_new es)" by blast
  let ?gap = "take (?i - k) (drop k content)"
  have k: "k \<le> ?i" using Cons.prems(3) by simp
  have "drop k content = ?gap @ drop ?i content"
    using k by (metis append_take_drop_id drop_drop le_add_diff_inverse2)
  also have "drop ?i content = rp_old e @ drop ?k content"
    using occ by (metis add.commute append_take_drop_id drop_drop)
  finally have "drop k content = weave (?gap # gaps) (map rp_old (e # es))"
    using gaps(2) by simp
  moreover have "apply_edits (e # es) content = take k content @ weave (?gap # gaps) (map rp_new (e # es))"
  proof -
    have "apply_edits (e # es) content = apply_edit e (take ?k content @ weave gaps (map rp_new es))"
      using gaps(3) by (simp add: apply_edits_def)
    also have "\<dots> = take ?i content @ rp_new e @ weave gaps (map rp_new es)"
      using occ(1) by (simp add: apply_edit_def min_def)
    also have "take ?i content = take k content @ ?gap"
      using k by (metis le_add_diff_inverse take_add)
    finally show ?thesis by simp
  qed
  ultimately show ?case using gaps(1) by (intro exI [of _ "?gap # gaps"]) simp
qed

lemma locate_edits_spec:
  "locate_edits name content i edits = Inr located \<Longrightarrow>
     map (\<lambda>e. (rp_old e, rp_new e)) located
       = map (\<lambda>(old, new). (normalize_newlines old, normalize_newlines new)) edits
     \<and> list_all (\<lambda>e. rp_old e \<noteq> [] \<and> count_sub (rp_old e) content = 1
          \<and> rp_index e = (case index_of (rp_old e) content of Some j \<Rightarrow> j | None \<Rightarrow> 0)) located"
  by (induction name content i edits arbitrary: located rule: locate_edits.induct)
    (auto simp: Let_def split: if_splits sum.splits)

lemma count_sub_index: "index_of sub content = None \<Longrightarrow> count_sub sub content = 0"
  by (induction sub content rule: count_sub.induct) auto

lemma located_occurs:
  "count_sub (rp_old e) content = 1 \<Longrightarrow>
     rp_index e = (case index_of (rp_old e) content of Some j \<Rightarrow> j | None \<Rightarrow> 0) \<Longrightarrow> occurs_at content e"
  using count_sub_index [of "rp_old e" content] index_of_Some [of "rp_old e" content]
  by (cases "index_of (rp_old e) content") (auto simp: occurs_at_def)

lemma edit_content_parts:
  assumes "edit_content name edits raw = Inr new"
  obtains bom content located where "raw = bom @ content"
    and "bom = (if prefix byte_order_mark raw then byte_order_mark else [])"
    and "locate_edits name (normalize_newlines content) 0 edits = Inr located"
    and "\<not> edits_overlap (sort_key rp_index located)"
    and "new = bom @ (if contains content [CR, LF]
        then replace_all [LF] [CR, LF] (apply_edits (sort_key rp_index located) (normalize_newlines content))
        else apply_edits (sort_key rp_index located) (normalize_newlines content))"
proof -
  define bom where "bom = (if prefix byte_order_mark raw then byte_order_mark else [])"
  define content where "content = drop (length bom) raw"
  have "raw = bom @ content" by (auto simp: bom_def content_def prefix_def)
  moreover have "(if prefix byte_order_mark raw then (byte_order_mark, drop (length byte_order_mark) raw)
      else ([], raw)) = (bom, content)" by (simp add: bom_def content_def)
  ultimately show thesis
    using assms that [OF _ bom_def]
    by (auto simp: edit_content_def Let_def split: if_splits sum.splits)
qed

text \<open>Claim C21. An edit replaces all its texts at once: the normalised file is gaps and old texts
  alternating, and what is written is the same gaps with the new texts in their places, so no
  edit sees or shifts another, and everything between them is kept.\<close>

theorem edit_replaces_at_once:
  assumes "edit_content name edits raw = Inr new"
  shows "\<exists>bom content gaps (es :: replacement list). raw = bom @ content \<and> length gaps = Suc (length es)
    \<and> mset (map (\<lambda>e. (rp_old e, rp_new e)) es)
        = mset (map (\<lambda>(old, new). (normalize_newlines old, normalize_newlines new)) edits)
    \<and> normalize_newlines content = weave gaps (map rp_old es)
    \<and> new = bom @ (if contains content [CR, LF]
                    then replace_all [LF] [CR, LF] (weave gaps (map rp_new es))
                    else weave gaps (map rp_new es))"
proof -
  obtain bom content located where p: "raw = bom @ content"
    "locate_edits name (normalize_newlines content) 0 edits = Inr located"
    "\<not> edits_overlap (sort_key rp_index located)"
    "new = bom @ (if contains content [CR, LF]
        then replace_all [LF] [CR, LF] (apply_edits (sort_key rp_index located) (normalize_newlines content))
        else apply_edits (sort_key rp_index located) (normalize_newlines content))"
    using edit_content_parts [OF assms] by metis
  let ?es = "sort_key rp_index located"
  note spec = locate_edits_spec [OF p(2)]
  have "list_all (occurs_at (normalize_newlines content)) ?es"
    using spec located_occurs by (auto simp: list_all_iff)
  from apply_edits_weave [OF this p(3), of 0] obtain gaps where g: "length gaps = Suc (length ?es)"
    "normalize_newlines content = weave gaps (map rp_old ?es)"
    "apply_edits ?es (normalize_newlines content) = weave gaps (map rp_new ?es)" by auto
  have "mset (map (\<lambda>e. (rp_old e, rp_new e)) ?es) = mset (map (\<lambda>e. (rp_old e, rp_new e)) located)"
    by simp
  also have "\<dots> = mset (map (\<lambda>(old, new). (normalize_newlines old, normalize_newlines new)) edits)"
    using spec by simp
  finally have pairs: "mset (map (\<lambda>e. (rp_old e, rp_new e)) ?es)
      = mset (map (\<lambda>(old, new). (normalize_newlines old, normalize_newlines new)) edits)" .
  show ?thesis
  proof (intro exI conjI)
    show "raw = bom @ content" by (rule p(1))
    show "normalize_newlines content = weave gaps (map rp_old ?es)" by (rule g(2))
    show "new = bom @ (if contains content [CR, LF]
        then replace_all [LF] [CR, LF] (weave gaps (map rp_new ?es)) else weave gaps (map rp_new ?es))"
      using p(4) g(3) by simp
  qed (use g(1) pairs in simp_all)
qed

theorem edit_replaces_at_once_witness:
  "edit_content ''f'' [(''two'', ''2''), (''one'', ''1'')] ''one two'' = Inr ''1 2''
   \<and> (\<exists>gaps (es :: replacement list). normalize_newlines ''one two'' = weave gaps (map rp_old es))"
proof -
  have run: "edit_content ''f'' [(''two'', ''2''), (''one'', ''1'')] ''one two'' = Inr ''1 2''"
    by code_simp
  from edit_replaces_at_once [OF run] have "\<exists>bom content gaps (es :: replacement list). ''one two'' = bom @ content
      \<and> normalize_newlines content = weave gaps (map rp_old es) \<and> ''1 2'' = bom @ (if contains content [CR, LF]
                    then replace_all [LF] [CR, LF] (weave gaps (map rp_new es))
                    else weave gaps (map rp_new es))" by blast
  then obtain bom content gaps and es :: "replacement list" where *: "''one two'' = bom @ content"
    "normalize_newlines content = weave gaps (map rp_old es)"
    "''1 2'' = bom @ (if contains content [CR, LF]
                    then replace_all [LF] [CR, LF] (weave gaps (map rp_new es))
                    else weave gaps (map rp_new es))" by blast
  then have "content = ''one two''" by (cases bom) auto
  with *(2) have "normalize_newlines ''one two'' = weave gaps (map rp_old es)" by (simp only:)
  with run show ?thesis by blast
qed

section \<open>Line endings survive\<close>

lemma replace_all_none: "c \<notin> set s \<Longrightarrow> replace_all (c # w) new s = s"
  by (induction s) auto

lemma normalize_no_cr: "CR \<notin> set s \<Longrightarrow> normalize_newlines s = s"
  by (simp add: normalize_newlines_def replace_all_none)

lemma crlf_collapses: "CR \<notin> set s \<Longrightarrow> replace_all [CR, LF] [LF] (replace_all [LF] [CR, LF] s) = s"
  by (induction s) auto

lemma normalize_crlf: "CR \<notin> set s \<Longrightarrow> normalize_newlines (replace_all [LF] [CR, LF] s) = s"
  by (simp add: normalize_newlines_def crlf_collapses replace_all_none)

lemma no_crlf: "CR \<notin> set s \<Longrightarrow> \<not> contains s [CR, LF]"
  unfolding contains_def by (induction s) auto

lemma has_crlf: "LF \<in> set s \<Longrightarrow> contains (replace_all [LF] [CR, LF] s) [CR, LF]"
  unfolding contains_def by (induction s) auto



end
