(* ===== verification/Tools_Read.thy ===== *)
theory Tools_Read
  imports Tools_Edit
begin

text \<open>
  The read tool, \<^verbatim>\<open>src/internal/tools/read.go\<close> with its number arguments (\<^verbatim>\<open>arguments.go\<close>) and
  the limits of \<^verbatim>\<open>toolkit.go\<close>. Resolving, inspecting and reading the file and the base64
  encoder are parameters.
\<close>

definition max_output_lines :: nat where "max_output_lines = 2000"
definition max_output_bytes :: nat where "max_output_bytes = 51200"
definition max_text_read_bytes :: nat where "max_text_read_bytes = 67108864"
definition max_image_read_bytes :: nat where "max_image_read_bytes = 16777216"

text \<open>\<open>parse_float\<close> stands for \<^verbatim>\<open>json.Number.Float64\<close>. A \<^verbatim>\<open>float64\<close> of an integer argument is that
  integer here: rounding above 2 to the 53 is not modelled.\<close>

definition optional_positive_int ::
  "(string \<Rightarrow> rat option) \<Rightarrow> arguments \<Rightarrow> string \<Rightarrow> go_error + nat option" where
  "optional_positive_int parse_float args name =
     (let no_number = Inl (ErrText (''argument '' @ quote name @ '' must be a number''));
          no_int = Inl (ErrText (''argument '' @ quote name @ '' must be a positive integer''));
          check = (\<lambda>q::rat. if q \<le> 0 \<or> of_int \<lfloor>q\<rfloor> \<noteq> q \<or> q \<ge> 2 ^ 63 then no_int
                            else Inr (Some (nat \<lfloor>q\<rfloor>)))
      in case map_of args name of
           None \<Rightarrow> Inr None
         | Some JNull \<Rightarrow> Inr None
         | Some (JFloat (Finite q)) \<Rightarrow> check q
         | Some (JFloat _) \<Rightarrow> no_int
         | Some (JInt i) \<Rightarrow> check (of_int i)
         | Some (JInt64 i) \<Rightarrow> check (of_int i)
         | Some (JNumber s) \<Rightarrow> (case parse_float s of None \<Rightarrow> no_number | Some q \<Rightarrow> check q)
         | Some _ \<Rightarrow> no_number)"

text \<open>\<^verbatim>\<open>filepath.Ext\<close>, and \<^verbatim>\<open>strings.ToLower\<close> as far as these extensions can tell.\<close>

definition file_ext :: "string \<Rightarrow> string" where
  "file_ext path =
     (let base = takeWhile (\<lambda>c. c \<noteq> CHR ''/'') (rev path)
      in if CHR ''.'' \<in> set base then CHR ''.'' # rev (takeWhile (\<lambda>c. c \<noteq> CHR ''.'') base) else [])"

definition lower_char :: "char \<Rightarrow> char" where
  "lower_char c = (if 65 \<le> (of_char c :: nat) \<and> of_char c \<le> (90 :: nat) then char_of (of_char c + 32 :: nat) else c)"

definition image_mime :: "string \<Rightarrow> string" where
  "image_mime path =
     (let e = map lower_char (file_ext path)
      in if e = ''.jpg'' \<or> e = ''.jpeg'' then ''image/jpeg''
         else if e = ''.png'' then ''image/png''
         else if e = ''.gif'' then ''image/gif''
         else if e = ''.webp'' then ''image/webp''
         else if e = ''.bmp'' then ''image/bmp''
         else [])"

text \<open>\<^verbatim>\<open>%.1f\<close> of a multiple of 1/1024 is exact and rounds a tie to even.\<close>

definition format_bytes :: "nat \<Rightarrow> string" where
  "format_bytes n_bytes =
     (if n_bytes < 1024 then show_nat n_bytes @ ''B''
      else
        let q = n_bytes * 10 div 1024; r = n_bytes * 10 mod 1024;
            t = (if r > 512 \<or> r = 512 \<and> odd q then q + 1 else q)
        in show_nat (t div 10) @ ''.'' @ show_nat (t mod 10) @ ''KB'')"

section \<open>Truncation\<close>

record head_truncation =
  he_content :: string
  he_lines :: nat
  he_truncated :: bool
  he_reason :: string
  he_first_line_too_large :: bool

fun truncate_loop :: "string list \<Rightarrow> nat \<Rightarrow> nat \<Rightarrow> nat \<Rightarrow> string \<Rightarrow> head_truncation" where
  "truncate_loop [] max_lines max_bytes index out =
     \<lparr>he_content = out, he_lines = index, he_truncated = False, he_reason = [],
      he_first_line_too_large = False\<rparr>"
| "truncate_loop (line # lines) max_lines max_bytes index out =
     (if index \<ge> max_lines then
        \<lparr>he_content = out, he_lines = index, he_truncated = True, he_reason = ''lines'',
         he_first_line_too_large = False\<rparr>
      else
        let separator = (if index > 0 then 1 else 0)
        in if length out + separator + length line > max_bytes then
             \<lparr>he_content = out, he_lines = index, he_truncated = True, he_reason = ''bytes'',
              he_first_line_too_large = False\<rparr>
           else truncate_loop lines max_lines max_bytes (Suc index)
                  ((if separator \<noteq> 0 then out @ [LF] else out) @ line))"

definition truncate_head :: "string list \<Rightarrow> nat \<Rightarrow> nat \<Rightarrow> head_truncation" where
  "truncate_head lines max_lines max_bytes =
     (if lines \<noteq> [] \<and> length (hd lines) > max_bytes then
        \<lparr>he_content = [], he_lines = 0, he_truncated = True, he_reason = ''bytes'',
         he_first_line_too_large = True\<rparr>
      else truncate_loop lines max_lines max_bytes 0 [])"

section \<open>Reading text\<close>

definition plain_result :: "string \<Rightarrow> arguments option \<Rightarrow> tool_result" where
  "plain_result t details =
     \<lparr>rs_content = [new_text t], rs_details = details, rs_usage = None, rs_added_tool_names = [],
      rs_terminate = False\<rparr>"

definition read_text :: "string \<Rightarrow> nat \<Rightarrow> nat option \<Rightarrow> go_error + tool_result" where
  "read_text data offset limit =
     (let lines = split_at LF data in
      if offset > length lines then
        Inl (ErrText (''offset '' @ show_nat offset @ '' is beyond end of file ('' @ show_nat (length lines)
          @ '' lines total)''))
      else
        let rest = drop (offset - 1) lines;
            (selected, user_end) = (case limit of
                Some l \<Rightarrow> if l < length rest then (take l rest, offset - 1 + l) else (rest, length lines)
              | None \<Rightarrow> (rest, length lines));
            t = truncate_head selected max_output_lines max_output_bytes
        in if he_first_line_too_large t then
             Inr (plain_result (''[Line '' @ show_nat offset @ '' is '' @ format_bytes (length (hd selected))
               @ '', exceeds '' @ format_bytes max_output_bytes
               @ '' limit. Use bash to inspect a bounded slice.]'') None)
           else
             let shown_end = offset + he_lines t - 1
             in if he_truncated t then
                  Inr (plain_result (he_content t @ [LF, LF] @ ''[Showing lines '' @ show_nat offset @ ''-''
                      @ show_nat shown_end @ '' of '' @ show_nat (length lines) @ ''. Use offset=''
                      @ show_nat (shown_end + 1) @ '' to continue.]'')
                    (Some [(''truncated'', JBool True), (''reason'', JString (he_reason t)),
                           (''totalLines'', JInt (int (length lines)))]))
                else if limit \<noteq> None \<and> user_end < length lines then
                  Inr (plain_result (he_content t @ [LF, LF] @ ''['' @ show_nat (length lines - user_end)
                      @ '' more lines in file. Use offset='' @ show_nat (user_end + 1) @ '' to continue.]'') None)
                else Inr (plain_result (he_content t) None))"

record read_env =
  rn_parse_float :: "string \<Rightarrow> rat option"
  rn_resolve :: "string \<Rightarrow> go_error + string"
  rn_ctx_before :: "go_error option"
  rn_stat :: "string \<Rightarrow> go_error + (bool \<times> nat)"
  rn_read :: "string \<Rightarrow> go_error + string"
  rn_ctx_after :: "go_error option"
  rn_base64 :: "string \<Rightarrow> string"

definition read_execute :: "read_env \<Rightarrow> arguments \<Rightarrow> go_error + tool_result" where
  "read_execute en args =
     (case string_arg args ''path'' of Inl e \<Rightarrow> Inl e
      | Inr name \<Rightarrow>
      case optional_positive_int (rn_parse_float en) args ''offset'' of Inl e \<Rightarrow> Inl e
      | Inr offset \<Rightarrow>
      case optional_positive_int (rn_parse_float en) args ''limit'' of Inl e \<Rightarrow> Inl e
      | Inr limit \<Rightarrow>
      let fail = (\<lambda>e. Inl (Wrap (''read '' @ name @ '': '') e)) in
      case rn_resolve en name of Inl e \<Rightarrow> fail e
      | Inr path \<Rightarrow>
      case rn_ctx_before en of Some e \<Rightarrow> Inl e
      | None \<Rightarrow>
      case rn_stat en path of Inl e \<Rightarrow> fail e
      | Inr (regular, n_bytes) \<Rightarrow>
      if \<not> regular then fail (ErrText ''not a regular file'')
      else
        let mime = image_mime path;
            read_limit = (if mime \<noteq> [] then max_image_read_bytes else max_text_read_bytes)
        in if n_bytes > read_limit then
             fail (ErrText (''file is '' @ format_bytes n_bytes @ '', larger than the '' @ format_bytes read_limit
               @ '' limit; use bash to inspect a bounded range''))
           else
             case rn_read en path of Inl e \<Rightarrow> fail e
             | Inr whole \<Rightarrow>
             let data = take (read_limit + 1) whole in
             if length data > read_limit then
               fail (ErrText (''file grew past the '' @ format_bytes read_limit
                 @ '' limit while reading; use bash to inspect a bounded range''))
             else
               case rn_ctx_after en of Some e \<Rightarrow> Inl e
               | None \<Rightarrow>
               if mime \<noteq> [] then
                 Inr ((plain_result (''Read image file ['' @ mime @ '']'') None)
                   \<lparr>rs_content := [new_text (''Read image file ['' @ mime @ '']''),
                      Image \<lparr>im_data = rn_base64 en data, im_mime = mime\<rparr>]\<rparr>)
               else read_text data (case offset of None \<Rightarrow> 1 | Some o' \<Rightarrow> o') limit)"

section \<open>What a page shows\<close>

lemma join_append: "xs \<noteq> [] \<Longrightarrow> ys \<noteq> [] \<Longrightarrow> join [LF] (xs @ ys) = join [LF] xs @ [LF] @ join [LF] ys"
proof (induction xs)
  case Nil
  then show ?case by simp
next
  case (Cons x xs)
  then show ?case by (cases xs) (simp_all add: join_Cons)
qed

text \<open>The state of the truncation loop after \<open>n\<close> lines.\<close>

definition shown :: "string list \<Rightarrow> nat \<Rightarrow> string" where
  "shown lines n = join [LF] (take n lines)"

lemma shown_Suc:
  "n < length lines \<Longrightarrow>
     shown lines (Suc n) = (if n > 0 then shown lines n @ [LF] else shown lines n) @ lines ! n"
  by (cases "n = 0", simp add: shown_def take_Suc_conv_app_nth)
    (use join_append [of "take n lines" "[lines ! n]"] in \<open>force simp: shown_def take_Suc_conv_app_nth\<close>)

lemma truncate_loop_spec:
  assumes "n \<le> length lines" and "length (shown lines n) \<le> max_bytes" and "n \<le> max_lines"
    and "t = truncate_loop (drop n lines) max_lines max_bytes n (shown lines n)"
  shows "n \<le> he_lines t \<and> he_lines t \<le> length lines \<and> he_lines t \<le> max_lines
    \<and> he_content t = shown lines (he_lines t) \<and> length (he_content t) \<le> max_bytes
    \<and> \<not> he_first_line_too_large t
    \<and> (he_truncated t \<longleftrightarrow> he_lines t < length lines)
    \<and> (he_truncated t \<longrightarrow> he_lines t = max_lines \<or> length (shown lines (Suc (he_lines t))) > max_bytes)"
  using assms
proof (induction "length lines - n" arbitrary: n)
  case 0
  then show ?case by simp
next
  case (Suc k)
  then have n: "n < length lines" by simp
  then have d: "drop n lines = lines ! n # drop (Suc n) lines" by (simp add: Cons_nth_drop_Suc)
  show ?case
  proof (cases "n \<ge> max_lines")
    case True
    with Suc.prems n d show ?thesis by simp
  next
    case False
    let ?sep = "if n > 0 then 1 else 0 :: nat"
    have len: "length (shown lines (Suc n)) = length (shown lines n) + ?sep + length (lines ! n)"
      using shown_Suc [OF n] by simp
    show ?thesis
    proof (cases "length (shown lines (Suc n)) > max_bytes")
      case True
      with Suc.prems n d len False show ?thesis by (simp add: Let_def)
    next
      case small: False
      have "t = truncate_loop (drop (Suc n) lines) max_lines max_bytes (Suc n) (shown lines (Suc n))"
        using Suc.prems(4) d False small len shown_Suc [OF n] by (simp add: Let_def)
      from Suc.hyps(1) [OF _ _ _ _ this] Suc.hyps(2) small False n show ?thesis by fastforce
    qed
  qed
qed

text \<open>Claim C23. What the read tool shows of a list of lines is its longest head within the limits: whole
  lines, in order, at most the two limits, marked truncated exactly when lines are missing,
  and then one more line would break a limit.\<close>

theorem truncate_head_maximal:
  assumes "t = truncate_head lines max_lines max_bytes" and "lines \<noteq> [] \<longrightarrow> length (hd lines) \<le> max_bytes"
  shows "he_content t = join [LF] (take (he_lines t) lines) \<and> he_lines t \<le> length lines
    \<and> he_lines t \<le> max_lines \<and> length (he_content t) \<le> max_bytes
    \<and> (he_truncated t \<longleftrightarrow> he_lines t < length lines)
    \<and> (he_truncated t \<longrightarrow> he_lines t = max_lines
        \<or> length (join [LF] (take (Suc (he_lines t)) lines)) > max_bytes)"
proof -
  have "t = truncate_loop (drop 0 lines) max_lines max_bytes 0 (shown lines 0)"
    using assms by (auto simp: truncate_head_def shown_def)
  from truncate_loop_spec [OF _ _ _ this] show ?thesis by (auto simp: shown_def)
qed

theorem truncate_head_maximal_witness:
  "he_lines (truncate_head [''ab'', ''cd'', ''ef''] 5 6) = 2
   \<and> he_content (truncate_head [''ab'', ''cd'', ''ef''] 5 6) = join [LF] (take 2 [''ab'', ''cd'', ''ef''])"
proof -
  have "he_lines (truncate_head [''ab'', ''cd'', ''ef''] 5 6) = 2" by code_simp
  with truncate_head_maximal [OF refl, of "[''ab'', ''cd'', ''ef'']" 6 5] show ?thesis by simp
qed

text \<open>Following the offsets a page names: \<open>read_pages\<close> collects the pages from one offset on.\<close>

function read_pages :: "string list \<Rightarrow> nat \<Rightarrow> string list" where
  "read_pages lines offset =
     (if offset = 0 \<or> offset > length lines then []
      else
        let t = truncate_head (drop (offset - 1) lines) max_output_lines max_output_bytes
        in if he_lines t = 0 then [] else he_content t # read_pages lines (offset + he_lines t))"
  by pat_completeness auto
termination
  by (relation "measure (\<lambda>(lines, offset). Suc (length lines) - offset)") auto

declare read_pages.simps [simp del]

lemma first_page:
  assumes "offset \<noteq> 0" and "offset \<le> length lines" and "\<forall>l \<in> set lines. length l \<le> max_output_bytes"
    and "t = truncate_head (drop (offset - 1) lines) max_output_lines max_output_bytes"
  shows "0 < he_lines t \<and> he_lines t \<le> length (drop (offset - 1) lines)
    \<and> he_content t = join [LF] (take (he_lines t) (drop (offset - 1) lines))"
proof -
  let ?rest = "drop (offset - 1) lines"
  have rest: "?rest \<noteq> []" using assms(1,2) by simp
  then have small: "length (hd ?rest) \<le> max_output_bytes"
    using assms(3) by (meson hd_in_set in_set_dropD)
  have "t = truncate_loop (drop 0 ?rest) max_output_lines max_output_bytes 0 (shown ?rest 0)"
    using assms(4) small by (auto simp: truncate_head_def shown_def)
  note spec = truncate_loop_spec [OF _ _ _ this]
  have "shown ?rest (Suc 0) = hd ?rest" using rest by (cases ?rest) (auto simp: shown_def)
  have "he_lines t \<noteq> 0"
  proof
    assume "he_lines t = 0"
    with spec rest \<open>shown ?rest (Suc 0) = hd ?rest\<close> small show False
      by (simp add: shown_def max_output_lines_def)
  qed
  with spec show ?thesis by (simp add: shown_def)
qed

lemma read_pages_join:
  "offset \<noteq> 0 \<Longrightarrow> offset \<le> length lines \<Longrightarrow> \<forall>l \<in> set lines. length l \<le> max_output_bytes \<Longrightarrow>
     read_pages lines offset \<noteq> [] \<and> join [LF] (read_pages lines offset) = join [LF] (drop (offset - 1) lines)"
proof (induction lines offset rule: read_pages.induct)
  case (1 lines offset)
  define t where "t = truncate_head (drop (offset - 1) lines) max_output_lines max_output_bytes"
  let ?rest = "drop (offset - 1) lines"
  note page = first_page [OF 1(2-4) t_def]
  have unfold: "read_pages lines offset = he_content t # read_pages lines (offset + he_lines t)"
    using 1(2,3) page by (simp add: read_pages.simps [of lines offset] Let_def t_def)
  show ?case
  proof (cases "offset + he_lines t \<le> length lines")
    case False
    then have "read_pages lines (offset + he_lines t) = []"
      by (simp add: read_pages.simps [of lines "offset + he_lines t"])
    moreover have "take (he_lines t) ?rest = ?rest" using False 1(2) by simp
    ultimately show ?thesis using page unfold by simp
  next
    case True
    have ih: "read_pages lines (offset + he_lines t) \<noteq> []"
      "join [LF] (read_pages lines (offset + he_lines t)) = join [LF] (drop (offset + he_lines t - 1) lines)"
      using 1(1) [OF _ t_def] 1(2-4) page True by auto
    have rest: "drop (he_lines t) ?rest = drop (offset + he_lines t - 1) lines"
      using 1(2) by (simp add: add.commute)
    have "take (he_lines t) ?rest \<noteq> []" "drop (he_lines t) ?rest \<noteq> []"
      using page 1(2,3) True unfolding rest by auto
    then have "join [LF] ?rest = join [LF] (take (he_lines t) ?rest) @ [LF] @ join [LF] (drop (he_lines t) ?rest)"
      by (metis append_take_drop_id join_append)
    with ih page unfold rest show ?thesis by (simp add: join_Cons)
  qed
qed



end
