(* ===== verification/Unicode.thy ===== *)
theory Unicode
  imports Prelude
begin

text \<open>
  UTF-8 and UTF-16 as Go's \<^verbatim>\<open>unicode/utf8\<close> and \<^verbatim>\<open>unicode/utf16\<close> read them: a rune is a natural
  number, a byte that starts no well-formed encoding is the replacement rune of width one, and
  a rune outside the scalar values is written as the replacement rune.
\<close>

section \<open>Decoding\<close>

type_synonym rune = nat

definition rune_error :: rune where
  "rune_error = 0xFFFD"

abbreviation byte :: "char \<Rightarrow> nat" where
  "byte c \<equiv> of_char c"

definition in_range :: "nat \<Rightarrow> nat \<Rightarrow> char \<Rightarrow> bool" where
  "in_range lo hi c \<longleftrightarrow> lo \<le> byte c \<and> byte c \<le> hi"

abbreviation continues :: "char \<Rightarrow> bool" where
  "continues \<equiv> in_range 0x80 0xBF"

definition low6 :: "char \<Rightarrow> nat" where
  "low6 c = byte c mod 64"

text \<open>The second byte's range depends on the first: overlong forms, surrogates and values above
  the last code point are not well formed.\<close>

definition second_range :: "char \<Rightarrow> char \<Rightarrow> bool" where
  "second_range c =
     (if byte c = 0xE0 then in_range 0xA0 0xBF
      else if byte c = 0xED then in_range 0x80 0x9F
      else if byte c = 0xF0 then in_range 0x90 0xBF
      else if byte c = 0xF4 then in_range 0x80 0x8F
      else continues)"

fun decode_multi :: "char \<Rightarrow> string \<Rightarrow> (rune \<times> nat) option" where
  "decode_multi c (d # s) =
     (if in_range 0xC2 0xDF c \<and> continues d then Some (byte c mod 32 * 64 + low6 d, 2)
      else case s of
        e # s' \<Rightarrow>
          if in_range 0xE0 0xEF c \<and> second_range c d \<and> continues e
          then Some ((byte c mod 16 * 64 + low6 d) * 64 + low6 e, 3)
          else (case s' of
            f # _ \<Rightarrow>
              if in_range 0xF0 0xF4 c \<and> second_range c d \<and> continues e \<and> continues f
              then Some (((byte c mod 8 * 64 + low6 d) * 64 + low6 e) * 64 + low6 f, 4)
              else None
          | [] \<Rightarrow> None)
      | [] \<Rightarrow> None)"
| "decode_multi c [] = None"

fun decode_rune :: "string \<Rightarrow> rune \<times> nat" where
  "decode_rune [] = (rune_error, 0)"
| "decode_rune (c # s) =
     (if byte c < 0x80 then (byte c, 1)
      else case decode_multi c s of Some r \<Rightarrow> r | None \<Rightarrow> (rune_error, 1))"

lemma decode_multi_width: "decode_multi c s = Some (r, n) \<Longrightarrow> 2 \<le> n \<and> n \<le> 4 \<and> n \<le> Suc (length s)"
  by (induction c s rule: decode_multi.induct) (auto split: if_splits list.splits)

lemma decode_rune_width: "s \<noteq> [] \<Longrightarrow> 1 \<le> snd (decode_rune s) \<and> snd (decode_rune s) \<le> length s"
  by (cases s) (auto split: option.splits dest: decode_multi_width)

text \<open>\<^verbatim>\<open>[]rune(s)\<close> and \<^verbatim>\<open>string(runes)\<close>.\<close>

function runes :: "string \<Rightarrow> rune list" where
  "runes s = (if s = [] then [] else fst (decode_rune s) # runes (drop (snd (decode_rune s)) s))"
  by pat_completeness auto
termination
  by (relation "measure length") (use decode_rune_width in fastforce)+

declare runes.simps [simp del]

section \<open>Encoding\<close>

definition scalar :: "rune \<Rightarrow> bool" where
  "scalar r \<longleftrightarrow> r < 0xD800 \<or> 0xDFFF < r \<and> r \<le> 0x10FFFF"

definition encode_scalar :: "rune \<Rightarrow> string" where
  "encode_scalar r =
     (if r < 0x80 then [char_of r]
      else if r < 0x800 then [char_of (0xC0 + r div 64), char_of (0x80 + r mod 64)]
      else if r < 0x10000
      then [char_of (0xE0 + r div 4096), char_of (0x80 + r div 64 mod 64), char_of (0x80 + r mod 64)]
      else [char_of (0xF0 + r div 262144), char_of (0x80 + r div 4096 mod 64),
            char_of (0x80 + r div 64 mod 64), char_of (0x80 + r mod 64)])"

definition encode_rune :: "rune \<Rightarrow> string" where
  "encode_rune r = encode_scalar (if scalar r then r else rune_error)"

definition of_runes :: "rune list \<Rightarrow> string" where
  "of_runes rs = concat (map encode_rune rs)"

lemma byte_of_nat [simp]: "n < 256 \<Longrightarrow> byte (char_of n) = n"
  by (simp add: of_char_of)

lemma scalar_error [simp]: "scalar rune_error"
  by (simp add: scalar_def rune_error_def)

lemma in_range_char [simp]: "n < 256 \<Longrightarrow> in_range lo hi (char_of n) = (lo \<le> n \<and> n \<le> hi)"
  by (simp add: in_range_def)

lemma low6_char [simp]: "n < 64 \<Longrightarrow> low6 (char_of (0x80 + n)) = n"
  using mod_mult_self3 [of 2 64 n] by (simp add: low6_def)

lemma lead_mod:
  "n < 32 \<Longrightarrow> (0xC0 + n) mod 32 = (n::nat)"
  "n < 16 \<Longrightarrow> (0xE0 + n) mod 16 = (n::nat)"
  "n < 8 \<Longrightarrow> (0xF0 + n) mod 8 = (n::nat)"
  using mod_mult_self3 [of 6 32 n] mod_mult_self3 [of 14 16 n] mod_mult_self3 [of 30 8 n] by simp_all

lemma low_bits [simp]: "(r::nat) mod 64 \<le> 63" "r mod 64 < 64" "r mod 64 < 128"
proof -
  show "r mod 64 < 64" by simp
  then show "r mod 64 \<le> 63" "r mod 64 < 128" by linarith+
qed

lemma split_digits:
  "r div 4096 * 64 + r div 64 mod 64 = r div 64"
  "r div 262144 * 64 + r div 4096 mod 64 = r div 4096"
  "r div 64 * 64 + r mod 64 = r" for r :: nat
proof -
  have "r div 4096 = r div 64 div 64" "r div 262144 = r div 4096 div 64"
    using div_mult2_eq [of r 64 64] div_mult2_eq [of r 4096 64] by simp_all
  then show "r div 4096 * 64 + r div 64 mod 64 = r div 64"
    "r div 262144 * 64 + r div 4096 mod 64 = r div 4096" "r div 64 * 64 + r mod 64 = r"
    by simp_all
qed

lemma decode_bytes:
  "2 \<le> q \<Longrightarrow> q < 32 \<Longrightarrow> d < 64 \<Longrightarrow>
     decode_rune (char_of (0xC0 + q) # char_of (0x80 + d) # s) = (q * 64 + d, 2)"
  "q < 16 \<Longrightarrow> d < 64 \<Longrightarrow> e < 64 \<Longrightarrow> second_range (char_of (0xE0 + q)) (char_of (0x80 + d)) \<Longrightarrow>
     decode_rune (char_of (0xE0 + q) # char_of (0x80 + d) # char_of (0x80 + e) # s)
       = ((q * 64 + d) * 64 + e, 3)"
  "q < 5 \<Longrightarrow> d < 64 \<Longrightarrow> e < 64 \<Longrightarrow> f < 64 \<Longrightarrow>
     second_range (char_of (0xF0 + q)) (char_of (0x80 + d)) \<Longrightarrow>
     decode_rune (char_of (0xF0 + q) # char_of (0x80 + d) # char_of (0x80 + e) # char_of (0x80 + f) # s)
       = (((q * 64 + d) * 64 + e) * 64 + f, 4)"
  by (simp_all add: lead_mod)

lemma decode_encode_scalar:
  assumes "scalar r"
  shows "decode_rune (encode_scalar r @ s) = (r, length (encode_scalar r))"
proof -
  note digits = split_digits [of r]
  consider (one) "r < 0x80" | (two) "0x80 \<le> r" "r < 0x800"
    | (three) "0x800 \<le> r" "r < 0x10000" | (four) "0x10000 \<le> r" "r \<le> 0x10FFFF"
    using assms by (fastforce simp: scalar_def)
  then show ?thesis
  proof cases
    case one
    then show ?thesis by (simp add: encode_scalar_def)
  next
    case two
    then have "\<not> r < 0x80" "2 \<le> r div 64" "r div 64 < 32" by linarith+
    with two(2) digits show ?thesis by (simp add: encode_scalar_def lead_mod)
  next
    case three
    let ?d = "r div 64 mod 64"
    have c: "r div 4096 < 16" "r div 4096 \<le> 15" using three by linarith+
    have "0x20 \<le> ?d" if "r div 4096 = 0"
    proof -
      from that digits(1) have "?d = r div 64" by simp
      with three show ?thesis by linarith
    qed
    moreover have "?d < 0x20" if "r div 4096 = 13"
    proof (rule ccontr)
      assume "\<not> ?d < 0x20"
      with that digits(1) have "0x360 \<le> r div 64" "r div 64 < 0x380" using low_bits(2) [of "r div 64"] by linarith+
      then have "0xD800 \<le> r" "r < 0xE000" by linarith+
      with assms show False by (simp add: scalar_def)
    qed
    ultimately have "second_range (char_of (0xE0 + r div 4096)) (char_of (0x80 + ?d))"
      using c(1) by (auto simp: second_range_def)
    with three c(1) digits show ?thesis by (simp add: encode_scalar_def decode_bytes del: decode_rune.simps)
  next
    case four
    let ?d = "r div 4096 mod 64"
    have c: "r div 262144 < 5" "r div 262144 \<le> 4" using four by linarith+
    have "0x10 \<le> ?d" if "r div 262144 = 0"
    proof -
      from that digits(2) have "?d = r div 4096" by simp
      with four show ?thesis by linarith
    qed
    moreover have "?d < 0x10" if "r div 262144 = 4"
    proof (rule ccontr)
      assume "\<not> ?d < 0x10"
      with that digits(2) have "0x110 \<le> r div 4096" by linarith
      then have "0x110000 \<le> r" by linarith
      with four show False by simp
    qed
    ultimately have "second_range (char_of (0xF0 + r div 262144)) (char_of (0x80 + ?d))"
      using c(1) by (auto simp: second_range_def)
    with four c(1) digits show ?thesis by (simp add: encode_scalar_def decode_bytes del: decode_rune.simps)
  qed
qed

lemma encode_scalar_nonempty [simp]: "encode_scalar r \<noteq> []"
  by (simp add: encode_scalar_def)

lemma runes_encode [simp]:
  "runes (encode_rune r @ s) = (if scalar r then r else rune_error) # runes s"
  by (simp add: encode_rune_def runes.simps [of "encode_scalar _ @ s"] decode_encode_scalar)

lemma runes_Nil [simp]: "runes [] = []"
  by (simp add: runes.simps)

lemma runes_of_runes: "list_all scalar rs \<Longrightarrow> runes (of_runes rs) = rs"
  by (induction rs) (simp_all add: of_runes_def)

section \<open>Words\<close>

text \<open>\<^verbatim>\<open>strings.Fields\<close>: the maximal runs of bytes that start no white space.\<close>

fun take_word :: "string \<Rightarrow> string \<times> string" where
  "take_word [] = ([], [])"
| "take_word (c # s) =
     (if strip_first white_encodings (c # s) \<noteq> None then ([], c # s)
      else let (w, r) = take_word s in (c # w, r))"

lemma take_word_append: "take_word s = (w, r) \<Longrightarrow> s = w @ r"
  by (induction s arbitrary: w) (auto split: if_splits prod.splits)

lemma trim_left_shorter: "length (trim_left s) \<le> length s"
  using trim_left_suffix [of s] by (rule suffix_length_le)

function fields_of :: "string \<Rightarrow> string list" where
  "fields_of s =
     (if trim_left s = [] then []
      else let (w, r) = take_word (trim_left s) in w # fields_of r)"
  by pat_completeness auto
termination
proof (relation "measure length")
  fix s w r :: string and p
  assume t: "trim_left s \<noteq> []" and p: "p = take_word (trim_left s)" "(w, r) = p"
  then have wr: "(w, r) = take_word (trim_left s)" by simp
  from t obtain c u where cu: "trim_left s = c # u" by (cases "trim_left s") auto
  with trim_left_fixed [of s] wr have "w \<noteq> []" by (auto split: prod.splits)
  with take_word_append [OF wr [symmetric]] have "length r < length (trim_left s)" by simp
  with trim_left_shorter [of s] show "(r, s) \<in> measure length" by simp
qed auto

declare fields_of.simps [simp del]

section \<open>UTF-16\<close>

text \<open>\<^verbatim>\<open>utf16.Encode\<close> and \<^verbatim>\<open>utf16.Decode\<close>: a lone surrogate decodes to the replacement rune.\<close>

definition utf16_rune :: "rune \<Rightarrow> nat list" where
  "utf16_rune r =
     (if \<not> scalar r then [rune_error]
      else if r < 0x10000 then [r]
      else [0xD800 + (r - 0x10000) div 1024, 0xDC00 + (r - 0x10000) mod 1024])"

definition utf16_encode :: "rune list \<Rightarrow> nat list" where
  "utf16_encode rs = concat (map utf16_rune rs)"

definition high_surrogate :: "nat \<Rightarrow> bool" where
  "high_surrogate u \<longleftrightarrow> 0xD800 \<le> u \<and> u < 0xDC00"

definition low_surrogate :: "nat \<Rightarrow> bool" where
  "low_surrogate u \<longleftrightarrow> 0xDC00 \<le> u \<and> u < 0xE000"

fun utf16_decode :: "nat list \<Rightarrow> rune list" where
  "utf16_decode [] = []"
| "utf16_decode [u] = [if high_surrogate u \<or> low_surrogate u then rune_error else u]"
| "utf16_decode (u # v # us) =
     (if high_surrogate u \<and> low_surrogate v
      then ((u - 0xD800) * 1024 + (v - 0xDC00) + 0x10000) # utf16_decode us
      else (if high_surrogate u \<or> low_surrogate u then rune_error else u) # utf16_decode (v # us))"

definition utf16_length :: "string \<Rightarrow> nat" where
  "utf16_length s = length (utf16_encode (runes s))"

definition utf16_suffix :: "string \<Rightarrow> nat \<Rightarrow> string" where
  "utf16_suffix s maximum =
     (let encoded = utf16_encode (runes s)
      in if length encoded \<le> maximum then s
         else of_runes (utf16_decode (drop (length encoded - maximum) encoded)))"

lemma utf16_rune_code: "u \<in> set (utf16_rune r) \<Longrightarrow> u < 0x10000"
  by (auto simp: utf16_rune_def scalar_def rune_error_def split: if_splits)

lemma length_utf16_rune: "length (utf16_rune r) = (if scalar r \<and> 0x10000 \<le> r then 2 else 1)"
  by (auto simp: utf16_rune_def)

text \<open>Decoding and encoding again never makes the text longer.\<close>

lemma decoded_scalar:
  "\<forall>u \<in> set us. u < 0x10000 \<Longrightarrow> list_all scalar (utf16_decode us)"
proof (induction us rule: utf16_decode.induct)
  case (3 u v us)
  have pair: "scalar ((u - 0xD800) * 1024 + (v - 0xDC00) + 0x10000)"
    if "high_surrogate u" "low_surrogate v"
  proof -
    from that have "u - 0xD800 \<le> 1023" "v - 0xDC00 \<le> 1023"
      by (auto simp: high_surrogate_def low_surrogate_def)
    then show ?thesis by (simp add: scalar_def)
  qed
  have one: "scalar (if high_surrogate u \<or> low_surrogate u then rune_error else u)"
    using 3(3) by (auto simp: scalar_def rune_error_def high_surrogate_def low_surrogate_def)
  show ?case
  proof (cases "high_surrogate u \<and> low_surrogate v")
    case True
    with 3 pair show ?thesis by simp
  next
    case False
    with 3 one show ?thesis by auto
  qed
qed (auto simp: scalar_def rune_error_def high_surrogate_def low_surrogate_def)

lemma decoded_length: "\<forall>u \<in> set us. u < 0x10000 \<Longrightarrow> length (utf16_encode (utf16_decode us)) \<le> length us"
proof (induction us rule: utf16_decode.induct)
  case (3 u v us)
  have one: "length (utf16_rune (if high_surrogate u \<or> low_surrogate u then rune_error else u)) = 1"
    using 3(3) by (simp add: length_utf16_rune rune_error_def)
  have two: "length (utf16_rune r) \<le> 2" for r by (simp add: length_utf16_rune)
  show ?case
  proof (cases "high_surrogate u \<and> low_surrogate v")
    case True
    with 3(1,3) have "length (utf16_encode (utf16_decode us)) \<le> length us" by simp
    moreover have "utf16_decode (u # v # us)
        = ((u - 0xD800) * 1024 + (v - 0xDC00) + 0x10000) # utf16_decode us" using True by simp
    ultimately show ?thesis
      using two [of "(u - 0xD800) * 1024 + (v - 0xDC00) + 0x10000"]
      by (simp add: utf16_encode_def del: utf16_decode.simps)
  next
    case False
    then have "utf16_decode (u # v # us)
        = (if high_surrogate u \<or> low_surrogate u then rune_error else u) # utf16_decode (v # us)"
      by auto
    with 3(2) [OF False] 3(3) one show ?thesis by (simp add: utf16_encode_def)
  qed
qed (auto simp: utf16_encode_def length_utf16_rune rune_error_def)

lemma utf16_suffix_bound: "utf16_length (utf16_suffix s n) \<le> n"
proof -
  let ?e = "utf16_encode (runes s)"
  let ?d = "drop (length ?e - n) ?e"
  have codes: "\<forall>u \<in> set ?d. u < 0x10000"
    using utf16_rune_code by (auto simp: utf16_encode_def dest!: in_set_dropD)
  show ?thesis
  proof (cases "length ?e \<le> n")
    case True
    then show ?thesis by (simp add: utf16_suffix_def utf16_length_def Let_def)
  next
    case False
    have "utf16_length (utf16_suffix s n) = length (utf16_encode (utf16_decode ?d))"
      using False runes_of_runes [OF decoded_scalar [OF codes]]
      by (simp add: utf16_suffix_def utf16_length_def Let_def)
    also have "\<dots> \<le> length ?d" by (rule decoded_length [OF codes])
    finally show ?thesis by simp
  qed
qed

lemma utf16_suffix_short: "utf16_length s \<le> n \<Longrightarrow> utf16_suffix s n = s"
  by (simp add: utf16_suffix_def utf16_length_def)

lemma utf16_suffix_idem: "utf16_suffix (utf16_suffix s n) n = utf16_suffix s n"
  by (rule utf16_suffix_short [OF utf16_suffix_bound])

end
