(* ===== verification/Chat.thy ===== *)
theory Chat
  imports Agent_Loop Event_Stream Compaction Goal Unicode
begin

text \<open>
  The application session of \<^verbatim>\<open>src/internal/chat/chat.go\<close>: the operations the interface calls,
  and \<open>forward\<close>, which carries one prompt through agent runs and failover and republishes their
  events. Providers are values of a type \<open>'p\<close>. What the session cannot see into is the record
  \<open>chat_env\<close> over a world type \<open>'w\<close>: the clock, the context, the agent runs, the failover
  selection, the environment of the working directory, and whether the session store's writes
  succeed. Each body between \<^verbatim>\<open>Lock\<close> and \<^verbatim>\<open>Unlock\<close> is one step.
\<close>

section \<open>State\<close>

definition err_busy :: go_error where
  "err_busy = ErrText ''midas: session is already running''"

definition err_not_running :: go_error where
  "err_not_running = ErrText ''midas: session is not running''"

datatype coding_tools_mode =
    CodingToolsAll | CodingToolsReadOnly | CodingToolsNone | CodingToolsUnset | CodingToolsOther string

text \<open>A tool as the session reads it: its definition, \<open>None\<close> for a nil tool.\<close>

type_synonym tool_slot = "tool_definition option"

record toolkit =
  tk_all :: "tool_slot list"
  tk_read_only :: "tool_slot list"

record environment =
  ev_fingerprint :: string
  ev_block :: string

record 'p runtime =
  rt_provider :: "'p option"
  rt_model :: model
  rt_api_key :: string

text \<open>What was sent to the session store: transcripts by session, and the metadata updates
  (session, directory, title).\<close>

record session_files =
  sf_transcripts :: "(string \<times> message list) list"
  sf_updates :: "(string \<times> string \<times> string option) list"

record 'p chat =
  ch_provider :: "'p option"
  ch_model :: model
  ch_stream_options :: stream_options
  ch_system_prompt :: string
  ch_mode :: coding_tools_mode
  ch_additional :: "tool_slot list"
  ch_goal_tools :: "tool_slot list option"
  ch_mcp :: "tool_slot list option"
  ch_task_tool :: "string \<Rightarrow> tool_definition option"
  ch_compaction :: compaction_settings
  ch_title_max_words :: int
  ch_base_tools :: "tool_slot list"
  ch_kit :: toolkit
  ch_root :: string
  ch_id :: string
  ch_agent :: string
  ch_fingerprint :: string
  ch_messages :: "message list"
  ch_running :: bool
  ch_cancel :: bool
  ch_steering :: "steering_queue option"
  ch_warmer :: "'p option"
  ch_warm_calls :: "('p \<times> warm_call) list"
  ch_sessions :: "session_files option"
  ch_reported :: "go_error list"

definition call_warmer :: "warm_call \<Rightarrow> 'p chat \<Rightarrow> 'p chat" where
  "call_warmer w c =
     (case ch_warmer c of
        None \<Rightarrow> c
      | Some p \<Rightarrow> c\<lparr>ch_warm_calls := ch_warm_calls c @ [(p, w)]\<rparr>)"

text \<open>Closing the warmer and making one for another provider, when there is a warmer.\<close>

definition renew_warmer :: "'p \<Rightarrow> 'p chat \<Rightarrow> 'p chat" where
  "renew_warmer p c =
     (if ch_warmer c = None then c else (call_warmer WarmClose c)\<lparr>ch_warmer := Some p\<rparr>)"

section \<open>Tools\<close>

fun unique_tools_loop :: "tool_slot list \<Rightarrow> string list \<Rightarrow> go_error option" where
  "unique_tools_loop [] seen = None"
| "unique_tools_loop (None # ts) seen = Some (ErrText ''midas: nil tool'')"
| "unique_tools_loop (Some t # ts) seen =
     (if td_name t = [] then Some (ErrText ''midas: tool name is required'')
      else if td_name t \<in> set seen then Some (ErrText (''midas: duplicate tool '' @ quote (td_name t)))
      else unique_tools_loop ts (td_name t # seen))"

definition unique_tools :: "tool_slot list \<Rightarrow> go_error option" where
  "unique_tools ts = unique_tools_loop ts []"

definition checked_tools :: "tool_slot list \<Rightarrow> go_error + tool_slot list" where
  "checked_tools ts = (case unique_tools ts of Some e \<Rightarrow> Inl e | None \<Rightarrow> Inr ts)"

definition profile_tools ::
  "toolkit \<Rightarrow> coding_tools_mode \<Rightarrow> tool_slot list option \<Rightarrow> tool_slot list \<Rightarrow> go_error + tool_slot list" where
  "profile_tools kit mode goals additional =
     (let goal_tools = (case goals of None \<Rightarrow> [] | Some ts \<Rightarrow> ts) in
      case mode of
        CodingToolsAll \<Rightarrow> checked_tools (tk_all kit @ goal_tools @ additional)
      | CodingToolsUnset \<Rightarrow> checked_tools (tk_all kit @ goal_tools @ additional)
      | CodingToolsReadOnly \<Rightarrow> checked_tools (tk_read_only kit @ additional)
      | CodingToolsNone \<Rightarrow> checked_tools (goal_tools @ additional)
      | CodingToolsOther s \<Rightarrow> Inl (ErrText (''midas: unknown coding tools mode '' @ quote s)))"

definition available_tools :: "'p chat \<Rightarrow> go_error + tool_slot list" where
  "available_tools c =
     checked_tools (ch_base_tools c
       @ (case ch_task_tool c (ch_agent c) of None \<Rightarrow> [] | Some t \<Rightarrow> [Some t])
       @ (case ch_mcp c of None \<Rightarrow> [] | Some ts \<Rightarrow> ts))"

definition chat_tools :: "'p chat \<Rightarrow> go_error + tool_definition list" where
  "chat_tools c = (case available_tools c of Inl e \<Rightarrow> Inl e | Inr ts \<Rightarrow> Inr (map the ts))"

section \<open>Settings\<close>

text \<open>The setters return the error and the session.\<close>

definition set_model :: "model \<Rightarrow> 'p chat \<Rightarrow> go_error option \<times> 'p chat" where
  "set_model m c =
     (if trim_space (mo_id m) = [] then (Some (ErrText ''midas: model is required''), c)
      else if ch_running c then (Some err_busy, c)
      else (None, call_warmer WarmStop (c\<lparr>ch_model := m\<rparr>)))"

definition set_runtime :: "'p option \<Rightarrow> model \<Rightarrow> string \<Rightarrow> 'p chat \<Rightarrow> go_error option \<times> 'p chat" where
  "set_runtime provider m key c =
     (case provider of
        None \<Rightarrow> (Some (ErrText ''midas: provider is required''), c)
      | Some p \<Rightarrow>
          if trim_space (mo_id m) = [] then (Some (ErrText ''midas: model is required''), c)
          else if ch_running c then (Some err_busy, c)
          else (None, renew_warmer p (c\<lparr>ch_provider := provider, ch_model := m,
                  ch_stream_options := (ch_stream_options c)\<lparr>so_api_key := key\<rparr>\<rparr>)))"

definition set_mcp :: "tool_slot list option \<Rightarrow> 'p chat \<Rightarrow> go_error option \<times> 'p chat" where
  "set_mcp manager c =
     (case profile_tools (ch_kit c) (ch_mode c) (ch_goal_tools c) (ch_additional c) of
        Inl e \<Rightarrow> (Some e, c)
      | Inr ts \<Rightarrow> (None, c\<lparr>ch_mcp := manager, ch_base_tools := ts\<rparr>))"

text \<open>\<open>place\<close>: the directory made absolute with the toolkit built for it, or the error of
  resolving or examining it.\<close>

definition change_directory :: "go_error + string \<times> toolkit \<Rightarrow> 'p chat \<Rightarrow> go_error option \<times> 'p chat" where
  "change_directory place c =
     (case place of
        Inl e \<Rightarrow> (Some e, c)
      | Inr (dir, kit) \<Rightarrow>
          if ch_running c
          then (Some (ErrText ''midas: finish the current run before changing directory''), c)
          else case profile_tools kit (ch_mode c) (ch_goal_tools c) (ch_additional c) of
            Inl e \<Rightarrow> (Some e, c)
          | Inr ts \<Rightarrow> (None, c\<lparr>ch_root := dir, ch_kit := kit, ch_base_tools := ts\<rparr>))"

definition profile_name :: "string \<Rightarrow> string" where
  "profile_name name = (if trim_space name = [] then ''main'' else trim_space name)"

definition set_profile ::
  "string \<Rightarrow> string \<Rightarrow> coding_tools_mode \<Rightarrow> tool_slot list \<Rightarrow> 'p chat \<Rightarrow> go_error option \<times> 'p chat" where
  "set_profile name system mode additional c =
     (case profile_tools (ch_kit c) mode (ch_goal_tools c) additional of
        Inl e \<Rightarrow> (Some e, c)
      | Inr ts \<Rightarrow>
          case (case ch_mcp c of None \<Rightarrow> None | Some mcp \<Rightarrow> unique_tools (ts @ mcp)) of
            Some e \<Rightarrow> (Some e, c)
          | None \<Rightarrow>
              if ch_running c then (Some err_busy, c)
              else (None, call_warmer WarmStop
                     (c\<lparr>ch_system_prompt := system, ch_mode := mode, ch_additional := additional,
                        ch_base_tools := ts, ch_agent := profile_name name\<rparr>)))"

definition set_reasoning :: "thinking_level \<Rightarrow> 'p chat \<Rightarrow> go_error option \<times> 'p chat" where
  "set_reasoning level c =
     (if level = ThinkingUnset
      then (Some (ErrText (''midas: unknown thinking level '' @ quote [])), c)
      else (None, c\<lparr>ch_stream_options := (ch_stream_options c)\<lparr>so_reasoning := level\<rparr>\<rparr>))"

definition set_title_max_words :: "int \<Rightarrow> 'p chat \<Rightarrow> 'p chat" where
  "set_title_max_words v c =
     c\<lparr>ch_title_max_words := (let v1 = (if v < 1 then 1 else v) in if v1 > 20 then 20 else v1)\<rparr>"

section \<open>Prompts, steering, abort\<close>

text \<open>What a prompt starts \<open>forward\<close> with.\<close>

record 'p launch =
  la_prompt :: string
  la_agent :: string
  la_thinking :: thinking_level
  la_history :: "message list"
  la_system :: string
  la_tools :: "tool_slot list"
  la_provider :: "'p option"
  la_model :: model
  la_options :: stream_options

definition chat_prompt :: "string \<Rightarrow> 'p chat \<Rightarrow> (go_error + 'p launch) \<times> 'p chat" where
  "chat_prompt s c =
     (let t = trim_space s in
      if t = [] then (Inl (ErrText ''midas: prompt must not be empty''), c)
      else if ch_running c then (Inl err_busy, c)
      else if trim_space (mo_id (ch_model c)) = []
      then (Inl (ErrText ''midas: select a model with /model before sending a prompt''), c)
      else case available_tools c of
        Inl e \<Rightarrow> (Inl e, c\<lparr>ch_running := False\<rparr>)
      | Inr ts \<Rightarrow>
          (Inr \<lparr>la_prompt = t, la_agent = ch_agent c, la_thinking = so_reasoning (ch_stream_options c),
                la_history = ch_messages c, la_system = ch_system_prompt c, la_tools = ts,
                la_provider = ch_provider c, la_model = ch_model c, la_options = ch_stream_options c\<rparr>,
           c\<lparr>ch_running := True, ch_cancel := True, ch_steering := Some new_steering_queue\<rparr>))"

definition chat_steer :: "string \<Rightarrow> int \<Rightarrow> 'p chat \<Rightarrow> go_error option \<times> 'p chat" where
  "chat_steer s now c =
     (let t = trim_space s in
      if t = [] then (Some (ErrText ''midas: steer prompt must not be empty''), c)
      else case ch_steering c of
        None \<Rightarrow> (Some err_not_running, c)
      | Some q \<Rightarrow>
          if \<not> ch_running c then (Some err_not_running, c)
          else
            let m = (new_user_message t now)\<lparr>um_agent := ch_agent c,
                      um_thinking := so_reasoning (ch_stream_options c)\<rparr>;
                (ok, q') = steer_push (User m) q
            in (if ok then None else Some err_not_running, c\<lparr>ch_steering := Some q'\<rparr>))"

text \<open>\<open>chat_abort\<close>: whether the context is cancelled, and what is returned.\<close>

definition chat_abort :: "'p chat \<Rightarrow> bool \<times> bool" where
  "chat_abort c = (ch_running c \<and> ch_cancel c, ch_running c)"

section \<open>Stored messages\<close>

definition report_error :: "go_error option \<Rightarrow> 'p chat \<Rightarrow> 'p chat" where
  "report_error e c = (case e of None \<Rightarrow> c | Some x \<Rightarrow> c\<lparr>ch_reported := ch_reported c @ [x]\<rparr>)"

definition write_transcript :: "go_error option \<Rightarrow> message list \<Rightarrow> 'p chat \<Rightarrow> 'p chat" where
  "write_transcript failure ms c =
     (case ch_sessions c of
        None \<Rightarrow> c
      | Some sf \<Rightarrow>
          report_error failure
            (if failure = None
             then c\<lparr>ch_sessions := Some (sf\<lparr>sf_transcripts := AList.update (ch_id c) ms (sf_transcripts sf)\<rparr>)\<rparr>
             else c))"

definition update_session :: "go_error option \<Rightarrow> string option \<Rightarrow> 'p chat \<Rightarrow> 'p chat" where
  "update_session failure title c =
     (case ch_sessions c of
        None \<Rightarrow> c
      | Some sf \<Rightarrow>
          report_error failure
            (if failure = None
             then c\<lparr>ch_sessions := Some (sf\<lparr>sf_updates := sf_updates sf @ [(ch_id c, ch_root c, title)]\<rparr>)\<rparr>
             else c))"

definition replace_messages :: "go_error option \<Rightarrow> message list \<Rightarrow> 'p chat \<Rightarrow> 'p chat" where
  "replace_messages failure ms c = write_transcript failure ms (c\<lparr>ch_messages := ms\<rparr>)"

definition ellipsis :: string where
  "ellipsis = [CHR 0xE2, CHR 0x80, CHR 0xA6]"

text \<open>\<open>upper\<close> is \<^verbatim>\<open>strings.ToUpper\<close>.\<close>

definition generated_title :: "(string \<Rightarrow> string) \<Rightarrow> string \<Rightarrow> int \<Rightarrow> string" where
  "generated_title upper s maximum =
     (let words = fields_of s;
          limit = (if maximum \<le> 0 then 8 else maximum);
          shown = (if int (length words) > limit then take (nat limit) words else words);
          title = join '' '' shown
      in case runes title of
           [] \<Rightarrow> title
         | r # rs \<Rightarrow> upper (encode_rune r) @ of_runes rs)"

definition session_title :: "(string \<Rightarrow> string) \<Rightarrow> string \<Rightarrow> int \<Rightarrow> string" where
  "session_title upper s maximum =
     (let title = generated_title upper s maximum
      in if length (runes title) > 80 then of_runes (take 79 (runes title)) @ ellipsis else title)"

definition append_messages ::
  "(string \<Rightarrow> string) \<Rightarrow> go_error option \<Rightarrow> go_error option \<Rightarrow> string \<Rightarrow> message list \<Rightarrow> 'p chat \<Rightarrow> 'p chat" where
  "append_messages upper no_update no_write s ms c =
     (let c1 = c\<lparr>ch_messages := ch_messages c @ ms\<rparr>
      in write_transcript no_write (ch_messages c1)
           (update_session no_update (Some (session_title upper s (ch_title_max_words c))) c1))"

section \<open>Reverting and switching\<close>

fun real_prompt :: "message \<Rightarrow> bool" where
  "real_prompt (User m) \<longleftrightarrow> \<not> um_synthetic m"
| "real_prompt _ \<longleftrightarrow> False"

text \<open>The backwards loop of \<^verbatim>\<open>RevertLastPrompt\<close>; the argument is \<^verbatim>\<open>position\<close> plus one.\<close>

fun last_prompt :: "message list \<Rightarrow> nat \<Rightarrow> nat option" where
  "last_prompt ms 0 = None"
| "last_prompt ms (Suc i) = (if real_prompt (ms ! i) then Some i else last_prompt ms i)"

fun user_prompt_text :: "message \<Rightarrow> string" where
  "user_prompt_text (User m) =
     trim_space (case uc_text (um_content m) of Some t \<Rightarrow> t | None \<Rightarrow> [])"
| "user_prompt_text _ = []"

definition revert_last_prompt ::
  "go_error option \<Rightarrow> 'p chat \<Rightarrow> (go_error + (string \<times> message list) option) \<times> 'p chat" where
  "revert_last_prompt failure c =
     (if ch_running c then (Inl err_busy, c)
      else case last_prompt (ch_messages c) (length (ch_messages c)) of
        None \<Rightarrow> (Inr None, c)
      | Some i \<Rightarrow>
          let kept = take i (ch_messages c); c1 = c\<lparr>ch_messages := kept\<rparr>
          in (Inr (Some (user_prompt_text (ch_messages c ! i), kept)),
              (case (ch_sessions c, failure) of
                 (Some sf, None) \<Rightarrow>
                   c1\<lparr>ch_sessions := Some (sf\<lparr>sf_transcripts := AList.update (ch_id c) kept (sf_transcripts sf)\<rparr>)\<rparr>
               | _ \<Rightarrow> c1)))"

text \<open>\<open>fresh\<close> is the identifier made for an empty one, \<open>stored\<close> what the store holds for it.\<close>

definition switch_session ::
  "string \<Rightarrow> go_error + string \<Rightarrow> (string \<Rightarrow> go_error + message list) \<Rightarrow> go_error option \<Rightarrow> 'p chat
     \<Rightarrow> (go_error + string \<times> message list) \<times> 'p chat" where
  "switch_session wanted fresh stored failure c =
     (if ch_sessions c = None then (Inl (ErrText ''midas: session store is not configured''), c)
      else case (if trim_space wanted = [] then fresh else Inr (trim_space wanted)) of
        Inl e \<Rightarrow> (Inl e, c)
      | Inr i \<Rightarrow>
          if ch_running c then (Inl err_busy, c)
          else case stored i of
            Inl e \<Rightarrow> (Inl e, c)
          | Inr ms \<Rightarrow>
              (Inr (i, ms),
               update_session failure None
                 (call_warmer WarmStop
                    (c\<lparr>ch_id := i, ch_messages := ms,
                       ch_stream_options := (ch_stream_options c)\<lparr>so_session_id := i\<rparr>\<rparr>))))"

text \<open>\<^verbatim>\<open>Compact\<close> releases the lock while the model summarises: \<open>compact_begin\<close> takes the
  snapshot, \<open>compact_commit\<close> installs the result of \<^verbatim>\<open>agent.Compact\<close>.\<close>

definition compact_begin :: "'p chat \<Rightarrow> go_error + message list" where
  "compact_begin c = (if ch_running c then Inl err_busy else Inr (ch_messages c))"

definition compact_commit ::
  "go_error option \<Rightarrow> go_error + message list option \<Rightarrow> 'p chat
     \<Rightarrow> (go_error + message list option) \<times> 'p chat" where
  "compact_commit failure outcome c =
     (case outcome of
        Inr (Some ms) \<Rightarrow> (outcome, replace_messages failure ms c)
      | _ \<Rightarrow> (outcome, c))"

end
