(* ===== verification/Chat_Run.thy ===== *)
theory Chat_Run
  imports Chat
begin

text \<open>
  \<^verbatim>\<open>Chat.forward\<close> of \<^verbatim>\<open>src/internal/chat/chat.go\<close>: the goroutine that runs the agent for one
  prompt, chooses another provider when a run failed before it produced anything, stores what
  the run added and republishes its events. An agent run is the list of what its stream's
  \<^verbatim>\<open>Next\<close> reports; the end of the list is the end of the stream. The loop over failovers
  carries fuel, one unit an agent run.
\<close>

section \<open>The outside\<close>

datatype upstream = UpErr go_error | UpEvent event

record ('p, 'w) chat_env =
  ce_now :: "'w \<Rightarrow> int \<times> 'w"
  ce_ctx_err :: "'w \<Rightarrow> go_error option"
  ce_environment :: "(string \<Rightarrow> 'w \<Rightarrow> (go_error + environment) \<times> 'w) option"
  ce_marshal :: "arguments \<Rightarrow> string option"
  ce_ask :: "'p \<Rightarrow> 'w \<Rightarrow> model \<Rightarrow> ai_context \<Rightarrow> stream_options \<Rightarrow> go_error + assistant_message"
  ce_run :: "'p option \<Rightarrow> model \<Rightarrow> stream_options \<Rightarrow> message list \<Rightarrow> message list \<Rightarrow> 'w
               \<Rightarrow> upstream list \<times> 'w"
  ce_select :: "(model \<Rightarrow> go_error \<Rightarrow> model list \<Rightarrow> 'w \<Rightarrow> ('p runtime \<times> bool) \<times> 'w) option"
  ce_goal :: "('w \<Rightarrow> goal_env \<times> 'w) option"
  ce_upsert :: "'w \<Rightarrow> go_error option \<times> 'w"
  ce_write :: "'w \<Rightarrow> go_error option \<times> 'w"
  ce_upper :: "string \<Rightarrow> string"

text \<open>
  The state of \<open>forward\<close>: the session, the stream it publishes to, the goal's state file, and
  three ghosts: every event handed to \<^verbatim>\<open>output.Push\<close> with the session's busy flag at that
  moment, the models tried, and the failovers announced.
\<close>

record ('p, 'w) forward_state =
  fs_chat :: "'p chat"
  fs_output :: "(event, message list) event_stream"
  fs_disk :: disk
  fs_world :: 'w
  fs_trace :: "(event \<times> bool) list"
  fs_notices :: "(model \<times> model \<times> go_error) list"

record 'p forward_config =
  fc_provider :: "'p option"
  fc_model :: model
  fc_options :: stream_options

definition ask_world ::
  "('w \<Rightarrow> 'a \<times> 'w) \<Rightarrow> ('p, 'w) forward_state \<Rightarrow> 'a \<times> ('p, 'w) forward_state" where
  "ask_world f fs = (case f (fs_world fs) of (x, w) \<Rightarrow> (x, fs\<lparr>fs_world := w\<rparr>))"

definition change_chat ::
  "('p chat \<Rightarrow> 'p chat) \<Rightarrow> ('p, 'w) forward_state \<Rightarrow> ('p, 'w) forward_state" where
  "change_chat f fs = fs\<lparr>fs_chat := f (fs_chat fs)\<rparr>"

definition emit :: "event \<Rightarrow> ('p, 'w) forward_state \<Rightarrow> ('p, 'w) forward_state" where
  "emit e fs = fs\<lparr>fs_output := es_push e (fs_output fs),
                  fs_trace := fs_trace fs @ [(e, ch_running (fs_chat fs))]\<rparr>"

definition emit_all :: "event list \<Rightarrow> ('p, 'w) forward_state \<Rightarrow> ('p, 'w) forward_state" where
  "emit_all es fs = fold emit es fs"

definition finish :: "'p chat \<Rightarrow> 'p chat" where
  "finish c = c\<lparr>ch_running := False, ch_cancel := False, ch_steering := None\<rparr>"

definition store_messages ::
  "('p, 'w) chat_env \<Rightarrow> string \<Rightarrow> message list \<Rightarrow> ('p, 'w) forward_state \<Rightarrow> ('p, 'w) forward_state" where
  "store_messages ce s ms fs =
     (if ch_sessions (fs_chat fs) = None
      then change_chat (append_messages (ce_upper ce) None None s ms) fs
      else
        let (e1, fs1) = ask_world (ce_upsert ce) fs; (e2, fs2) = ask_world (ce_write ce) fs1
        in change_chat (append_messages (ce_upper ce) e1 e2 s ms) fs2)"

section \<open>Before the run\<close>

definition environment_notice ::
  "('p, 'w) chat_env \<Rightarrow> ('p, 'w) forward_state \<Rightarrow> message option \<times> ('p, 'w) forward_state" where
  "environment_notice ce fs =
     (case ce_environment ce of
        None \<Rightarrow> (None, fs)
      | Some f \<Rightarrow>
          (case ask_world (f (ch_root (fs_chat fs))) fs of
             (Inl _, fs1) \<Rightarrow> (None, fs1)
           | (Inr en, fs1) \<Rightarrow>
               let c = fs_chat fs1;
                   unchanged = (ev_fingerprint en = ch_fingerprint c);
                   first = (ch_fingerprint c = []);
                   fs2 = change_chat (\<lambda>c. c\<lparr>ch_fingerprint := ev_fingerprint en\<rparr>) fs1
               in if unchanged \<or> first \<or> trim_space (ev_block en) = [] then (None, fs2)
                  else (case ask_world (ce_now ce) fs2 of
                          (now, fs3) \<Rightarrow> (Some (User (new_synthetic_message (ev_block en) now)), fs3))))"

definition compaction_event :: "go_error option \<Rightarrow> int \<Rightarrow> int \<Rightarrow> event" where
  "compaction_event err before after =
     (event_of EventCompaction)\<lparr>ev_err := err, ev_tokens_before := before, ev_tokens_after := after\<rparr>"

text \<open>Auto-compaction before the first turn: the history the run starts from.\<close>

definition auto_compact ::
  "('p, 'w) chat_env \<Rightarrow> 'p forward_config \<Rightarrow> message list \<Rightarrow> ('p, 'w) forward_state
     \<Rightarrow> message list \<times> ('p, 'w) forward_state" where
  "auto_compact ce cf history fs =
     (case fc_provider cf of
        None \<Rightarrow> (history, fs)
      | Some p \<Rightarrow>
          let settings = ch_compaction (fs_chat fs);
              before = context_tokens (ce_marshal ce) history
          in if mo_context_window (fc_model cf) > 0
                \<and> should_compact before (mo_context_window (fc_model cf)) settings
             then
               let (now, fs1) = ask_world (ce_now ce) fs
               in case compact (ce_marshal ce) (Some (ce_ask ce p (fs_world fs1))) (fc_model cf)
                         (fc_options cf) history settings now of
                    Inl e \<Rightarrow> (history, emit (compaction_event (Some e) 0 0) fs1)
                  | Inr None \<Rightarrow> (history, fs1)
                  | Inr (Some ms) \<Rightarrow>
                      let (failure, fs2) = (if ch_sessions (fs_chat fs1) = None then (None, fs1)
                                            else ask_world (ce_write ce) fs1)
                      in (ms, emit (compaction_event None before (context_tokens (ce_marshal ce) ms))
                            (change_chat (replace_messages failure ms) fs2))
             else (history, fs))"

section \<open>Classifying events\<close>

fun is_user_value :: "message option \<Rightarrow> bool" where
  "is_user_value (Some (User _)) = True"
| "is_user_value _ = False"

fun assistant_value :: "message option \<Rightarrow> assistant_message option" where
  "assistant_value (Some (Assistant m)) = Some m"
| "assistant_value _ = None"

definition is_attempt_prefix :: "event \<Rightarrow> bool" where
  "is_attempt_prefix e \<longleftrightarrow>
     ev_type e = EventAgentStart \<or> ev_type e = EventTurnStart
     \<or> ((ev_type e = EventMessageStart \<or> ev_type e = EventMessageEnd) \<and> is_user_value (ev_message e))"

definition meaningful_event :: "event \<Rightarrow> bool" where
  "meaningful_event e =
     (case ev_type e of
        EventMessageStart \<Rightarrow>
          (case assistant_value (ev_message e) of None \<Rightarrow> False | Some m \<Rightarrow> am_content m \<noteq> [])
      | EventMessageUpdate \<Rightarrow> True
      | EventToolExecutionStart \<Rightarrow> True
      | EventToolExecutionUpdate \<Rightarrow> True
      | EventToolExecutionEnd \<Rightarrow> True
      | EventMessageEnd \<Rightarrow>
          (case assistant_value (ev_message e) of
             None \<Rightarrow> False
           | Some m \<Rightarrow> am_stop_reason m \<noteq> StopError \<and> am_stop_reason m \<noteq> StopAborted)
      | _ \<Rightarrow> False)"

definition is_failure_candidate :: "event \<Rightarrow> bool" where
  "is_failure_candidate e \<longleftrightarrow>
     (ev_type e = EventMessageStart \<or> ev_type e = EventMessageEnd \<or> ev_type e = EventTurnEnd)
     \<and> assistant_value (ev_message e) \<noteq> None"

section \<open>The goal's turn\<close>

fun turn_tokens :: "message list \<Rightarrow> int \<Rightarrow> int" where
  "turn_tokens [] tokens = tokens"
| "turn_tokens (Assistant m # ms) tokens =
     turn_tokens ms (wrap64 (tokens + wrap64 (us_input (am_usage m) + us_output (am_usage m)
       + us_cache_read (am_usage m) + us_cache_write (am_usage m))))"
| "turn_tokens (_ # ms) tokens = turn_tokens ms tokens"

fun limit_notice :: "limit_reason \<Rightarrow> string" where
  "limit_notice LimitTokens = ''Goal token budget reached; stopping this run.''"
| "limit_notice LimitTurns = ''Goal turn limit reached; stopping this run.''"
| "limit_notice LimitDuration = ''Goal duration limit reached; stopping this run.''"
| "limit_notice LimitNone = []"

definition record_goal_turn ::
  "('p, 'w) chat_env \<Rightarrow> message list \<Rightarrow> ('p, 'w) forward_state \<Rightarrow> string \<times> ('p, 'w) forward_state" where
  "record_goal_turn ce ms fs =
     (case ce_goal ce of
        None \<Rightarrow> ([], fs)
      | Some f \<Rightarrow>
          let (en, fs1) = ask_world f fs
          in case record_turn en (turn_tokens ms 0) (fs_disk fs1) of
               (Reply (g, reason) None, d) \<Rightarrow> (limit_notice reason, fs1\<lparr>fs_disk := d\<rparr>)
             | (_, d) \<Rightarrow> ([], fs1\<lparr>fs_disk := d\<rparr>))"

section \<open>One agent run\<close>

text \<open>The end of an agent run that is not tried again: what was held back, the messages, the
  release of the session, the terminal event, the goal's turn and its notice.\<close>

definition end_forward ::
  "('p, 'w) chat_env \<Rightarrow> string \<Rightarrow> event \<Rightarrow> event list \<Rightarrow> ('p, 'w) forward_state
     \<Rightarrow> ('p, 'w) forward_state" where
  "end_forward ce s e held fs =
     (let fs1 = store_messages ce s (ev_messages e) (emit_all held fs);
          fs2 = emit e (change_chat finish fs1);
          (notice, fs3) = record_goal_turn ce (ev_messages e) fs2
      in if notice = [] then fs3
         else emit ((event_of EventNotice)\<lparr>ev_notice := notice\<rparr>) fs3)"

definition aborted_message :: "'p forward_config \<Rightarrow> go_error \<Rightarrow> int \<Rightarrow> assistant_message" where
  "aborted_message cf err now =
     \<lparr>am_content = [], am_api = [], am_provider = mo_provider (fc_model cf),
      am_model = mo_id (fc_model cf), am_response_model = [], am_response_id = [],
      am_usage = zero_usage, am_stop_reason = StopAborted, am_error_message = err_text err,
      am_raw_stop_reason = [], am_end_turn = None, am_timestamp = now\<rparr>"

text \<open>\<^verbatim>\<open>Next\<close> failed: the context ended.\<close>

definition fail_forward ::
  "('p, 'w) chat_env \<Rightarrow> 'p forward_config \<Rightarrow> user_message \<Rightarrow> string \<Rightarrow> go_error
     \<Rightarrow> ('p, 'w) forward_state \<Rightarrow> ('p, 'w) forward_state" where
  "fail_forward ce cf pm s err fs =
     (let (now, fs1) = ask_world (ce_now ce) fs;
          ms = [User pm, Assistant (aborted_message cf err now)]
      in emit ((event_of EventAgentEnd)\<lparr>ev_messages := ms, ev_err := Some err\<rparr>)
           (change_chat finish (store_messages ce s ms fs1)))"

text \<open>The runtime to try instead, if any.\<close>

definition choose_failover ::
  "('p, 'w) chat_env \<Rightarrow> 'p forward_config \<Rightarrow> model list \<Rightarrow> bool \<Rightarrow> event \<Rightarrow> ('p, 'w) forward_state
     \<Rightarrow> ('p runtime \<times> go_error) option \<times> ('p, 'w) forward_state" where
  "choose_failover ce cf attempted meaningful e fs =
     (case (ev_err e, ce_select ce) of
        (Some err, Some select) \<Rightarrow>
          if meaningful \<or> ce_ctx_err ce (fs_world fs) \<noteq> None then (None, fs)
          else
            let ((next, selected), fs1) = ask_world (select (fc_model cf) err attempted) fs
            in if selected \<and> rt_provider next \<noteq> None \<and> trim_space (mo_id (rt_model next)) \<noteq> []
               then (Some (next, err), fs1) else (None, fs1)
      | _ \<Rightarrow> (None, fs))"

fun consume_run ::
  "('p, 'w) chat_env \<Rightarrow> 'p forward_config \<Rightarrow> user_message \<Rightarrow> string \<Rightarrow> model list \<Rightarrow> bool
     \<Rightarrow> upstream list \<Rightarrow> event list \<Rightarrow> bool \<Rightarrow> ('p, 'w) forward_state
     \<Rightarrow> ('p runtime \<times> go_error) option \<times> ('p, 'w) forward_state" where
  "consume_run ce cf pm s attempted first [] held meaningful fs = (None, change_chat finish fs)"
| "consume_run ce cf pm s attempted first (UpErr err # us) held meaningful fs =
     (None, fail_forward ce cf pm s err fs)"
| "consume_run ce cf pm s attempted first (UpEvent e # us) held meaningful fs =
     (if ev_type e = EventAgentEnd then
        (case choose_failover ce cf attempted meaningful e fs of
           (Some next, fs1) \<Rightarrow> (Some next, fs1)
         | (None, fs1) \<Rightarrow> (None, end_forward ce s e held fs1))
      else if \<not> first \<and> is_attempt_prefix e
      then consume_run ce cf pm s attempted first us held meaningful fs
      else if meaningful_event e
      then consume_run ce cf pm s attempted first us [] True (emit e (emit_all held fs))
      else if meaningful then consume_run ce cf pm s attempted first us held True (emit e fs)
      else if is_failure_candidate e
      then consume_run ce cf pm s attempted first us (held @ [e]) False fs
      else consume_run ce cf pm s attempted first us held False (emit e fs))"

text \<open>\<^verbatim>\<open>applyFailoverRuntime\<close>: what it does to the session, and the configuration it returns.\<close>

definition failover_chat :: "'p runtime \<Rightarrow> 'p chat \<Rightarrow> 'p chat" where
  "failover_chat rt c =
     (let so = (ch_stream_options c)\<lparr>so_api_key := rt_api_key rt\<rparr>;
          so' = (if mo_reasoning (rt_model rt) then so else so\<lparr>so_reasoning := ThinkingOff\<rparr>);
          c1 = c\<lparr>ch_provider := rt_provider rt, ch_model := rt_model rt, ch_stream_options := so'\<rparr>
      in case rt_provider rt of None \<Rightarrow> c1 | Some p \<Rightarrow> renew_warmer p c1)"

definition apply_failover ::
  "'p runtime \<Rightarrow> ('p, 'w) forward_state \<Rightarrow> 'p forward_config \<times> ('p, 'w) forward_state" where
  "apply_failover rt fs =
     (let c = failover_chat rt (fs_chat fs)
      in (\<lparr>fc_provider = rt_provider rt, fc_model = rt_model rt, fc_options = ch_stream_options c\<rparr>,
          fs\<lparr>fs_chat := c\<rparr>))"

fun forward_loop ::
  "nat \<Rightarrow> ('p, 'w) chat_env \<Rightarrow> 'p forward_config \<Rightarrow> user_message \<Rightarrow> string \<Rightarrow> message list
     \<Rightarrow> model list \<Rightarrow> bool \<Rightarrow> ('p, 'w) forward_state \<Rightarrow> ('p, 'w) forward_state option" where
  "forward_loop 0 ce cf pm s history attempted first fs = None"
| "forward_loop (Suc n) ce cf pm s history attempted first fs =
     (let (us, fs1) = ask_world
            (ce_run ce (fc_provider cf) (fc_model cf) (fc_options cf) [User pm] history) fs
      in case consume_run ce cf pm s attempted first us [] False fs1 of
           (None, fs2) \<Rightarrow> Some fs2
         | (Some (rt, err), fs2) \<Rightarrow>
             let (cf', fs3) = apply_failover rt fs2
             in forward_loop n ce cf' pm s history (attempted @ [rt_model rt]) False
                  (fs3\<lparr>fs_notices := fs_notices fs3 @ [(fc_model cf, rt_model rt, err)]\<rparr>))"

text \<open>What \<open>forward\<close> does before the loop: the prompt's message and the history the agent sees.\<close>

definition forward_start ::
  "('p, 'w) chat_env \<Rightarrow> 'p launch \<Rightarrow> ('p, 'w) forward_state
     \<Rightarrow> user_message \<times> message list \<times> ('p, 'w) forward_state" where
  "forward_start ce la fs =
     (let (now, fs1) = ask_world (ce_now ce) fs;
          pm = (new_user_message (la_prompt la) now)
                 \<lparr>um_agent := la_agent la, um_thinking := la_thinking la\<rparr>;
          (notice, fs2) = environment_notice ce fs1;
          (history, fs3) = (case notice of
              None \<Rightarrow> (la_history la, fs2)
            | Some m \<Rightarrow> (la_history la @ [m], store_messages ce [] [m] fs2));
          (history', fs4) = auto_compact ce
            \<lparr>fc_provider = la_provider la, fc_model = la_model la, fc_options = la_options la\<rparr> history fs3
      in (pm, history', fs4))"

definition forward ::
  "nat \<Rightarrow> ('p, 'w) chat_env \<Rightarrow> 'p launch \<Rightarrow> ('p, 'w) forward_state \<Rightarrow> ('p, 'w) forward_state option" where
  "forward fuel ce la fs =
     (case forward_start ce la fs of
        (pm, history, fs1) \<Rightarrow>
          map_option (change_chat finish)
            (forward_loop fuel ce
               \<lparr>fc_provider = la_provider la, fc_model = la_model la, fc_options = la_options la\<rparr>
               pm (la_prompt la) history [la_model la] True fs1))"

end
