(* ===== verification/Chat_Facts.thy ===== *)
theory Chat_Facts
  imports Chat_Run
begin

text \<open>
  What \<open>forward\<close> guarantees: the events it publishes, the messages it stores, when it releases
  the session, and that it ends.
\<close>

section \<open>What a part of \<open>forward\<close> publishes\<close>

text \<open>\<open>emits es fs fs'\<close>: from \<open>fs\<close> to \<open>fs'\<close> the events \<open>es\<close> went to the stream while the
  session stayed busy, or not; \<open>publishes\<close>: and the conversation did not change.\<close>

definition emits :: "event list \<Rightarrow> ('p, 'w) forward_state \<Rightarrow> ('p, 'w) forward_state \<Rightarrow> bool" where
  "emits es fs fs' \<longleftrightarrow>
     fs_output fs' = fold es_push es (fs_output fs)
     \<and> fs_trace fs' = fs_trace fs @ map (\<lambda>e. (e, ch_running (fs_chat fs))) es
     \<and> ch_running (fs_chat fs') = ch_running (fs_chat fs)"

definition publishes :: "event list \<Rightarrow> ('p, 'w) forward_state \<Rightarrow> ('p, 'w) forward_state \<Rightarrow> bool" where
  "publishes es fs fs' \<longleftrightarrow> emits es fs fs' \<and> ch_messages (fs_chat fs') = ch_messages (fs_chat fs)"

lemma emits_refl [simp]: "emits [] fs fs"
  by (simp add: emits_def)

lemma emits_trans: "emits as fs fs1 \<Longrightarrow> emits bs fs1 fs2 \<Longrightarrow> emits (as @ bs) fs fs2"
  by (simp add: emits_def)

lemma emits_emit: "emits [e] fs (emit e fs)"
  by (simp add: emits_def emit_def)

lemma publishes_refl [simp]: "publishes [] fs fs"
  by (simp add: publishes_def)

lemma publishes_trans:
  "publishes as fs fs1 \<Longrightarrow> publishes bs fs1 fs2 \<Longrightarrow> publishes (as @ bs) fs fs2"
  by (auto simp: publishes_def intro: emits_trans)

lemma publishes_emit: "publishes [e] fs (emit e fs)"
  by (simp add: publishes_def emits_def emit_def)

lemma publishes_emit_all: "publishes es fs (emit_all es fs)"
proof (induction es arbitrary: fs)
  case Nil
  then show ?case by (simp add: emit_all_def)
next
  case (Cons e es)
  have "emit_all (e # es) fs = emit_all es (emit e fs)" by (simp add: emit_all_def)
  with publishes_trans [OF publishes_emit Cons.IH] show ?case by fastforce
qed

lemma fs_chat_emit [simp]: "fs_chat (emit e fs) = fs_chat fs"
  by (simp add: emit_def)

lemma fs_chat_emit_all [simp]: "fs_chat (emit_all es fs) = fs_chat fs"
  unfolding emit_all_def by (induction es arbitrary: fs) simp_all

lemma ask_world_only: "ask_world f fs = (x, fs') \<Longrightarrow> \<exists>w. fs' = fs\<lparr>fs_world := w\<rparr>"
  by (auto simp: ask_world_def split: prod.splits)

lemma publishes_world [simp]: "publishes [] fs (fs\<lparr>fs_world := w\<rparr>)"
  by (simp add: publishes_def emits_def)

lemma publishes_ask: "ask_world f fs = (x, fs') \<Longrightarrow> publishes [] fs fs'"
  by (auto simp: publishes_def emits_def dest: ask_world_only)

section \<open>One agent run\<close>

lemma choose_failover_fields:
  assumes "choose_failover ce cf attempted meaningful e fs = (r, fs')"
  shows "publishes [] fs fs'" "fs_chat fs' = fs_chat fs"
    "r \<noteq> None \<Longrightarrow> \<not> meaningful \<and> ev_err e \<noteq> None"
  using assms
  by (auto simp: choose_failover_def split: option.splits if_splits prod.splits
      dest: publishes_ask dest!: ask_world_only)

abbreviation harmless :: "event \<Rightarrow> bool" where
  "harmless e \<equiv> \<not> meaningful_event e \<and> \<not> is_failure_candidate e \<and> ev_type e \<noteq> EventAgentEnd"

definition failed_run :: "bool \<Rightarrow> upstream list \<Rightarrow> bool" where
  "failed_run first us \<longleftrightarrow>
     (\<exists>before e after. us = before @ UpEvent e # after \<and> ev_type e = EventAgentEnd \<and> ev_err e \<noteq> None
        \<and> (\<forall>x. UpEvent x \<in> set before \<longrightarrow> \<not> meaningful_event x \<or> \<not> first \<and> is_attempt_prefix x))"

lemma failed_run_Cons:
  "failed_run first us \<Longrightarrow> \<not> meaningful_event e \<or> \<not> first \<and> is_attempt_prefix e \<Longrightarrow>
     failed_run first (UpEvent e # us)"
  unfolding failed_run_def by (metis append_Cons set_ConsD upstream.inject(2))

lemma failover_attempt:
  "consume_run ce cf pm s attempted first us held meaningful fs = (Some r, fs') \<Longrightarrow>
     \<not> meaningful \<and> fs_chat fs' = fs_chat fs \<and> failed_run first us
     \<and> (\<exists>es. publishes es fs fs' \<and> (\<forall>e \<in> set es. UpEvent e \<in> set us \<and> harmless e))"
proof (induction us arbitrary: held meaningful fs)
  case Nil
  then show ?case by simp
next
  case (Cons u us)
  then obtain e where u: "u = UpEvent e" by (cases u) simp_all
  show ?case
  proof (cases "ev_type e = EventAgentEnd")
    case True
    with Cons.prems u have "choose_failover ce cf attempted meaningful e fs = (Some r, fs')"
      by (auto split: prod.splits option.splits)
    from choose_failover_fields [OF this] True have
      "\<not> meaningful" "fs_chat fs' = fs_chat fs" "publishes [] fs fs'" "failed_run first (UpEvent e # us)"
      unfolding failed_run_def by (fastforce intro: exI [of _ "[]"])+
    with u show ?thesis by (auto intro: exI [of _ "[]"])
  next
    case False
    note step = Cons.prems [unfolded u consume_run.simps if_not_P [OF False]]
    have pass: ?thesis
      if "consume_run ce cf pm s attempted first us held' meaningful fs = (Some r, fs')"
        and "\<not> meaningful_event e \<or> \<not> first \<and> is_attempt_prefix e" for held'
      using Cons.IH [OF that(1)] failed_run_Cons [OF _ that(2)] u by auto
    consider (skip) "\<not> first \<and> is_attempt_prefix e"
      | (shown) "\<not> (\<not> first \<and> is_attempt_prefix e)" "meaningful_event e"
      | (later) "\<not> (\<not> first \<and> is_attempt_prefix e)" "\<not> meaningful_event e" "meaningful"
      | (hold) "\<not> (\<not> first \<and> is_attempt_prefix e)" "\<not> meaningful_event e" "\<not> meaningful"
          "is_failure_candidate e"
      | (pub) "\<not> (\<not> first \<and> is_attempt_prefix e)" "\<not> meaningful_event e" "\<not> meaningful"
          "\<not> is_failure_candidate e"
      by blast
    then show ?thesis
    proof cases
      case skip
      then have "consume_run ce cf pm s attempted first us held meaningful fs = (Some r, fs')"
        using step by simp
      then show ?thesis using skip by (intro pass) auto
    next
      case shown
      then have "consume_run ce cf pm s attempted first us [] True (emit e (emit_all held fs)) = (Some r, fs')"
        using step by (simp only: if_not_P if_P if_False if_True)
      from Cons.IH [OF this] show ?thesis by simp
    next
      case later
      then have "consume_run ce cf pm s attempted first us held True (emit e fs) = (Some r, fs')"
        using step by (simp only: if_not_P if_P if_False if_True)
      from Cons.IH [OF this] show ?thesis by simp
    next
      case hold
      then have "consume_run ce cf pm s attempted first us (held @ [e]) meaningful fs = (Some r, fs')"
        using step by (simp only: if_not_P if_P if_False if_True)
      then show ?thesis using hold by (intro pass) auto
    next
      case pub
      then have "consume_run ce cf pm s attempted first us held False (emit e fs) = (Some r, fs')"
        using step by (simp only: if_not_P if_P if_False if_True)
      from Cons.IH [OF this] obtain es where rest: "failed_run first us" "fs_chat fs' = fs_chat fs"
        "publishes es (emit e fs) fs'" "\<forall>x \<in> set es. UpEvent x \<in> set us \<and> harmless x"
        by auto
      from publishes_trans [OF publishes_emit rest(3)] have "publishes (e # es) fs fs'" by simp
      with rest pub False u failed_run_Cons [OF rest(1), of e] show ?thesis
        by (auto intro!: exI [of _ "e # es"])
    qed
  qed
qed


section \<open>The run that is not tried again\<close>

text \<open>The events of a run that is published: those before its end, without the prefix a later
  attempt repeats.\<close>

fun shown :: "bool \<Rightarrow> upstream list \<Rightarrow> event list" where
  "shown first [] = []"
| "shown first (UpErr err # us) = []"
| "shown first (UpEvent e # us) =
     (if ev_type e = EventAgentEnd then []
      else if \<not> first \<and> is_attempt_prefix e then shown first us else e # shown first us)"

text \<open>The end: \<open>t\<close> is the terminal event, \<open>rest\<close> what is pushed after it.\<close>

definition concludes ::
  "event list \<Rightarrow> event \<Rightarrow> event list \<Rightarrow> ('p, 'w) forward_state \<Rightarrow> ('p, 'w) forward_state \<Rightarrow> bool" where
  "concludes es t rest fs fs' \<longleftrightarrow>
     ev_type t = EventAgentEnd
     \<and> fs_output fs' = fold es_push rest (es_push t (fold es_push es (fs_output fs)))
     \<and> fs_trace fs' = fs_trace fs @ map (\<lambda>e. (e, ch_running (fs_chat fs))) es
         @ (t, False) # map (\<lambda>e. (e, False)) rest
     \<and> \<not> ch_running (fs_chat fs')
     \<and> ch_messages (fs_chat fs') = ch_messages (fs_chat fs) @ ev_messages t"

lemma concludes_after: "publishes as fs fs1 \<Longrightarrow> concludes es t rest fs1 fs' \<Longrightarrow> concludes (as @ es) t rest fs fs'"
  by (simp add: concludes_def publishes_def emits_def)

lemma session_write_simps [simp]:
  "ch_messages (report_error e c) = ch_messages c" "ch_running (report_error e c) = ch_running c"
  "ch_messages (write_transcript e ms c) = ch_messages c"
  "ch_running (write_transcript e ms c) = ch_running c"
  "ch_messages (update_session e t c) = ch_messages c"
  "ch_running (update_session e t c) = ch_running c"
proof -
  show report: "ch_messages (report_error e c) = ch_messages c"
    "ch_running (report_error e c) = ch_running c" for e and c :: "'a chat"
    by (simp_all add: report_error_def split: option.split)
  show "ch_messages (write_transcript e ms c) = ch_messages c"
    "ch_running (write_transcript e ms c) = ch_running c"
    "ch_messages (update_session e t c) = ch_messages c"
    "ch_running (update_session e t c) = ch_running c"
    by (simp_all add: write_transcript_def update_session_def report split: option.split)
qed

lemma append_messages_simps [simp]:
  "ch_messages (append_messages upper e1 e2 s ms c) = ch_messages c @ ms"
  "ch_running (append_messages upper e1 e2 s ms c) = ch_running c"
  by (simp_all add: append_messages_def Let_def)

lemma replace_messages_simps [simp]:
  "ch_messages (replace_messages e ms c) = ms" "ch_running (replace_messages e ms c) = ch_running c"
  by (simp_all add: replace_messages_def)

lemma store_messages_fields:
  assumes "fs' = store_messages ce s ms fs"
  shows "emits [] fs fs'" "ch_messages (fs_chat fs') = ch_messages (fs_chat fs) @ ms"
  using assms
  by (auto simp: store_messages_def emits_def change_chat_def split: prod.splits if_splits
      dest!: ask_world_only)

lemma finish_simps [simp]:
  "\<not> ch_running (finish c)" "ch_messages (finish c) = ch_messages c"
  by (simp_all add: finish_def)

lemma record_goal_turn_fields:
  assumes "record_goal_turn ce ms fs = (n, fs')"
  shows "fs_chat fs' = fs_chat fs" "fs_output fs' = fs_output fs" "fs_trace fs' = fs_trace fs"
  using assms
  by (auto simp: record_goal_turn_def split: option.splits prod.splits reply.splits
      dest!: ask_world_only)

lemma end_forward_concludes:
  assumes "ev_type e = EventAgentEnd"
  shows "\<exists>rest. concludes held e rest fs (end_forward ce s e held fs)"
proof -
  define fs1 where "fs1 = store_messages ce s (ev_messages e) (emit_all held fs)"
  define fs2 where "fs2 = emit e (change_chat finish fs1)"
  obtain n fs3 where r: "record_goal_turn ce (ev_messages e) fs2 = (n, fs3)" by fastforce
  have "emits held fs fs1" "ch_messages (fs_chat fs1) = ch_messages (fs_chat fs) @ ev_messages e"
    using store_messages_fields [OF fs1_def] publishes_emit_all [of held fs]
    by (auto simp: publishes_def emits_def)
  then have "concludes held e [] fs fs3"
    using assms record_goal_turn_fields [OF r]
    by (simp add: concludes_def fs2_def emit_def change_chat_def emits_def)
  then have "concludes held e [x] fs (emit x fs3)" "concludes held e [] fs fs3" for x
    by (simp_all add: concludes_def emit_def)
  moreover have "end_forward ce s e held fs = (if n = [] then fs3
      else emit ((event_of EventNotice)\<lparr>ev_notice := n\<rparr>) fs3)"
    using r by (simp add: end_forward_def fs1_def fs2_def)
  ultimately show ?thesis by metis
qed

lemma fail_forward_concludes:
  "\<exists>t. concludes [] t [] fs (fail_forward ce cf pm s err fs) \<and> ev_err t = Some err"
proof -
  obtain now fs1 where w: "ask_world (ce_now ce) fs = (now, fs1)" by fastforce
  let ?ms = "[User pm, Assistant (aborted_message cf err now)]"
  have "emits [] fs1 (store_messages ce s ?ms fs1)"
    "ch_messages (fs_chat (store_messages ce s ?ms fs1)) = ch_messages (fs_chat fs1) @ ?ms"
    using store_messages_fields [OF refl] by blast+
  with ask_world_only [OF w] have
    "concludes [] ((event_of EventAgentEnd)\<lparr>ev_messages := ?ms, ev_err := Some err\<rparr>) [] fs
       (fail_forward ce cf pm s err fs)"
    by (auto simp: fail_forward_def w concludes_def emit_def change_chat_def emits_def event_of_def Let_def)
  then show ?thesis by (intro exI conjI) auto
qed

lemma harmless_end_forward:
  assumes "choose_failover ce cf attempted meaningful e fs = (None, fs1)" and "ev_type e = EventAgentEnd"
  shows "\<exists>rest. concludes held e rest fs (end_forward ce s e held fs1)"
  using end_forward_concludes [OF assms(2), of held fs1 ce s] choose_failover_fields(1) [OF assms(1)]
    concludes_after by fastforce

text \<open>The last agent run either ends in a terminal event, its own or that of a failed \<^verbatim>\<open>Next\<close>,
  or its stream was over before one. Up to its own terminal event, its events are published,
  each once.\<close>

definition no_end :: "event list \<Rightarrow> bool" where
  "no_end es \<longleftrightarrow> (\<forall>e \<in> set es. ev_type e \<noteq> EventAgentEnd)"

lemma no_end_simps [simp]:
  "no_end []" "no_end (e # es) \<longleftrightarrow> ev_type e \<noteq> EventAgentEnd \<and> no_end es"
  "no_end (es @ es') \<longleftrightarrow> no_end es \<and> no_end es'"
  by (auto simp: no_end_def)

definition stream_over :: "('p, 'w) forward_state \<Rightarrow> ('p, 'w) forward_state \<Rightarrow> bool" where
  "stream_over fs fs' \<longleftrightarrow> (\<exists>es fs1. publishes es fs fs1 \<and> no_end es \<and> fs' = change_chat finish fs1)"

definition run_over ::
  "bool \<Rightarrow> upstream list \<Rightarrow> event list \<Rightarrow> ('p, 'w) forward_state \<Rightarrow> ('p, 'w) forward_state \<Rightarrow> bool" where
  "run_over first us held fs fs' \<longleftrightarrow>
     (\<exists>es t rest. concludes es t rest fs fs' \<and> no_end es
        \<and> (UpEvent t \<in> set us \<and> mset es = mset (held @ shown first us)
           \<or> (\<exists>err. UpErr err \<in> set us \<and> ev_err t = Some err)))"

lemma stream_over_step:
  "publishes ds fs fs1 \<Longrightarrow> no_end ds \<Longrightarrow> stream_over fs1 fs' \<Longrightarrow> stream_over fs fs'"
  unfolding stream_over_def by (metis publishes_trans no_end_simps(3))

lemma run_over_step:
  assumes "publishes ds fs fs1" "no_end ds" "run_over first us held1 fs1 fs'"
    and "mset ds + mset held1 + mset (shown first us) = mset held + mset (shown first (u # us))"
  shows "run_over first (u # us) held fs fs'"
proof -
  from assms(3) obtain es t rest where c: "concludes es t rest fs1 fs'" "no_end es"
    and w: "UpEvent t \<in> set us \<and> mset es = mset (held1 @ shown first us)
            \<or> (\<exists>err. UpErr err \<in> set us \<and> ev_err t = Some err)"
    unfolding run_over_def by blast
  have "UpEvent t \<in> set (u # us) \<and> mset (ds @ es) = mset (held @ shown first (u # us))
      \<or> (\<exists>err. UpErr err \<in> set (u # us) \<and> ev_err t = Some err)"
    using w assms(4) by (auto simp: ac_simps)
  with concludes_after [OF assms(1) c(1)] c(2) assms(2) show ?thesis
    unfolding run_over_def by (metis no_end_simps(3))
qed

lemma final_attempt:
  "consume_run ce cf pm s attempted first us held meaningful fs = (None, fs') \<Longrightarrow> no_end held \<Longrightarrow>
     stream_over fs fs' \<or> run_over first us held fs fs'"
proof (induction us arbitrary: held meaningful fs)
  case Nil
  then have "fs' = change_chat finish fs" by simp
  then have "stream_over fs fs'" unfolding stream_over_def by (metis publishes_refl no_end_simps(1))
  then show ?case ..
next
  case (Cons u us)
  show ?case
  proof (cases u)
    case (UpErr err)
    with Cons.prems(1) fail_forward_concludes [of fs ce cf pm s err] show ?thesis
      unfolding run_over_def by fastforce
  next
    case (UpEvent e)
    note step = Cons.prems(1) [unfolded UpEvent consume_run.simps]
    have pass: ?thesis
      if "consume_run ce cf pm s attempted first us held1 m fs1 = (None, fs')" and "publishes ds fs fs1"
        and "no_end ds" and "no_end held1"
        and "mset ds + mset held1 + mset (shown first us) = mset held + mset (shown first (u # us))"
      for ds held1 m fs1
      using Cons.IH [OF that(1,4)] stream_over_step [OF that(2,3)] run_over_step [OF that(2,3) _ that(5)]
      by blast
    show ?thesis
    proof (cases "ev_type e = EventAgentEnd")
      case True
      with step obtain fs1 where ch: "choose_failover ce cf attempted meaningful e fs = (None, fs1)"
        and fs': "fs' = end_forward ce s e held fs1"
        by (auto split: prod.splits option.splits)
      from harmless_end_forward [OF ch True] obtain rest where "concludes held e rest fs fs'"
        using fs' by blast
      with Cons.prems(2) True UpEvent have "run_over first (u # us) held fs fs'"
        unfolding run_over_def by (intro exI [of _ held] exI [of _ e] exI [of _ rest]) simp
      then show ?thesis ..
    next
      case False
      note step = step [unfolded if_not_P [OF False]]
      show ?thesis
      proof (cases "\<not> first \<and> is_attempt_prefix e")
        case True
        with step have "consume_run ce cf pm s attempted first us held meaningful fs = (None, fs')" by simp
        with True False UpEvent Cons.prems(2) show ?thesis by (intro pass [of held _ fs "[]"]) auto
      next
        case keep: False
        then have sh: "shown first (u # us) = e # shown first us" using False UpEvent by auto
        note step = step [unfolded if_not_P [OF keep]]
        show ?thesis
        proof (cases "meaningful_event e")
          case True
          with step have "consume_run ce cf pm s attempted first us [] True (emit e (emit_all held fs)) = (None, fs')"
            by simp
          moreover have "publishes (held @ [e]) fs (emit e (emit_all held fs))"
            by (rule publishes_trans [OF publishes_emit_all publishes_emit])
          ultimately show ?thesis using Cons.prems(2) False sh
            by (intro pass [of "[]" True _ "held @ [e]"]) auto
        next
          case quiet: False
          note step = step [unfolded if_not_P [OF quiet]]
          show ?thesis
          proof (cases "\<not> meaningful \<and> is_failure_candidate e")
            case True
            with step have "consume_run ce cf pm s attempted first us (held @ [e]) False fs = (None, fs')"
              by simp
            with Cons.prems(2) False sh show ?thesis by (intro pass [of "held @ [e]" _ fs "[]"]) auto
          next
            case False
            with step have "\<exists>m. consume_run ce cf pm s attempted first us held m (emit e fs) = (None, fs')"
              by (auto split: if_splits)
            with publishes_emit [of e fs] Cons.prems(2) \<open>ev_type e \<noteq> EventAgentEnd\<close> sh
            show ?thesis by (elim exE, intro pass [of held _ "emit e fs" "[e]"]) auto
          qed
        qed
      qed
    qed
  qed
qed

section \<open>All of \<open>forward\<close>\<close>

lemma renew_warmer_simps [simp]:
  "ch_messages (renew_warmer p c) = ch_messages c" "ch_running (renew_warmer p c) = ch_running c"
  by (simp_all add: renew_warmer_def call_warmer_def split: option.split)

lemma failover_chat_simps [simp]:
  "ch_messages (failover_chat rt c) = ch_messages c" "ch_running (failover_chat rt c) = ch_running c"
  by (simp_all add: failover_chat_def Let_def split: option.split)

lemma apply_failover_publishes: "apply_failover rt fs = (cf', fs') \<Longrightarrow> publishes [] fs fs'"
  by (auto simp: apply_failover_def Let_def publishes_def emits_def)

definition outcome ::
  "('p, 'w) forward_state \<Rightarrow> ('p, 'w) forward_state \<Rightarrow> bool" where
  "outcome fs fs' \<longleftrightarrow>
     stream_over fs fs' \<or> (\<exists>es t rest. concludes es t rest fs fs' \<and> no_end es)"

lemma outcome_after: "publishes ds fs fs1 \<Longrightarrow> no_end ds \<Longrightarrow> outcome fs1 fs' \<Longrightarrow> outcome fs fs'"
  unfolding outcome_def by (meson stream_over_step concludes_after no_end_simps(3))

lemma harmless_no_end: "\<forall>e \<in> set es. UpEvent e \<in> set us \<and> harmless e \<Longrightarrow> no_end es"
  by (simp add: no_end_def)

lemma forward_loop_outcome:
  "forward_loop n ce cf pm s history attempted first fs = Some fs' \<Longrightarrow> outcome fs fs'"
proof (induction n arbitrary: cf attempted first fs)
  case 0
  then show ?case by simp
next
  case (Suc n)
  obtain us fs1 where w: "ask_world
      (ce_run ce (fc_provider cf) (fc_model cf) (fc_options cf) [User pm] history) fs = (us, fs1)"
    by fastforce
  obtain r fs2 where run: "consume_run ce cf pm s attempted first us [] False fs1 = (r, fs2)"
    by fastforce
  have "outcome fs1 fs'"
  proof (cases r)
    case None
    with Suc.prems w run have "fs' = fs2" by simp
    moreover have "stream_over fs1 fs2 \<or> run_over first us [] fs1 fs2"
      using final_attempt run None by fastforce
    ultimately show ?thesis unfolding outcome_def run_over_def by blast
  next
    case (Some nx)
    obtain rt err where n: "nx = (rt, err)" by fastforce
    obtain cf' fs3 where a: "apply_failover rt fs2 = (cf', fs3)" by fastforce
    let ?fs4 = "fs3\<lparr>fs_notices := fs_notices fs3 @ [(fc_model cf, rt_model rt, err)]\<rparr>"
    from Suc.prems w run Some n a have
      "forward_loop n ce cf' pm s history (attempted @ [rt_model rt]) False ?fs4 = Some fs'"
      by simp
    then have "outcome ?fs4 fs'" by (rule Suc.IH)
    moreover have "publishes [] fs3 ?fs4" by (simp add: publishes_def emits_def)
    ultimately have "outcome fs2 fs'"
      using outcome_after [OF apply_failover_publishes [OF a]] outcome_after [of "[]" fs3 ?fs4] by simp
    moreover from failover_attempt [OF run [unfolded Some]] obtain es where "publishes es fs1 fs2"
      and "\<forall>e \<in> set es. UpEvent e \<in> set us \<and> harmless e" by (elim conjE exE)
    ultimately show ?thesis using outcome_after harmless_no_end by metis
  qed
  with publishes_ask [OF w] show ?case by (metis outcome_after no_end_simps(1))
qed

lemma environment_notice_publishes:
  assumes "environment_notice ce fs = (m, fs')"
  shows "publishes [] fs fs'"
proof (cases "ce_environment ce")
  case None
  with assms show ?thesis by (simp add: environment_notice_def)
next
  case (Some f)
  obtain r fs1 where r: "ask_world (f (ch_root (fs_chat fs))) fs = (r, fs1)" by fastforce
  show ?thesis
  proof (cases r)
    case (Inl e)
    with assms Some r publishes_ask [OF r] show ?thesis by (simp add: environment_notice_def)
  next
    case (Inr en)
    let ?fs2 = "change_chat (\<lambda>c. c\<lparr>ch_fingerprint := ev_fingerprint en\<rparr>) fs1"
    obtain now fs3 where n: "ask_world (ce_now ce) ?fs2 = (now, fs3)" by fastforce
    have "publishes [] fs1 ?fs2" by (simp add: publishes_def emits_def change_chat_def)
    with publishes_ask [OF r] publishes_ask [OF n] publishes_trans
    have "publishes [] fs ?fs2" "publishes [] fs fs3" by (metis append_Nil)+
    moreover have "fs' = ?fs2 \<or> fs' = fs3"
      using assms Some r Inr n by (auto simp: environment_notice_def Let_def split: if_splits)
    ultimately show ?thesis by blast
  qed
qed

lemma auto_compact_emits:
  assumes "auto_compact ce cf history fs = (history', fs')" and "ch_messages (fs_chat fs) = history"
  shows "\<exists>es. emits es fs fs' \<and> no_end es \<and> ch_messages (fs_chat fs') = history'"
proof -
  have quiet: "no_end [compaction_event err b a]" for err b a
    by (simp add: compaction_event_def)
  have none: ?thesis if "fs' = fs\<lparr>fs_world := w\<rparr>" "history' = history" for w
    using that assms(2) publishes_world [of fs w] by (metis no_end_simps(1) publishes_def)
  have one: ?thesis
    if "fs' = emit (compaction_event err b a) (change_chat f (fs\<lparr>fs_world := w\<rparr>))"
      "\<And>c. ch_running (f c) = ch_running c" "ch_messages (f (fs_chat fs)) = history'" for err b a f w
    using that quiet [of err b a]
    by (intro exI [of _ "[compaction_event err b a]"]) (simp add: emits_def emit_def change_chat_def)
  show ?thesis
  proof (cases "fc_provider cf")
    case None
    with assms(1) none [of "fs_world fs"] show ?thesis by (simp add: auto_compact_def)
  next
    case (Some p)
    let ?compacts = "mo_context_window (fc_model cf) > 0
        \<and> should_compact (context_tokens (ce_marshal ce) history) (mo_context_window (fc_model cf))
            (ch_compaction (fs_chat fs))"
    obtain now w where w: "ask_world (ce_now ce) fs = (now, fs\<lparr>fs_world := w\<rparr>)"
      using ask_world_only by (metis surj_pair)
    let ?fs1 = "fs\<lparr>fs_world := w\<rparr>"
    let ?result = "compact (ce_marshal ce) (Some (ce_ask ce p w)) (fc_model cf) (fc_options cf) history
        (ch_compaction (fs_chat fs)) now"
    show ?thesis
    proof (cases ?compacts)
      case False
      with assms(1) Some none [of "fs_world fs"] show ?thesis by (simp add: auto_compact_def Let_def)
    next
      case True
      note start = assms(1) [unfolded auto_compact_def Some option.case Let_def if_P [OF True] w prod.case]
      show ?thesis
      proof (cases ?result)
        case (Inl e)
        with start one [of "Some e" 0 0 "\<lambda>c. c" w] assms(2) show ?thesis
          by (simp add: change_chat_def)
      next
        case (Inr r)
        show ?thesis
        proof (cases r)
          case None
          with start Inr have "fs' = ?fs1" "history' = history" by simp_all
          then show ?thesis by (rule none)
        next
          case (Some ms)
          obtain failure w2 where "(if ch_sessions (fs_chat ?fs1) = None then (None, ?fs1)
              else ask_world (ce_write ce) ?fs1) = (failure, fs\<lparr>fs_world := w2\<rparr>)"
          proof (cases "ch_sessions (fs_chat ?fs1) = None")
            case False
            obtain x fs2 where x: "ask_world (ce_write ce) ?fs1 = (x, fs2)" by fastforce
            with ask_world_only [OF x] False that show ?thesis by auto
          qed (use that in auto)
          with start Inr Some have "fs' = emit (compaction_event None (context_tokens (ce_marshal ce) history)
                (context_tokens (ce_marshal ce) ms)) (change_chat (replace_messages failure ms) (fs\<lparr>fs_world := w2\<rparr>))"
            and "history' = ms" by auto
          then show ?thesis
            by (intro one [where f = "replace_messages failure ms" and w = w2]) simp_all
        qed
      qed
    qed
  qed
qed

lemma forward_start_emits:
  assumes "forward_start ce la fs = (pm, history, fs')" and "ch_messages (fs_chat fs) = la_history la"
  shows "\<exists>es. emits es fs fs' \<and> no_end es \<and> ch_messages (fs_chat fs') = history"
proof -
  obtain now fs1 where w: "ask_world (ce_now ce) fs = (now, fs1)" by fastforce
  obtain notice fs2 where n: "environment_notice ce fs1 = (notice, fs2)" by fastforce
  have p: "publishes [] fs fs2"
    using publishes_trans [OF publishes_ask [OF w] environment_notice_publishes [OF n]] by simp
  define h fs3 where "h = (case notice of None \<Rightarrow> la_history la | Some m \<Rightarrow> la_history la @ [m])"
    and "fs3 = (case notice of None \<Rightarrow> fs2 | Some m \<Rightarrow> store_messages ce [] [m] fs2)"
  have "emits [] fs fs3 \<and> ch_messages (fs_chat fs3) = h"
    using p assms(2) store_messages_fields [OF refl, where ce = ce and s = "[]" and fs = fs2]
    by (auto simp: h_def fs3_def publishes_def emits_def split: option.split)
  moreover have "auto_compact ce
      \<lparr>fc_provider = la_provider la, fc_model = la_model la, fc_options = la_options la\<rparr> h fs3 = (history, fs')"
    using assms(1) w n by (simp add: forward_start_def h_def fs3_def split: option.splits prod.splits)
  ultimately show ?thesis using auto_compact_emits emits_trans [of "[]" fs fs3] by fastforce
qed

text \<open>What the stream holds of the events pushed to it.\<close>

lemma es_queue_push:
  "es_queue (es_push e s) = (if es_done s then es_queue s else es_queue s @ [e])"
  by (simp add: es_push_def Let_def split: option.split)

lemma push_quiet:
  "\<not> es_done s \<Longrightarrow> es_complete s = agent_complete \<Longrightarrow> no_end es \<Longrightarrow>
     \<not> es_done (fold es_push es s) \<and> es_queue (fold es_push es s) = es_queue s @ es
     \<and> es_complete (fold es_push es s) = agent_complete"
  by (induction es arbitrary: s) (auto simp: es_push_plain es_queue_push agent_complete_def)

lemma push_done: "es_done s \<Longrightarrow> fold es_push es s = s"
  by (induction es) (simp_all add: es_push_def)

lemma push_terminal:
  assumes "\<not> es_done s" "es_complete s = agent_complete" "no_end es" "ev_type t = EventAgentEnd"
    and "s' = fold es_push rest (es_push t (fold es_push es s))"
  shows "es_done s' \<and> es_queue s' = es_queue s @ es @ [t] \<and> es_result_ready s'
     \<and> es_result s' = ev_messages t"
proof -
  let ?s = "fold es_push es s"
  have q: "\<not> es_done ?s" "es_queue ?s = es_queue s @ es" "es_complete ?s = agent_complete"
    using push_quiet [OF assms(1,2,3)] by blast+
  have "es_complete ?s t = Some (ev_messages t)" by (simp add: q(3) agent_complete_def assms(4))
  from es_push_terminal [OF q(1) this] have t: "es_done (es_push t ?s)"
    "es_result_ready (es_push t ?s)" "es_result (es_push t ?s) = ev_messages t" by blast+
  with assms(5) q show ?thesis by (simp add: push_done es_queue_push)
qed

section \<open>Properties\<close>



text \<open>Claim C32. The failover loop ends when the selection never returns a model already tried and only
  models of a finite catalogue: as many agent runs as the catalogue has models, and one more,
  are enough.\<close>

theorem forward_terminates:
  assumes "finite pool"
    and "\<And>select m err att w rt w'. ce_select ce = Some select \<Longrightarrow> select m err att w = ((rt, True), w') \<Longrightarrow>
           rt_model rt \<in> pool - set att"
  shows "\<exists>fs'. forward (Suc (card pool)) ce la fs = Some fs'"
proof -
  have chosen: "rt_model rt \<in> pool - set att"
    if run: "consume_run ce cf pm s att first us held m fs1 = (Some (rt, err), fs2)"
    for cf pm s att first us held m fs1 rt err fs2
    using run
  proof (induction us arbitrary: held m fs1)
    case (Cons u us)
    then show ?case
      by (cases u) (auto simp: choose_failover_def ask_world_def Let_def
          split: if_splits prod.splits option.splits dest: assms(2))
  qed simp
  have "\<exists>fs'. forward_loop n ce cf pm s history att first fs1 = Some fs'"
    if "card (pool - set att) < n" for n cf pm s history att first fs1
    using that
  proof (induction n arbitrary: cf att first fs1)
    case (Suc n)
    obtain us fs2 where w: "ask_world
        (ce_run ce (fc_provider cf) (fc_model cf) (fc_options cf) [User pm] history) fs1 = (us, fs2)"
      by fastforce
    obtain r fs3 where run: "consume_run ce cf pm s att first us [] False fs2 = (r, fs3)" by fastforce
    show ?case
    proof (cases r)
      case None
      with w run show ?thesis by simp
    next
      case (Some x)
      obtain rt err where x: "x = (rt, err)" by fastforce
      obtain cf' fs4 where a: "apply_failover rt fs3 = (cf', fs4)" by fastforce
      have "rt_model rt \<in> pool - set att" using chosen run Some x by blast
      then have "card (pool - set (att @ [rt_model rt])) < card (pool - set att)"
        using assms(1) by (intro psubset_card_mono) auto
      with Suc.prems have "card (pool - set (att @ [rt_model rt])) < n" by linarith
      from Suc.IH [OF this] w run Some x a show ?thesis by simp
    qed
  qed simp
  moreover obtain pm history fs1 where "forward_start ce la fs = (pm, history, fs1)"
    by (metis prod_cases3)
  moreover have "card (pool - set [la_model la]) < Suc (card pool)"
    using assms(1) by (simp add: card_mono le_imp_less_Suc)
  ultimately show ?thesis unfolding forward_def by (metis (no_types, lifting) case_prod_conv option.map(2))
qed

section \<open>A run that fails over\<close>

text \<open>The first provider, \<open>False\<close>, is down; the selection offers \<open>True\<close>, once.\<close>

definition demo_backup :: model where
  "demo_backup = demo_model\<lparr>mo_id := ''b''\<rparr>"

definition demo_said :: "stop_reason \<Rightarrow> message" where
  "demo_said r = Assistant \<lparr>am_content = [], am_api = [], am_provider = [], am_model = [],
     am_response_model = [], am_response_id = [], am_usage = zero_usage, am_stop_reason = r,
     am_error_message = [], am_raw_stop_reason = [], am_end_turn = None, am_timestamp = 0\<rparr>"

definition demo_events :: "stop_reason \<Rightarrow> go_error option \<Rightarrow> upstream list" where
  "demo_events r err =
     [UpEvent (event_of EventAgentStart), UpEvent (message_event EventMessageStart (demo_said r)),
      UpEvent (message_event EventMessageEnd (demo_said r)),
      UpEvent ((event_of EventAgentEnd)\<lparr>ev_messages := [demo_said r], ev_err := err\<rparr>)]"

definition demo_select :: "model \<Rightarrow> go_error \<Rightarrow> model list \<Rightarrow> unit \<Rightarrow> (bool runtime \<times> bool) \<times> unit" where
  "demo_select m err att w =
     ((\<lparr>rt_provider = Some True, rt_model = demo_backup, rt_api_key = []\<rparr>, demo_backup \<notin> set att), w)"

definition demo_chat_env :: "(bool, unit) chat_env" where
  "demo_chat_env =
     \<lparr>ce_now = Pair 0, ce_ctx_err = (\<lambda>_. None), ce_environment = None, ce_marshal = (\<lambda>_. None),
      ce_ask = (\<lambda>_ _ _ _ _. Inl Canceled),
      ce_run = (\<lambda>p _ _ _ _ w. (if p = Some True then demo_events StopComplete None
                              else demo_events StopError (Some (ErrText ''down'')), w)),
      ce_select = Some demo_select, ce_goal = None, ce_upsert = Pair None, ce_write = Pair None,
      ce_upper = id\<rparr>"

definition demo_chat :: "bool chat" where
  "demo_chat =
     \<lparr>ch_provider = Some False, ch_model = demo_model, ch_stream_options = demo_options,
      ch_system_prompt = [], ch_mode = CodingToolsAll, ch_additional = [], ch_goal_tools = None,
      ch_mcp = None, ch_task_tool = (\<lambda>_. None), ch_compaction = default_compaction_settings,
      ch_title_max_words = 8, ch_base_tools = [], ch_kit = \<lparr>tk_all = [], tk_read_only = []\<rparr>,
      ch_root = ''/r'', ch_id = ''s'', ch_agent = ''main'', ch_fingerprint = [], ch_messages = [],
      ch_running = False, ch_cancel = False, ch_steering = None, ch_warmer = None,
      ch_warm_calls = [], ch_sessions = None, ch_reported = []\<rparr>"

definition demo_launch :: "bool launch" where
  "demo_launch =
     \<lparr>la_prompt = ''hi'', la_agent = ''main'', la_thinking = ThinkingOff, la_history = [],
      la_system = [], la_tools = [], la_provider = Some False, la_model = demo_model,
      la_options = demo_options\<rparr>"

definition demo_start :: "(bool, unit) forward_state" where
  "demo_start =
     \<lparr>fs_chat = demo_chat\<lparr>ch_running := True, ch_cancel := True, ch_steering := Some new_steering_queue\<rparr>,
      fs_output = new_event_stream [] agent_complete,
      fs_disk = \<lparr>dk_file = None, dk_temp = None\<rparr>, fs_world = (), fs_trace = [], fs_notices = []\<rparr>"

lemma demo_trim: "trim_space ''b'' = ''b''"
  by (rule trim_space_eqI) (simp_all add: white_encodings_def)

lemmas demo_defs =
  demo_chat_env_def demo_launch_def demo_model_def demo_start_def demo_chat_def demo_backup_def
  demo_select_def demo_events_def demo_said_def demo_trim ask_world_def choose_failover_def
  apply_failover_def failover_chat_def renew_warmer_def is_attempt_prefix_def meaningful_event_def
  is_failure_candidate_def message_event_def event_of_def emit_def emit_all_def end_forward_def
  store_messages_def change_chat_def append_messages_def write_transcript_def update_session_def
  record_goal_turn_def es_push_def new_event_stream_def agent_complete_def es_signal_defs finish_def

lemma demo_forward:
  "map_option (\<lambda>fs. (es_done (fs_output fs), ch_messages (fs_chat fs), length (fs_notices fs)))
     (forward (Suc (Suc 0)) demo_chat_env demo_launch demo_start) = Some (True, [demo_said StopComplete], 1)"
proof -
  have start: "forward_start demo_chat_env demo_launch demo_start
      = ((new_user_message ''hi'' 0)\<lparr>um_agent := ''main'', um_thinking := ThinkingOff\<rparr>, [], demo_start)"
    by (simp add: forward_start_def environment_notice_def auto_compact_def ask_world_def
        demo_chat_env_def demo_launch_def demo_model_def demo_start_def Let_def)
  show ?thesis
    unfolding forward_def start
    by (simp add: demo_defs Let_def) blast
qed


abbreviation demo_down :: "(bool runtime \<times> go_error) option \<times> (bool, unit) forward_state" where
  "demo_down \<equiv> consume_run demo_chat_env
     \<lparr>fc_provider = Some False, fc_model = demo_model, fc_options = demo_options\<rparr>
     (new_user_message ''hi'' 0) ''hi'' [demo_model] True
     (demo_events StopError (Some (ErrText ''down''))) [] False demo_start"


theorem forward_terminates_witness:
  "\<exists>fs'. forward (Suc (Suc (Suc 0))) demo_chat_env demo_launch demo_start = Some fs'"
proof -
  have "\<exists>fs'. forward (Suc (card {demo_model, demo_backup})) demo_chat_env demo_launch demo_start = Some fs'"
    by (rule forward_terminates) (auto simp: demo_chat_env_def demo_select_def)
  moreover have "card {demo_model, demo_backup} = 2"
    by (simp add: demo_backup_def demo_model_def)
  ultimately show ?thesis by (simp add: numeral_3_eq_3 numeral_2_eq_2)
qed

end
