(* ===== verification/Chat_Sessions.thy ===== *)
theory Chat_Sessions
  imports Chat_Facts
begin

text \<open>
  The session of \<^verbatim>\<open>src/internal/chat/chat.go\<close> as several goroutines use it: the interface's
  calls, the runs between \<^verbatim>\<open>Prompt\<close> and their end, the \<^verbatim>\<open>finish\<close> that \<open>forward\<close> defers, and
  compactions asked for by the user, which release the lock while the model summarises. One
  step is one critical section; storing a run's messages and the \<^verbatim>\<open>finish\<close> that follows are taken
  as one.
\<close>

section \<open>Steps\<close>

text \<open>\<open>sy_active\<close>: the runs not yet finished, each with the history its agent was given;
  \<open>sy_retiring\<close>: the runs that finished but have not returned from \<open>forward\<close>;
  \<open>sy_compacting\<close>: the snapshots of the compactions under way.\<close>

record 'p system =
  sy_chat :: "'p chat"
  sy_active :: "(nat \<times> message list) list"
  sy_retiring :: "nat list"
  sy_compacting :: "message list list"
  sy_next :: nat

definition idle_system :: "'p chat \<Rightarrow> 'p system" where
  "idle_system c = \<lparr>sy_chat = finish c, sy_active = [], sy_retiring = [], sy_compacting = [], sy_next = 0\<rparr>"

inductive chat_step :: "'p system \<Rightarrow> 'p system \<Rightarrow> bool" where
  step_prompt:
    "chat_prompt s (sy_chat y) = (Inr la, c') \<Longrightarrow>
       chat_step y (y\<lparr>sy_chat := c', sy_active := (sy_next y, la_history la) # sy_active y,
                      sy_next := Suc (sy_next y)\<rparr>)"
| step_notice:
    "sy_active y = as @ (r, h) # bs \<Longrightarrow>
       chat_step y (y\<lparr>sy_chat := append_messages upper e1 e2 [] [m] (sy_chat y),
                      sy_active := as @ (r, h @ [m]) # bs\<rparr>)"
| step_auto_compact:
    "sy_active y = as @ (r, h) # bs \<Longrightarrow>
       chat_step y (y\<lparr>sy_chat := replace_messages e ms (sy_chat y), sy_active := as @ (r, ms) # bs\<rparr>)"
| step_failover:
    "sy_active y \<noteq> [] \<Longrightarrow> chat_step y (y\<lparr>sy_chat := failover_chat rt (sy_chat y)\<rparr>)"
| step_end:
    "sy_active y = as @ (r, h) # bs \<Longrightarrow>
       chat_step y (y\<lparr>sy_chat := finish (append_messages upper e1 e2 s ms (sy_chat y)),
                      sy_active := as @ bs, sy_retiring := r # sy_retiring y\<rparr>)"
| step_return:
    "r \<in> set (sy_retiring y) \<Longrightarrow>
       chat_step y (y\<lparr>sy_chat := finish (sy_chat y), sy_retiring := remove1 r (sy_retiring y)\<rparr>)"
| step_steer: "chat_step y (y\<lparr>sy_chat := snd (chat_steer s now (sy_chat y))\<rparr>)"
| step_model: "chat_step y (y\<lparr>sy_chat := snd (set_model m (sy_chat y))\<rparr>)"
| step_runtime: "chat_step y (y\<lparr>sy_chat := snd (set_runtime p m k (sy_chat y))\<rparr>)"
| step_mcp: "chat_step y (y\<lparr>sy_chat := snd (set_mcp manager (sy_chat y))\<rparr>)"
| step_directory: "chat_step y (y\<lparr>sy_chat := snd (change_directory place (sy_chat y))\<rparr>)"
| step_profile: "chat_step y (y\<lparr>sy_chat := snd (set_profile n s mode ts (sy_chat y))\<rparr>)"
| step_reasoning: "chat_step y (y\<lparr>sy_chat := snd (set_reasoning l (sy_chat y))\<rparr>)"
| step_title: "chat_step y (y\<lparr>sy_chat := set_title_max_words n (sy_chat y)\<rparr>)"
| step_revert: "chat_step y (y\<lparr>sy_chat := snd (revert_last_prompt e (sy_chat y))\<rparr>)"
| step_switch: "chat_step y (y\<lparr>sy_chat := snd (switch_session s fresh stored e (sy_chat y))\<rparr>)"
| step_compact_begin:
    "compact_begin (sy_chat y) = Inr ms \<Longrightarrow> chat_step y (y\<lparr>sy_compacting := ms # sy_compacting y\<rparr>)"
| step_compact_commit:
    "ms \<in> set (sy_compacting y) \<Longrightarrow>
       chat_step y (y\<lparr>sy_chat := snd (compact_commit e out (sy_chat y)),
                      sy_compacting := remove1 ms (sy_compacting y)\<rparr>)"

text \<open>\<open>orderly y y'\<close>: this step starts no run, or it does while no run is still to return and no
  compaction is under way.\<close>

definition orderly :: "'p system \<Rightarrow> 'p system \<Rightarrow> bool" where
  "orderly y y' \<longleftrightarrow> sy_next y' = sy_next y \<or> sy_retiring y = [] \<and> sy_compacting y = []"

inductive orderly_reach :: "'p chat \<Rightarrow> 'p system \<Rightarrow> bool" for c where
  reach_idle: "orderly_reach c (idle_system c)"
| reach_step: "orderly_reach c y \<Longrightarrow> chat_step y y' \<Longrightarrow> orderly y y' \<Longrightarrow> orderly_reach c y'"

section \<open>The invariant\<close>

definition system_ok :: "'p system \<Rightarrow> bool" where
  "system_ok y \<longleftrightarrow>
     (if ch_running (sy_chat y)
      then (\<exists>r. sy_active y = [(r, ch_messages (sy_chat y))]) \<and> sy_retiring y = [] \<and> sy_compacting y = []
      else sy_active y = [])"

lemma setter_keeps [simp]:
  "ch_running (snd (chat_steer s now c)) = ch_running c"
  "ch_messages (snd (chat_steer s now c)) = ch_messages c"
  "ch_running (call_warmer w c) = ch_running c" "ch_messages (call_warmer w c) = ch_messages c"
  "ch_running (snd (set_reasoning l c)) = ch_running c"
  "ch_messages (snd (set_reasoning l c)) = ch_messages c"
  "ch_running (set_title_max_words n c) = ch_running c"
  "ch_messages (set_title_max_words n c) = ch_messages c"
  by (simp_all add: chat_steer_def call_warmer_def set_reasoning_def set_title_max_words_def Let_def
      split: option.split prod.split)

lemma guarded_keeps [simp]:
  "ch_running (snd (set_model m c)) = ch_running c"
  "ch_messages (snd (set_model m c)) = ch_messages c"
  "ch_running (snd (set_runtime p m k c)) = ch_running c"
  "ch_messages (snd (set_runtime p m k c)) = ch_messages c"
  "ch_running (snd (set_mcp manager c)) = ch_running c"
  "ch_messages (snd (set_mcp manager c)) = ch_messages c"
  "ch_running (snd (change_directory place c)) = ch_running c"
  "ch_messages (snd (change_directory place c)) = ch_messages c"
  "ch_running (snd (set_profile n s mode ts c)) = ch_running c"
  "ch_messages (snd (set_profile n s mode ts c)) = ch_messages c"
  by (simp_all add: set_model_def set_runtime_def set_mcp_def change_directory_def set_profile_def
      split: option.split sum.split prod.split)

lemma busy_refuses [simp]:
  "ch_running c \<Longrightarrow> snd (revert_last_prompt e c) = c"
  "ch_running c \<Longrightarrow> snd (switch_session s fresh stored e c) = c"
  by (simp_all add: revert_last_prompt_def switch_session_def split: sum.split)

lemma idle_stays_idle [simp]:
  "ch_running (snd (revert_last_prompt e c)) = ch_running c"
  "ch_running (snd (switch_session s fresh stored e c)) = ch_running c"
  "ch_running (snd (compact_commit e out c)) = ch_running c"
  by (simp_all add: revert_last_prompt_def switch_session_def compact_commit_def Let_def
      split: sum.split option.split prod.split)

lemma chat_prompt_accepts:
  assumes "chat_prompt s c = (Inr la, c')"
  shows "\<not> ch_running c" "ch_running c'" "ch_messages c' = ch_messages c" "la_history la = ch_messages c"
  using assms by (auto simp: chat_prompt_def Let_def split: if_splits sum.splits)

lemma one_active [simp]: "as @ x # bs = [z] \<longleftrightarrow> as = [] \<and> bs = [] \<and> x = z"
  by (cases as) auto

lemma system_ok_step:
  assumes "system_ok y" and "chat_step y y'" and "orderly y y'"
  shows "system_ok y'"
  using assms(2)
proof (cases rule: chat_step.cases)
  case (step_prompt s la c')
  with chat_prompt_accepts [OF step_prompt(2)] assms(1,3) show ?thesis
    by (simp add: system_ok_def orderly_def)
qed (use assms(1) in \<open>auto simp: system_ok_def compact_begin_def split: if_splits\<close>)

lemma system_ok_reach: "orderly_reach c y \<Longrightarrow> system_ok y"
proof (induction rule: orderly_reach.induct)
  case reach_idle
  then show ?case by (simp add: idle_system_def system_ok_def)
next
  case (reach_step y y')
  from reach_step.IH reach_step.hyps(2,3) show ?case by (rule system_ok_step)
qed

text \<open>Claim C33. One run at a time: as long as a prompt is only sent when no finished run has still to
  return and no compaction is under way, at most one run is active, the session is busy
  exactly while one is, and the conversation of a busy session is the history its run was
  given.\<close>

theorem one_run_at_a_time:
  assumes "orderly_reach c y"
  shows "(ch_running (sy_chat y) \<longleftrightarrow> sy_active y \<noteq> [])
    \<and> length (sy_active y) \<le> 1 \<and> (\<forall>(r, h) \<in> set (sy_active y). h = ch_messages (sy_chat y))"
  using system_ok_reach [OF assms] by (auto simp: system_ok_def split: if_splits)

section \<open>Reverting\<close>

lemma last_prompt_found:
  "last_prompt ms n = Some i \<longleftrightarrow>
     i < n \<and> real_prompt (ms ! i) \<and> (\<forall>j. i < j \<longrightarrow> j < n \<longrightarrow> \<not> real_prompt (ms ! j))"
proof (induction n)
  case (Suc n)
  then show ?case by (auto simp: less_Suc_eq)
qed simp

lemma last_prompt_append:
  assumes "real_prompt m" and "\<forall>x \<in> set later. \<not> real_prompt x"
  shows "last_prompt (earlier @ m # later) (length (earlier @ m # later)) = Some (length earlier)"
  using assms by (auto simp: last_prompt_found nth_append nth_Cons split: nat.split)

text \<open>Claim C34. Reverting undoes a run: when the conversation is a history followed by a prompt and messages
  that hold no further prompt, an idle session goes back to exactly that history, returns the
  prompt's text, and stores the shortened transcript when its write succeeds.\<close>

theorem revert_undoes_run:
  assumes "\<not> ch_running c" and "ch_messages c = history @ User pm # added"
    and "\<not> um_synthetic pm" and "\<forall>m \<in> set added. \<not> real_prompt m"
    and "revert_last_prompt failure c = (r, c')"
  shows "r = Inr (Some (user_prompt_text (User pm), history)) \<and> ch_messages c' = history
    \<and> (\<forall>sf. ch_sessions c = Some sf \<and> failure = None \<longrightarrow>
         (\<exists>sf'. ch_sessions c' = Some sf' \<and> map_of (sf_transcripts sf') (ch_id c') = Some history))"
proof -
  have "last_prompt (ch_messages c) (length (ch_messages c)) = Some (length history)"
    unfolding assms(2) by (rule last_prompt_append) (simp_all add: assms(3,4))
  with assms show ?thesis
    by (auto simp: revert_last_prompt_def Let_def nth_append split: option.splits)
qed

section \<open>What the two conditions are for\<close>

lemma prompt_demo:
  assumes "\<not> ch_running c" and "ch_model c = demo_model" and "available_tools c = Inr ts"
  obtains la where "chat_prompt ''hi'' c
    = (Inr la, c\<lparr>ch_running := True, ch_cancel := True, ch_steering := Some new_steering_queue\<rparr>)"
    and "la_history la = ch_messages c"
proof -
  have "trim_space ''hi'' = ''hi''" "trim_space ''m'' = ''m''"
    by (rule trim_space_eqI; simp add: white_encodings_def)+
  with assms that show thesis by (simp add: chat_prompt_def demo_model_def)
qed

lemma demo_tools_available [simp]:
  "ch_base_tools c = [] \<Longrightarrow> ch_task_tool c = (\<lambda>_. None) \<Longrightarrow> ch_mcp c = None \<Longrightarrow> available_tools c = Inr []"
  by (simp add: available_tools_def checked_tools_def unique_tools_def)

abbreviation begun :: "'p chat \<Rightarrow> 'p chat" where
  "begun c \<equiv> c\<lparr>ch_running := True, ch_cancel := True, ch_steering := Some new_steering_queue\<rparr>"

lemma demo_begins:
  obtains la where "chat_prompt ''hi'' (finish demo_chat) = (Inr la, begun (finish demo_chat))"
    and "la_history la = []"
proof -
  obtain la where "chat_prompt ''hi'' (finish demo_chat) = (Inr la, begun (finish demo_chat))"
    "la_history la = ch_messages (finish demo_chat)"
    by (rule prompt_demo [of "finish demo_chat"]) (simp_all add: finish_def demo_chat_def)
  with that show thesis by (simp add: finish_def demo_chat_def)
qed

text \<open>The \<^verbatim>\<open>finish\<close> that \<open>forward\<close> defers releases whatever run holds the session by then: a prompt
  sent between the terminal event and the return of \<open>forward\<close> loses its busy flag, and a
  further prompt starts a second run beside it.\<close>

theorem late_finish_releases_next_run:
  "\<exists>y. chat_step\<^sup>*\<^sup>* (idle_system demo_chat) y \<and> sy_active y \<noteq> [] \<and> \<not> ch_running (sy_chat y)
     \<and> (\<exists>y'. chat_step y y' \<and> length (sy_active y') = 2)"
proof -
  let ?y0 = "idle_system demo_chat"
  let ?c1 = "begun (finish demo_chat)"
  let ?y1 = "?y0\<lparr>sy_chat := ?c1, sy_active := [(0, [])], sy_next := Suc 0\<rparr>"
  let ?c2 = "finish (append_messages id None None [] [] ?c1)"
  let ?y2 = "?y1\<lparr>sy_chat := ?c2, sy_active := [], sy_retiring := [0]\<rparr>"
  let ?y3 = "?y2\<lparr>sy_chat := begun ?c2, sy_active := [(Suc 0, [])], sy_next := Suc (Suc 0)\<rparr>"
  let ?y4 = "?y3\<lparr>sy_chat := finish (begun ?c2), sy_retiring := []\<rparr>"
  let ?y5 = "?y4\<lparr>sy_chat := begun (finish (begun ?c2)),
      sy_active := [(Suc (Suc 0), []), (Suc 0, [])], sy_next := Suc (Suc (Suc 0))\<rparr>"
  have c2: "?c2 = finish demo_chat"
    by (simp add: append_messages_def write_transcript_def update_session_def finish_def demo_chat_def Let_def)
  have f: "finish ?c1 = finish demo_chat" by (simp add: finish_def demo_chat_def)
  obtain la where la: "chat_prompt ''hi'' (finish demo_chat) = (Inr la, ?c1)" "la_history la = []"
    by (rule demo_begins)
  have "chat_step ?y0 ?y1"
    using step_prompt [of "''hi''" ?y0 la ?c1] la by (simp add: idle_system_def)
  moreover have "chat_step ?y1 ?y2"
    using step_end [of ?y1 "[]" 0 "[]" "[]" id None None "[]" "[]"] by (simp add: idle_system_def)
  moreover have "chat_step ?y2 ?y3"
    using step_prompt [of "''hi''" ?y2 la ?c1] la unfolding c2 by simp
  moreover have "chat_step ?y3 ?y4"
    using step_return [of 0 ?y3] by simp
  moreover have "chat_step ?y4 ?y5"
    using step_prompt [of "''hi''" ?y4 la ?c1] la unfolding c2 f by simp
  moreover have "\<not> ch_running (sy_chat ?y4)" by simp
  ultimately show ?thesis
    by (intro exI [of _ ?y4] conjI exI [of _ ?y5]) (auto intro: rtranclp.rtrancl_into_rtrancl)
qed

text \<open>A compaction that summarises a snapshot taken before a run replaces the conversation with
  its outcome after the run has stored its messages: they are gone.\<close>

theorem compaction_drops_run:
  "\<exists>y y'. chat_step\<^sup>*\<^sup>* (idle_system demo_chat) y \<and> chat_step y y' \<and> sy_compacting y = [[]]
     \<and> ch_messages (sy_chat y) = [demo_said StopComplete] \<and> ch_messages (sy_chat y') = compacted"
proof -
  let ?c1 = "begun (finish demo_chat)"
  let ?y0 = "idle_system demo_chat"
  let ?y1 = "?y0\<lparr>sy_compacting := [[]]\<rparr>"
  let ?y2 = "?y1\<lparr>sy_chat := ?c1, sy_active := [(0, [])], sy_next := Suc 0\<rparr>"
  let ?c3 = "finish (append_messages id None None [] [demo_said StopComplete] ?c1)"
  let ?y3 = "?y2\<lparr>sy_chat := ?c3, sy_active := [], sy_retiring := [0]\<rparr>"
  let ?y4 = "?y3\<lparr>sy_chat := snd (compact_commit None (Inr (Some compacted)) ?c3), sy_compacting := []\<rparr>"
  obtain la where la: "chat_prompt ''hi'' (finish demo_chat) = (Inr la, ?c1)" "la_history la = []"
    by (rule demo_begins)
  have "chat_step ?y0 ?y1"
    using step_compact_begin [of ?y0 "[]"] by (simp add: idle_system_def compact_begin_def finish_def demo_chat_def)
  moreover have "chat_step ?y1 ?y2"
    using step_prompt [of "''hi''" ?y1 la ?c1] la by (simp add: idle_system_def)
  moreover have "chat_step ?y2 ?y3"
    using step_end [of ?y2 "[]" 0 "[]" "[]" id None None "[]" "[demo_said StopComplete]"]
    by (simp add: idle_system_def)
  moreover have "chat_step ?y3 ?y4"
    using step_compact_commit [of "[]" ?y3 None "Inr (Some compacted)"] by simp
  moreover have "ch_messages ?c3 = [demo_said StopComplete]" by (simp add: finish_def demo_chat_def)
  ultimately show ?thesis
    by (intro exI [of _ ?y3] exI [of _ ?y4] conjI) (auto intro: rtranclp.rtrancl_into_rtrancl simp: compact_commit_def)
qed

section \<open>Witnesses\<close>

theorem one_run_at_a_time_witness:
  "\<exists>y. orderly_reach demo_chat y \<and> sy_active y = [(0, [])] \<and> ch_running (sy_chat y)
     \<and> ch_messages (sy_chat y) = []"
proof -
  obtain la where la: "chat_prompt ''hi'' (finish demo_chat) = (Inr la, begun (finish demo_chat))"
    "la_history la = []" by (rule demo_begins)
  let ?y0 = "idle_system demo_chat"
  let ?y1 = "?y0\<lparr>sy_chat := begun (finish demo_chat), sy_active := [(0, [])], sy_next := Suc 0\<rparr>"
  have "chat_step ?y0 ?y1"
    using step_prompt [of "''hi''" ?y0 la] la by (simp add: idle_system_def)
  then have r: "orderly_reach demo_chat ?y1"
    by (intro reach_step [OF reach_idle]) (simp_all add: orderly_def idle_system_def)
  from one_run_at_a_time [OF r] r show ?thesis by (intro exI [of _ ?y1]) simp
qed

theorem revert_undoes_run_witness:
  "ch_messages (snd (revert_last_prompt None (demo_chat\<lparr>ch_messages :=
      [demo_said StopComplete, User (new_user_message ''hi'' 0), demo_said StopError]\<rparr>)))
   = [demo_said StopComplete]"
proof -
  let ?c = "demo_chat\<lparr>ch_messages :=
      [demo_said StopComplete, User (new_user_message ''hi'' 0), demo_said StopError]\<rparr>"
  obtain r c' where rc: "revert_last_prompt None ?c = (r, c')" by fastforce
  have "\<not> ch_running ?c" "ch_messages ?c = [demo_said StopComplete] @ User (new_user_message ''hi'' 0) # [demo_said StopError]"
    "\<not> um_synthetic (new_user_message ''hi'' 0)" "\<forall>m \<in> set [demo_said StopError]. \<not> real_prompt m"
    by (simp_all add: demo_chat_def new_user_message_def demo_said_def)
  from revert_undoes_run [OF this rc] rc show ?thesis by simp
qed

end
