(* ===== verification/Profiles.thy ===== *)
theory Profiles
  imports Unicode Ai_Types
begin

text \<open>
  The agents Midas can run (\<^verbatim>\<open>src/internal/profiles\<close>): the built-in ones and those defined in the
  settings file, and what an agent may do. The package variable \<^verbatim>\<open>customProfiles\<close> is an argument
  \<open>custom\<close>, a map; \<^verbatim>\<open>strings.ToLower\<close> is the argument \<open>lower\<close>, and the decoder of package
  \<^verbatim>\<open>encoding/json\<close> the argument \<open>decode\<close>, applied to \<open>None\<close> for a missing entry.
\<close>

section \<open>Profiles\<close>

record profile =
  pf_name :: string
  pf_mode :: string
  pf_description :: string
  pf_system_prompt :: string
  pf_read_only :: bool
  pf_reserved :: bool
  pf_model :: string
  pf_reasoning :: string
  pf_tools :: string
  pf_parents :: "string list"
  pf_max_depth :: int

type_synonym profiles = "(string \<times> profile) list"

definition built_in :: "string \<Rightarrow> string \<Rightarrow> string \<Rightarrow> bool \<Rightarrow> bool \<Rightarrow> string \<Rightarrow> string \<times> profile" where
  "built_in name mode description read_only reserved system =
     (name, \<lparr>pf_name = name, pf_mode = mode, pf_description = description, pf_system_prompt = system,
             pf_read_only = read_only, pf_reserved = reserved, pf_model = [], pf_reasoning = [],
             pf_tools = [], pf_parents = [], pf_max_depth = 0\<rparr>)"

definition main_prompt :: string where
  "main_prompt = ''You are the main Midas coding agent. Work directly in the user'' @ [CHR 0x27]
     @ ''s current directory. Understand the request, inspect the code and project instructions, make the smallest correct change, preserve unrelated work, run relevant checks, and report the outcome concisely. Use delegation only for bounded reconnaissance or difficult design decisions. Write temporary or generated scratch files (probes, captures, one-off scripts) under the system temp directory ($TMPDIR, usually /tmp), never in the working tree, and clean them up when done.''"

definition built_in_profiles :: profiles where
  "built_in_profiles =
     [built_in ''main'' ''primary'' ''Default interactive coding agent for new sessions.'' False False main_prompt,
      built_in ''advisor'' ''subagent''
        ''Advises on architecture, implementation tradeoffs, risks, and sequencing without changing files.'' True False
        ''You are a pragmatic senior engineering advisor. Inspect relevant code and constraints, separate facts from assumptions, recommend a preferred option with alternatives and tradeoffs, and do not modify files or claim unrun checks.'',
      built_in ''explore'' ''subagent'' ''Fast read-only codebase reconnaissance.'' True False
        ''You are a fast read-only reconnaissance agent. Search and read the codebase, return paths, symbols, and concise findings, and never modify files or run state-changing commands.'',
      built_in ''title'' ''utility'' ''Names the session after the overarching goal of the work.'' False True
        ''You name Midas sessions. In the requested word budget, name the overarching goal or outcome of the work as a title, describing the overall objective and never the current activity, tool, command, or agent. Reply with only the title, no quotes.'',
      built_in ''summary'' ''utility'' ''Writes the short live summary of what the session is doing.'' False True
        ''You summarize Midas sessions. In the requested word budget, summarize what is happening right now: the state of the conversation and the aim of the current step, never the tool or agent name. Reply with only the summary phrase, no quotes.'']"

definition lookup :: "profiles \<Rightarrow> string \<Rightarrow> profile option" where
  "lookup custom name =
     (case map_of built_in_profiles (trim_space name) of
        Some p \<Rightarrow> Some p
      | None \<Rightarrow> map_of custom (trim_space name))"

definition profiles :: "profiles \<Rightarrow> profile list" where
  "profiles custom =
     map (the \<circ> map_of built_in_profiles) (sort (map fst built_in_profiles))
     @ map (the \<circ> map_of custom) (sort (map fst custom))"

definition resolve_profile :: "profiles \<Rightarrow> string \<Rightarrow> go_error + profile" where
  "resolve_profile custom name =
     (let name1 = (if trim_space name = [] then ''main'' else trim_space name)
      in case lookup custom name1 of
           None \<Rightarrow> Inl (ErrText (''unknown agent '' @ quote name1))
         | Some p \<Rightarrow> Inr p)"

definition configured_model :: "profiles \<Rightarrow> string \<Rightarrow> string" where
  "configured_model custom name =
     (case lookup custom name of None \<Rightarrow> [] | Some p \<Rightarrow> trim_space (pf_model p))"

definition configured_reasoning :: "profiles \<Rightarrow> string \<Rightarrow> string" where
  "configured_reasoning custom name =
     (case lookup custom name of None \<Rightarrow> [] | Some p \<Rightarrow> trim_space (pf_reasoning p))"

definition tools_mode :: "profiles \<Rightarrow> string \<Rightarrow> string" where
  "tools_mode custom name =
     (case lookup custom name of
        None \<Rightarrow> ''full''
      | Some p \<Rightarrow>
          if trim_space (pf_tools p) \<noteq> [] then pf_tools p
          else if pf_read_only p then ''read-only'' else ''full'')"

definition default_max_depth :: int where
  "default_max_depth = 2"

definition max_depth :: "profiles \<Rightarrow> string \<Rightarrow> int" where
  "max_depth custom name =
     (case lookup custom name of
        None \<Rightarrow> default_max_depth
      | Some p \<Rightarrow> if pf_max_depth p \<le> 0 then default_max_depth else pf_max_depth p)"

definition can_enter :: "profiles \<Rightarrow> string \<Rightarrow> bool" where
  "can_enter custom name =
     (case lookup custom name of None \<Rightarrow> False | Some p \<Rightarrow> pf_mode p = ''primary'' \<and> \<not> pf_reserved p)"

definition can_delegate :: "profiles \<Rightarrow> string \<Rightarrow> bool" where
  "can_delegate custom name =
     (case lookup custom name of
        None \<Rightarrow> False
      | Some p \<Rightarrow> pf_mode p \<noteq> ''utility'' \<and> \<not> pf_reserved p \<and> tools_mode custom name = ''full'')"

definition can_delegate_to :: "profiles \<Rightarrow> string \<Rightarrow> bool" where
  "can_delegate_to custom name =
     (case lookup custom name of None \<Rightarrow> False | Some p \<Rightarrow> pf_mode p = ''subagent'')"

section \<open>Models an agent inherits\<close>

definition built_in_parents :: "(string \<times> string list) list" where
  "built_in_parents =
     [(''advisor'', [''main'']), (''explore'', [''main'']), (''title'', [''main'']), (''summary'', [''main''])]"

definition is_utility_agent :: "profiles \<Rightarrow> string \<Rightarrow> bool" where
  "is_utility_agent custom name =
     (case lookup custom name of None \<Rightarrow> False | Some p \<Rightarrow> pf_mode p = ''utility'')"

definition is_entry_agent :: "profiles \<Rightarrow> string \<Rightarrow> bool" where
  "is_entry_agent custom name =
     (case lookup custom name of None \<Rightarrow> False | Some p \<Rightarrow> pf_mode p = ''primary'' \<and> \<not> pf_reserved p)"

definition parent_agents :: "profiles \<Rightarrow> string \<Rightarrow> string list" where
  "parent_agents custom name =
     (case map_of custom (trim_space name) of
        Some p \<Rightarrow> pf_parents p
      | None \<Rightarrow> (case map_of built_in_parents (trim_space name) of Some ps \<Rightarrow> ps | None \<Rightarrow> []))"

definition entry_agents :: "profiles \<Rightarrow> string list" where
  "entry_agents custom = filter (is_entry_agent custom) (map pf_name (profiles custom))"

definition default_model_label :: "profiles \<Rightarrow> string \<Rightarrow> string" where
  "default_model_label custom name =
     (if is_entry_agent custom name then ''Default (Last used)''
      else if parent_agents custom name = [] then ''Default'' else ''Default (Inherit)'')"

section \<open>Definitions in the settings file\<close>

record definition_entry =
  de_description :: string
  de_mode :: string
  de_model :: string
  de_reasoning :: string
  de_prompt :: string
  de_tools :: string
  de_parents :: "string list"
  de_max_depth :: "int option"

definition agent_name_char :: "char \<Rightarrow> bool" where
  "agent_name_char c \<longleftrightarrow>
     list_ex (\<lambda>(first, final). first \<le> c \<and> c \<le> final)
       [(CHR ''a'', CHR ''z''), (CHR ''A'', CHR ''Z''), (CHR ''0'', CHR ''9'')]
     \<or> c \<in> {CHR ''-'', CHR ''_''}"

definition is_agent_name :: "string \<Rightarrow> bool" where
  "is_agent_name name \<longleftrightarrow> list_all agent_name_char name"

definition valid_reasoning_level :: "string \<Rightarrow> bool" where
  "valid_reasoning_level v \<longleftrightarrow> v \<in> set [''off'', ''low'', ''medium'', ''high'', ''xhigh'', ''max'']"

fun clean_parents :: "string list \<Rightarrow> string list \<Rightarrow> string list" where
  "clean_parents [] acc = acc"
| "clean_parents (p # ps) acc =
     (if trim_space p = [] \<or> trim_space p \<in> set acc then clean_parents ps acc
      else clean_parents ps (acc @ [trim_space p]))"

definition default_custom_prompt :: "string \<Rightarrow> string \<Rightarrow> string" where
  "default_custom_prompt name description =
     ''You are the '' @ name @ '' agent. '' @ description
     @ '' Work directly in the user'' @ [CHR 0x27]
     @ ''s current directory, inspect the code and project instructions, preserve unrelated work, run the checks that apply, and report the outcome concisely.''"

definition agents_error :: "string \<Rightarrow> string \<Rightarrow> go_error" where
  "agents_error name what = ErrText (''agents: '' @ name @ '': '' @ what)"

text \<open>What \<^verbatim>\<open>Definition.profile\<close> fills in, field by field.\<close>

definition or_default :: "string \<Rightarrow> string \<Rightarrow> string" where
  "or_default s d = (if s = [] then d else s)"

definition entry_mode :: "(string \<Rightarrow> string) \<Rightarrow> definition_entry \<Rightarrow> string" where
  "entry_mode lower d = or_default (lower (trim_space (de_mode d))) ''subagent''"

definition entry_tools :: "(string \<Rightarrow> string) \<Rightarrow> definition_entry \<Rightarrow> string" where
  "entry_tools lower d = or_default (lower (trim_space (de_tools d))) ''full''"

definition entry_reasoning :: "(string \<Rightarrow> string) \<Rightarrow> definition_entry \<Rightarrow> string" where
  "entry_reasoning lower d = lower (trim_space (de_reasoning d))"

definition entry_parents :: "string \<Rightarrow> definition_entry \<Rightarrow> string list" where
  "entry_parents mode d =
     (let parents = clean_parents (de_parents d) []
      in if parents = [] \<and> mode \<noteq> ''primary'' then [''main''] else parents)"

definition entry_description :: "string \<Rightarrow> definition_entry \<Rightarrow> string" where
  "entry_description mode d =
     or_default (trim_space (de_description d)) (''User-defined '' @ mode @ '' agent.'')"

definition entry_prompt :: "string \<Rightarrow> string \<Rightarrow> definition_entry \<Rightarrow> string" where
  "entry_prompt name mode d =
     or_default (trim_space (de_prompt d)) (default_custom_prompt name (entry_description mode d))"

definition entry_profile ::
  "(string \<Rightarrow> string) \<Rightarrow> string \<Rightarrow> definition_entry \<Rightarrow> go_error + profile" where
  "entry_profile lower name d =
     (if entry_mode lower d \<notin> set [''primary'', ''subagent'', ''utility'']
      then Inl (agents_error name (''mode must be primary, subagent, or utility, not '' @ quote (de_mode d)))
      else if entry_tools lower d \<notin> set [''full'', ''read-only'', ''none'']
      then Inl (agents_error name (''tools must be full, read-only, or none, not '' @ quote (de_tools d)))
      else if entry_reasoning lower d \<noteq> [] \<and> \<not> valid_reasoning_level (entry_reasoning lower d)
      then Inl (agents_error name (''unknown reasoning level '' @ quote (de_reasoning d)))
      else if (case de_max_depth d of Some n \<Rightarrow> n < 0 | None \<Rightarrow> False)
      then Inl (agents_error name ''maxDepth must not be negative'')
      else Inr \<lparr>pf_name = name, pf_mode = entry_mode lower d,
                pf_description = entry_description (entry_mode lower d) d,
                pf_system_prompt = entry_prompt name (entry_mode lower d) d,
                pf_read_only = (entry_tools lower d = ''read-only''), pf_reserved = False,
                pf_model = trim_space (de_model d), pf_reasoning = entry_reasoning lower d,
                pf_tools = entry_tools lower d, pf_parents = entry_parents (entry_mode lower d) d,
                pf_max_depth = (case de_max_depth d of Some n \<Rightarrow> n | None \<Rightarrow> default_max_depth)\<rparr>)"

text \<open>The first loop of \<^verbatim>\<open>LoadCustom\<close>, over the sorted names.\<close>

fun load_loop ::
  "(string \<Rightarrow> string) \<Rightarrow> ('j option \<Rightarrow> go_error + definition_entry) \<Rightarrow> (string \<times> 'j) list \<Rightarrow> string list
     \<Rightarrow> profiles \<Rightarrow> go_error + profiles" where
  "load_loop lower decode entries [] loaded = Inr loaded"
| "load_loop lower decode entries (n # ns) loaded =
     (let name = trim_space n in
      if name = [] then Inl (ErrText ''agents: an agent needs a name'')
      else if map_of built_in_profiles name \<noteq> None
      then Inl (ErrText (''agents: '' @ quote name @ '' is a built-in agent; rename yours to add it''))
      else if \<not> is_agent_name name
      then Inl (ErrText (''agents: '' @ quote name
             @ '' is not a valid agent name; use letters, digits, and dashes''))
      else case decode (map_of entries name) of
        Inl e \<Rightarrow> Inl (Wrap (''agents: '' @ name @ '': '') e)
      | Inr d \<Rightarrow> (case entry_profile lower name d of
            Inl e \<Rightarrow> Inl e
          | Inr p \<Rightarrow> load_loop lower decode entries ns (AList.update name p loaded)))"

definition unknown_parent :: "profiles \<Rightarrow> profile \<Rightarrow> string option" where
  "unknown_parent loaded p =
     find (\<lambda>q. map_of loaded q = None \<and> map_of built_in_profiles q = None) (pf_parents p)"

fun parents_loop :: "profiles \<Rightarrow> profile list \<Rightarrow> go_error option" where
  "parents_loop loaded [] = None"
| "parents_loop loaded (p # ps) =
     (case unknown_parent loaded p of
        Some q \<Rightarrow> Some (ErrText (''agents: '' @ pf_name p @ '' inherits from '' @ quote q
                    @ '', which is not an agent''))
      | None \<Rightarrow> parents_loop loaded ps)"

text \<open>\<^verbatim>\<open>LoadCustom\<close>: the error and the agents defined from then on.\<close>

definition load_custom ::
  "(string \<Rightarrow> string) \<Rightarrow> ('j option \<Rightarrow> go_error + definition_entry) \<Rightarrow> (string \<times> 'j) list
     \<Rightarrow> profiles \<Rightarrow> go_error option \<times> profiles" where
  "load_custom lower decode entries custom =
     (case load_loop lower decode entries (sort (map fst entries)) [] of
        Inl e \<Rightarrow> (Some e, custom)
      | Inr loaded \<Rightarrow>
          (case parents_loop loaded (map snd loaded) of
             Some e \<Rightarrow> (Some e, custom)
           | None \<Rightarrow> (None, loaded)))"

section \<open>What loading establishes\<close>

definition trimmed :: "string \<Rightarrow> bool" where
  "trimmed s \<longleftrightarrow> trim_space s = s \<and> s \<noteq> []"

definition profile_ok :: "string \<Rightarrow> profile \<Rightarrow> bool" where
  "profile_ok n p \<longleftrightarrow>
     pf_name p = n \<and> n \<noteq> [] \<and> trim_space n = n \<and> is_agent_name n \<and> map_of built_in_profiles n = None
     \<and> pf_mode p \<in> {''primary'', ''subagent'', ''utility''}
     \<and> pf_tools p \<in> {''full'', ''read-only'', ''none''}
     \<and> (pf_reasoning p = [] \<or> valid_reasoning_level (pf_reasoning p))
     \<and> 0 \<le> pf_max_depth p \<and> pf_system_prompt p \<noteq> [] \<and> \<not> pf_reserved p
     \<and> (pf_parents p = [] \<longrightarrow> pf_mode p = ''primary'') \<and> distinct (pf_parents p)
     \<and> list_all trimmed (pf_parents p)"

lemma trimmed_trim: "trim_space s \<noteq> [] \<Longrightarrow> trimmed (trim_space s)"
  by (simp add: trimmed_def)

lemma clean_parents_ok:
  "distinct acc \<Longrightarrow> list_all trimmed acc \<Longrightarrow>
     distinct (clean_parents ps acc) \<and> list_all trimmed (clean_parents ps acc)"
proof (induction ps arbitrary: acc)
  case (Cons p ps)
  then show ?case
    by (cases "trim_space p = [] \<or> trim_space p \<in> set acc") (simp_all add: trimmed_trim)
qed simp

lemma trim_main: "trim_space ''main'' = ''main''"
  by (rule trim_space_eqI) (simp_all add: white_encodings_def)

lemma entry_prompt_nonempty: "entry_prompt n m d \<noteq> []"
  by (simp add: entry_prompt_def or_default_def default_custom_prompt_def)

lemma entry_parents_ok:
  "distinct (entry_parents m d) \<and> (entry_parents m d = [] \<longrightarrow> m = ''primary'')
   \<and> list_all trimmed (entry_parents m d)"
  using clean_parents_ok [of "[]" "de_parents d"]
  by (simp add: entry_parents_def Let_def trimmed_def trim_main)

lemma entry_profile_ok:
  assumes "entry_profile lower n d = Inr p" and "n \<noteq> []" "trim_space n = n" "is_agent_name n"
    and "map_of built_in_profiles n = None"
  shows "profile_ok n p"
proof -
  from assms(1) have "entry_mode lower d \<in> {''primary'', ''subagent'', ''utility''}"
    and "entry_tools lower d \<in> {''full'', ''read-only'', ''none''}"
    and "entry_reasoning lower d = [] \<or> valid_reasoning_level (entry_reasoning lower d)"
    and "\<not> (case de_max_depth d of Some n \<Rightarrow> n < 0 | None \<Rightarrow> False)"
    and "p = \<lparr>pf_name = n, pf_mode = entry_mode lower d,
                pf_description = entry_description (entry_mode lower d) d,
                pf_system_prompt = entry_prompt n (entry_mode lower d) d,
                pf_read_only = (entry_tools lower d = ''read-only''), pf_reserved = False,
                pf_model = trim_space (de_model d), pf_reasoning = entry_reasoning lower d,
                pf_tools = entry_tools lower d, pf_parents = entry_parents (entry_mode lower d) d,
                pf_max_depth = (case de_max_depth d of Some n \<Rightarrow> n | None \<Rightarrow> default_max_depth)\<rparr>"
    unfolding entry_profile_def go_return by (simp_all only: sum.inject set_simps not_not simp_thms de_Morgan_conj)
  with assms(2-5) entry_parents_ok [of "entry_mode lower d" d] show ?thesis
    by (simp add: profile_ok_def entry_prompt_nonempty default_max_depth_def split: option.splits)
qed

definition all_ok :: "profiles \<Rightarrow> bool" where
  "all_ok c \<longleftrightarrow> gomap_wf c \<and> (\<forall>n p. map_of c n = Some p \<longrightarrow> profile_ok n p)"

lemma load_loop_ok:
  "load_loop lower decode entries ns loaded = Inr c \<Longrightarrow> all_ok loaded \<Longrightarrow> all_ok c"
proof (induction ns arbitrary: loaded)
  case (Cons n ns)
  let ?n = "trim_space n"
  from Cons.prems(1) obtain d p where guards: "?n \<noteq> []" "map_of built_in_profiles ?n = None" "is_agent_name ?n"
    and p: "entry_profile lower ?n d = Inr p"
    and rest: "load_loop lower decode entries ns (AList.update ?n p loaded) = Inr c"
    unfolding load_loop.simps Let_def go_return by blast
  have "profile_ok ?n p" using entry_profile_ok [OF p guards(1) trim_space_idem guards(3,2)] .
  with Cons.prems(2) have "all_ok (AList.update ?n p loaded)" by (simp add: all_ok_def)
  from Cons.IH [OF rest this] show ?case .
qed simp

lemma parents_loop_none:
  "parents_loop loaded ps = None \<longleftrightarrow>
     (\<forall>p \<in> set ps. \<forall>q \<in> set (pf_parents p). map_of loaded q \<noteq> None \<or> map_of built_in_profiles q \<noteq> None)"
proof (induction ps)
  case (Cons p ps)
  have "unknown_parent loaded p = None \<longleftrightarrow>
      (\<forall>q \<in> set (pf_parents p). map_of loaded q \<noteq> None \<or> map_of built_in_profiles q \<noteq> None)"
    unfolding unknown_parent_def find_None_iff by auto
  with Cons.IH show ?case by (cases "unknown_parent loaded p") simp_all
qed simp

text \<open>Claim C35. Loading the user's agents either changes nothing and reports an error, or every agent it
  defines is well formed: its name is a valid one of its own that no built-in agent has, its
  mode, tools and reasoning level are among those known, its prompt is not empty, and each of
  its parents resolves to an agent; only a primary agent has none.\<close>

theorem load_custom_type:
  assumes "load_custom lower decode entries custom = (err, loaded)"
  shows "if err = None
    then all_ok loaded \<and> (\<forall>n p. map_of loaded n = Some p \<longrightarrow>
           (\<forall>q \<in> set (pf_parents p). lookup loaded q \<noteq> None))
    else loaded = custom"
proof (cases err)
  case None
  with assms have l: "load_loop lower decode entries (sort (map fst entries)) [] = Inr loaded"
    and p: "parents_loop loaded (map snd loaded) = None"
    by (auto simp: load_custom_def split: sum.splits option.splits)
  have ok: "all_ok loaded" by (rule load_loop_ok [OF l]) (simp add: all_ok_def)
  have "lookup loaded q \<noteq> None" if "map_of loaded n = Some pf" "q \<in> set (pf_parents pf)" for n pf q
  proof -
    from ok that have "trim_space q = q"
      by (auto simp: all_ok_def profile_ok_def list_all_iff trimmed_def)
    moreover have "map_of loaded q \<noteq> None \<or> map_of built_in_profiles q \<noteq> None"
      using p that(2) map_of_SomeD [OF that(1)] unfolding parents_loop_none by force
    ultimately show ?thesis by (auto simp: lookup_def split: option.split)
  qed
  with ok None show ?thesis by simp
next
  case (Some e)
  with assms show ?thesis by (auto simp: load_custom_def split: sum.splits option.splits)
qed

definition demo_entry :: definition_entry where
  "demo_entry =
     \<lparr>de_description = [], de_mode = ''subagent'', de_model = [], de_reasoning = ''high'', de_prompt = [],
      de_tools = [], de_parents = [], de_max_depth = Some 0\<rparr>"

definition demo_decode :: "definition_entry option \<Rightarrow> go_error + definition_entry" where
  "demo_decode e = (case e of None \<Rightarrow> Inl (ErrText ''unexpected end of JSON input'') | Some d \<Rightarrow> Inr d)"

abbreviation demo_loaded :: "go_error option \<times> profiles" where
  "demo_loaded \<equiv> load_custom id demo_decode [(''reviewer'', demo_entry)] []"

lemma demo_trims:
  "trim_space ''reviewer'' = ''reviewer''" "trim_space ''subagent'' = ''subagent''"
  "trim_space ''high'' = ''high''"
  by (rule trim_space_eqI; simp add: white_encodings_def)+

lemma demo_reviewer:
  "demo_loaded = (None, [(''reviewer'',
     \<lparr>pf_name = ''reviewer'', pf_mode = ''subagent'', pf_description = ''User-defined subagent agent.'',
      pf_system_prompt = default_custom_prompt ''reviewer'' ''User-defined subagent agent.'',
      pf_read_only = False, pf_reserved = False, pf_model = [], pf_reasoning = ''high'',
      pf_tools = ''full'', pf_parents = [''main''], pf_max_depth = 0\<rparr>)])"
  by (simp add: load_custom_def demo_decode_def demo_entry_def entry_profile_def entry_mode_def entry_tools_def
      entry_reasoning_def entry_parents_def entry_description_def entry_prompt_def or_default_def demo_trims Let_def
      built_in_profiles_def built_in_def is_agent_name_def agent_name_char_def less_eq_char_def
      valid_reasoning_level_def unknown_parent_def)

theorem load_custom_type_witness:
  "all_ok (snd demo_loaded) \<and> lookup (snd demo_loaded) ''main'' \<noteq> None"
proof -
  from load_custom_type [of id demo_decode "[(''reviewer'', demo_entry)]" "[]" "fst demo_loaded" "snd demo_loaded"]
  have "all_ok (snd demo_loaded)" and parents: "\<And>n p q. map_of (snd demo_loaded) n = Some p \<Longrightarrow>
      q \<in> set (pf_parents p) \<Longrightarrow> lookup (snd demo_loaded) q \<noteq> None"
    by (simp_all add: demo_reviewer del: not_None_eq)
  moreover have "lookup (snd demo_loaded) ''main'' \<noteq> None"
    by (rule parents [of "''reviewer''" "the (map_of (snd demo_loaded) ''reviewer'')"])
      (simp_all add: demo_reviewer)
  ultimately show ?thesis by blast
qed

end
