(* ===== verification/Delegation.thy ===== *)
theory Delegation
  imports Profiles Chat_Facts
begin

text \<open>
  The delegation path of \<^verbatim>\<open>src/internal/chat/task.go\<close>: the task tool, which runs another agent as
  a child of the calling run. The child's run is what its stream reports and what \<^verbatim>\<open>Result\<close>
  returns; the resolver of runtimes is a parameter, as it is of the code.
\<close>

section \<open>Bounded text\<close>

definition rune_start :: "char \<Rightarrow> bool" where
  "rune_start c \<longleftrightarrow> \<not> continues c"

fun cut_back :: "string \<Rightarrow> nat \<Rightarrow> nat" where
  "cut_back s 0 = 0"
| "cut_back s (Suc i) = (if rune_start (s ! Suc i) then Suc i else cut_back s i)"

definition truncate_at_rune :: "string \<Rightarrow> nat \<Rightarrow> string" where
  "truncate_at_rune s limit = (if length s \<le> limit then s else take (cut_back s limit) s)"

definition append_bounded :: "nat \<Rightarrow> string \<Rightarrow> string \<Rightarrow> string" where
  "append_bounded limit built t =
     (if length built \<ge> limit then built
      else let remaining = limit - length built
           in built @ (if length t > remaining then truncate_at_rune t remaining @ ellipsis else t))"

definition task_progress_limit :: nat where
  "task_progress_limit = 8 * 1024"

definition task_result_limit :: nat where
  "task_result_limit = 50 * 1024"

section \<open>Who may delegate\<close>

record 'p agent_runtime =
  ar_provider :: "'p option"
  ar_model :: model
  ar_api_key :: string
  ar_reasoning :: thinking_level

text \<open>What the tool reads of the session beside \<open>'p chat\<close>: the user's agents, the suffix of every
  prompt and the resolver.\<close>

record 'p delegation =
  dg_custom :: profiles
  dg_suffix :: string
  dg_resolve :: "(string \<Rightarrow> string \<Rightarrow> go_error + 'p agent_runtime) option"

definition task_parameters :: "string list" where
  \<open>task_parameters =
     [''{'', ''  "type": "object",'', ''  "properties": {'', ''    "agent": {'', ''      "type": "string",'',
      ''      "description": "Name of the subagent to run, for example explore or advisor."'', ''    },'',
      ''    "prompt": {'', ''      "type": "string",'',
      ''      "description": "The complete instruction for the subagent. It cannot see this conversation."'',
      ''    }'', ''  },'', ''  "required": ["agent", "prompt"],'', ''  "additionalProperties": false'', ''}'']\<close>

definition task_definition :: tool_definition where
  "task_definition =
     \<lparr>td_name = ''task'',
      td_description = ''Run one of the subagents on a bounded piece of work and return its answer. Use it for reconnaissance you do not need to watch, and for independent opinions you would otherwise have to form yourself. The subagent starts with no memory of this conversation, so its prompt must be self-contained.'',
      td_parameters = join newline task_parameters\<rparr>"

definition task_tool_for :: "'p delegation \<Rightarrow> string \<Rightarrow> nat \<Rightarrow> tool_definition option" where
  "task_tool_for dg name depth =
     (if dg_resolve dg = None \<or> \<not> can_delegate (dg_custom dg) name then None
      else if int depth \<ge> max_depth (dg_custom dg) name then None
      else Some task_definition)"

definition coding_mode_for :: "profiles \<Rightarrow> string \<Rightarrow> coding_tools_mode" where
  "coding_mode_for custom name =
     (if tools_mode custom name = ''read-only'' then CodingToolsReadOnly
      else if tools_mode custom name = ''none'' then CodingToolsNone else CodingToolsAll)"

definition tools_for_agent :: "'p delegation \<Rightarrow> 'p chat \<Rightarrow> string \<Rightarrow> nat \<Rightarrow> go_error + tool_slot list" where
  "tools_for_agent dg c name depth =
     (case profile_tools (ch_kit c) (coding_mode_for (dg_custom dg) name) (ch_goal_tools c)
             (ch_additional c) of
        Inl e \<Rightarrow> Inl e
      | Inr ts \<Rightarrow>
          checked_tools (ts @ (case ch_mcp c of None \<Rightarrow> [] | Some ms \<Rightarrow> ms)
            @ (case task_tool_for dg name depth of None \<Rightarrow> [] | Some t \<Rightarrow> [Some t])))"

definition child_system_prompt :: "'p delegation \<Rightarrow> profile \<Rightarrow> string" where
  "child_system_prompt dg p =
     (let system = trim_space (pf_system_prompt p)
      in if trim_space (dg_suffix dg) = [] then system
         else system @ newline @ newline @ trim_space (dg_suffix dg))"

definition agent_runtime_for :: "'p delegation \<Rightarrow> string \<Rightarrow> string \<Rightarrow> go_error + 'p agent_runtime" where
  "agent_runtime_for dg name inherited =
     (case dg_resolve dg of
        None \<Rightarrow> Inl (ErrText ''this session cannot run subagents'')
      | Some resolve \<Rightarrow>
          (case resolve name inherited of
             Inl e \<Rightarrow> Inl e
           | Inr r \<Rightarrow> if ar_provider r = None then Inl (ErrText (''no provider for '' @ name)) else Inr r))"

definition model_ref :: "model \<Rightarrow> string" where
  "model_ref m =
     (if trim_space (mo_provider m) = [] \<or> trim_space (mo_id m) = [] then []
      else mo_provider m @ ''/'' @ mo_id m)"

fun string_argument :: "json option \<Rightarrow> string" where
  "string_argument (Some (JString s)) = s"
| "string_argument _ = []"

section \<open>One delegation\<close>

text \<open>The child run a call starts: everything \<^verbatim>\<open>agent.Run\<close> is given.\<close>

record 'p child =
  cd_agent :: string
  cd_depth :: nat
  cd_provider :: "'p option"
  cd_model :: model
  cd_options :: stream_options
  cd_system :: string
  cd_tools :: "tool_slot list"
  cd_prompts :: "message list"
  cd_history :: "message list"

definition task_error :: "string \<Rightarrow> go_error" where
  "task_error s = ErrText (''task: '' @ s)"

text \<open>\<^verbatim>\<open>Execute\<close> up to the run; \<open>name\<close> and \<open>depth\<close> are the calling agent's.\<close>

definition task_launch ::
  "'p delegation \<Rightarrow> 'p chat \<Rightarrow> string \<Rightarrow> nat \<Rightarrow> arguments \<Rightarrow> int \<Rightarrow> go_error + 'p child" where
  "task_launch dg c name depth args now =
     (let target = trim_space (string_argument (map_of args ''agent''));
          wanted = trim_space (string_argument (map_of args ''prompt''));
          custom = dg_custom dg
      in if target = [] \<or> wanted = [] then Inl (task_error ''an agent name and a prompt are required'')
         else if int depth \<ge> max_depth custom name
         then Inl (task_error (name @ '' is at its subagent depth limit (''
                @ show_int (max_depth custom name) @ '' levels), so it cannot run '' @ target))
         else if \<not> can_delegate_to custom target
         then (case resolve_profile custom target of
                 Inl e \<Rightarrow> Inl (Wrap ''task: '' e)
               | Inr _ \<Rightarrow> Inl (task_error (target @ '' is not a subagent, so it cannot be run as one'')))
         else if target = name then Inl (task_error (target @ '' cannot run itself''))
         else case resolve_profile custom target of
           Inl e \<Rightarrow> Inl (Wrap ''task: '' e)
         | Inr p \<Rightarrow>
           case agent_runtime_for dg target (model_ref (ch_model c)) of
             Inl e \<Rightarrow> Inl (Wrap (''task: '' @ target @ '' cannot run: '') e)
           | Inr r \<Rightarrow>
             case tools_for_agent dg c target (depth + 1) of
               Inl e \<Rightarrow> Inl e
             | Inr ts \<Rightarrow>
                 let so = (ch_stream_options c)\<lparr>so_api_key := ar_api_key r, so_reasoning := ar_reasoning r\<rparr>;
                     m = User (new_user_message wanted now)
                 in Inr \<lparr>cd_agent = target, cd_depth = depth + 1, cd_provider = ar_provider r,
                         cd_model = ar_model r,
                         cd_options = (if mo_reasoning (ar_model r) then so else so\<lparr>so_reasoning := ThinkingOff\<rparr>),
                         cd_system = child_system_prompt dg p, cd_tools = ts,
                         cd_prompts = [m], cd_history = [m]\<rparr>)"

text \<open>Reading the child's events: what it streamed, the updates reported, and its failure.\<close>

record task_progress =
  tp_answer :: string
  tp_progress :: string
  tp_updates :: "string list"
  tp_failure :: "go_error option"

definition text_delta :: "event \<Rightarrow> string option" where
  "text_delta e =
     (case ev_assistant_event e of
        None \<Rightarrow> None
      | Some ae \<Rightarrow> if ae_type ae = EvTextDelta \<and> ae_delta ae \<noteq> [] then Some (ae_delta ae) else None)"

definition take_delta :: "event \<Rightarrow> task_progress \<Rightarrow> task_progress" where
  "take_delta e tp =
     (case text_delta e of
        None \<Rightarrow> tp
      | Some t \<Rightarrow>
          let progress = append_bounded task_progress_limit (tp_progress tp) t
          in tp\<lparr>tp_answer := append_bounded task_result_limit (tp_answer tp) t,
                tp_progress := progress, tp_updates := tp_updates tp @ [progress]\<rparr>)"

definition take_failure :: "event \<Rightarrow> task_progress \<Rightarrow> task_progress" where
  "take_failure e tp =
     (if ev_type e = EventAgentEnd \<and> ev_err e \<noteq> None then tp\<lparr>tp_failure := ev_err e\<rparr> else tp)"

fun task_events :: "upstream list \<Rightarrow> task_progress \<Rightarrow> task_progress" where
  "task_events [] tp = tp"
| "task_events (UpErr err # us) tp = tp\<lparr>tp_failure := Some err\<rparr>"
| "task_events (UpEvent e # us) tp = task_events us (take_failure e (take_delta e tp))"

fun spoken_part :: "content \<Rightarrow> string" where
  "spoken_part (Text t) = tx_text t"
| "spoken_part _ = []"

definition spoken :: "assistant_message \<Rightarrow> string" where
  "spoken m = concat (map spoken_part (am_content m))"

text \<open>The last spoken turn and the tokens of all turns.\<close>

fun final_answer :: "message list \<Rightarrow> string \<Rightarrow> usage \<Rightarrow> string \<times> usage" where
  "final_answer [] answer u = (answer, u)"
| "final_answer (Assistant m # ms) answer u =
     final_answer ms (if trim_space (spoken m) \<noteq> [] then spoken m else answer)
       (u\<lparr>us_input := us_input u + us_input (am_usage m), us_output := us_output u + us_output (am_usage m),
          us_cache_read := us_cache_read u + us_cache_read (am_usage m),
          us_cache_write := us_cache_write u + us_cache_write (am_usage m)\<rparr>)"
| "final_answer (_ # ms) answer u = final_answer ms answer u"

definition task_result :: "string \<Rightarrow> arguments \<Rightarrow> usage option \<Rightarrow> tool_result" where
  "task_result t details u =
     \<lparr>rs_content = [new_text t], rs_details = Some details, rs_usage = u, rs_added_tool_names = [],
      rs_terminate = False\<rparr>"

definition no_result :: tool_result where
  "no_result = \<lparr>rs_content = [], rs_details = None, rs_usage = None, rs_added_tool_names = [], rs_terminate = False\<rparr>"

text \<open>\<^verbatim>\<open>Execute\<close> after the run: the result and the error, which a failed child may both have.\<close>

definition task_outcome ::
  "'p child \<Rightarrow> upstream list \<Rightarrow> go_error + message list \<Rightarrow> tool_result \<times> go_error option" where
  "task_outcome cd us result =
     (let tp = task_events us \<lparr>tp_answer = [], tp_progress = [], tp_updates = [], tp_failure = None\<rparr>;
          failure = (case (tp_failure tp, result) of (None, Inl e) \<Rightarrow> Some e | (f, _) \<Rightarrow> f);
          ms = (case result of Inl _ \<Rightarrow> [] | Inr ms \<Rightarrow> ms);
          (answer, u) = final_answer ms [] zero_usage;
          t = (if trim_space answer = [] then trim_space (tp_answer tp) else trim_space answer);
          target = cd_agent cd;
          base = [(''agent'', JString target), (''depth'', JInt (int (cd_depth cd)))]
      in case failure of
           Some e \<Rightarrow>
             if t = [] then (no_result, Some (Wrap (''task: '' @ target @ '' failed: '') e))
             else (task_result t (base @ [(''failed'', JBool True)]) None,
                   Some (Wrap (''task: '' @ target @ '' failed after answering: '') e))
         | None \<Rightarrow>
             if t = [] then (no_result, Some (task_error (target @ '' returned no answer'')))
             else (task_result t (base @ [(''turns'', JInt (int (length ms)))]) (Some u), None))"

section \<open>Chains of delegation\<close>

text \<open>The agents of nested runs, from the session's entry agent: one more level when the last one
  is offered the task tool and a call of it starts a child.\<close>

inductive delegated :: "'p delegation \<Rightarrow> 'p chat \<Rightarrow> string \<Rightarrow> string list \<Rightarrow> bool" for dg c entry where
  entry: "delegated dg c entry [entry]"
| child: "delegated dg c entry (as @ [a]) \<Longrightarrow> task_tool_for dg a (length as) \<noteq> None \<Longrightarrow>
     task_launch dg c a (length as) args now = Inr cd \<Longrightarrow> delegated dg c entry (as @ [a, cd_agent cd])"

lemma task_launch_allowed:
  assumes "task_launch dg c name depth args now = Inr cd"
  shows "int depth < max_depth (dg_custom dg) name \<and> can_delegate_to (dg_custom dg) (cd_agent cd)
    \<and> cd_agent cd \<noteq> name \<and> cd_depth cd = Suc depth \<and> cd_prompts cd = cd_history cd
    \<and> length (cd_history cd) = 1"
  using assms unfolding task_launch_def Let_def go_return
  by (auto split: if_splits sum.splits)

lemma task_tool_offered: "task_tool_for dg a n \<noteq> None \<Longrightarrow> can_delegate (dg_custom dg) a"
  by (simp add: task_tool_for_def split: if_splits)

abbreviation allowed_step :: "profiles \<Rightarrow> nat \<Rightarrow> string \<Rightarrow> string \<Rightarrow> bool" where
  "allowed_step custom i a b \<equiv>
     int i < max_depth custom a \<and> can_delegate custom a \<and> can_delegate_to custom b \<and> b \<noteq> a"

lemma delegated_steps:
  "delegated dg c entry as \<Longrightarrow> as \<noteq> [] \<and>
     (\<forall>i. Suc i < length as \<longrightarrow> allowed_step (dg_custom dg) i (as ! i) (as ! Suc i))"
proof (induction rule: delegated.induct)
  case (child as a args now cd)
  have new: "allowed_step (dg_custom dg) (length as) a (cd_agent cd)"
    using task_launch_allowed [OF child.hyps(3)] task_tool_offered [OF child.hyps(2)] by blast
  have "allowed_step (dg_custom dg) i ((as @ [a, cd_agent cd]) ! i) ((as @ [a, cd_agent cd]) ! Suc i)"
    if "i < Suc (length as)" for i
  proof (cases "i = length as")
    case True
    with new show ?thesis by (simp add: nth_append)
  next
    case False
    with that have i: "i < length as" by simp
    then have "Suc i < length (as @ [a])" by simp
    with child.IH have "allowed_step (dg_custom dg) i ((as @ [a]) ! i) ((as @ [a]) ! Suc i)" by blast
    moreover have "(as @ [a, cd_agent cd]) ! i = (as @ [a]) ! i"
      "(as @ [a, cd_agent cd]) ! Suc i = (as @ [a]) ! Suc i"
      using i by (auto simp: nth_append)
    ultimately show ?thesis by metis
  qed
  then show ?case by simp
qed simp


text \<open>The child is started with its prompt both as the history and as the new messages, so the
  first request of its run holds the prompt twice.\<close>

theorem child_sees_prompt_twice:
  assumes "task_launch dg c name depth args now = Inr cd"
  shows "\<exists>m. ls_current (start_run (cd_prompts cd) (cd_history cd) q w) = [m, m]"
proof -
  from task_launch_allowed [OF assms] obtain m where "cd_history cd = [m]" "cd_prompts cd = [m]"
    by (auto simp: length_Suc_conv)
  then show ?thesis by (simp add: start_run_def push_message_def push_def)
qed

section \<open>A chain deeper than its first agent allows\<close>

definition deep_profile :: "string \<Rightarrow> profile" where
  "deep_profile name =
     \<lparr>pf_name = name, pf_mode = ''subagent'', pf_description = ''d'', pf_system_prompt = ''p'',
      pf_read_only = False, pf_reserved = False, pf_model = [], pf_reasoning = [], pf_tools = ''full'',
      pf_parents = [''main''], pf_max_depth = 3\<rparr>"

definition deep :: "bool delegation" where
  "deep = \<lparr>dg_custom = [(''a'', deep_profile ''a''), (''b'', deep_profile ''b'')], dg_suffix = [],
     dg_resolve = Some (\<lambda>_ _. Inr \<lparr>ar_provider = Some True, ar_model = demo_model, ar_api_key = [],
                                ar_reasoning = ThinkingOff\<rparr>)\<rparr>"

definition deep_call :: "string \<Rightarrow> arguments" where
  "deep_call target = [(''agent'', JString target), (''prompt'', JString ''x'')]"

lemma deep_trims:
  "trim_space ''a'' = ''a''" "trim_space ''b'' = ''b''" "trim_space ''x'' = ''x''"
  "trim_space ''full'' = ''full''"
  by (rule trim_space_eqI; simp add: white_encodings_def)+

lemma deep_lookup:
  "lookup (dg_custom deep) ''a'' = Some (deep_profile ''a'')"
  "lookup (dg_custom deep) ''b'' = Some (deep_profile ''b'')"
  "map_option (\<lambda>p. (pf_mode p, pf_reserved p, pf_tools p, pf_read_only p, pf_max_depth p))
     (lookup (dg_custom deep) ''main'') = Some (''primary'', False, [], False, 0)"
  by (simp_all add: lookup_def deep_def deep_trims trim_main built_in_profiles_def built_in_def)

lemma deep_agent:
  assumes "n \<in> {''a'', ''b''}"
  shows "max_depth (dg_custom deep) n = 3" "can_delegate (dg_custom deep) n"
    "can_delegate_to (dg_custom deep) n" "\<exists>p. resolve_profile (dg_custom deep) n = Inr p"
    "coding_mode_for (dg_custom deep) n = CodingToolsAll"
  using assms
  by (auto simp: max_depth_def can_delegate_def can_delegate_to_def resolve_profile_def tools_mode_def
      coding_mode_for_def deep_lookup deep_profile_def deep_trims)

lemma deep_main: "max_depth (dg_custom deep) ''main'' = 2" "can_delegate (dg_custom deep) ''main''"
  using deep_lookup(3)
  by (auto simp: max_depth_def can_delegate_def tools_mode_def default_max_depth_def)

lemma deep_launch:
  assumes "target \<in> {''a'', ''b''}" and "target \<noteq> name" and "int depth < max_depth (dg_custom deep) name"
  shows "\<exists>cd. task_launch deep demo_chat name depth (deep_call target) 0 = Inr cd \<and> cd_agent cd = target"
proof -
  from deep_agent(4) [OF assms(1)] obtain p where p: "resolve_profile (dg_custom deep) target = Inr p" ..
  have t: "trim_space target = target" "target \<noteq> []" using assms(1) by (auto simp: deep_trims)
  have "\<exists>ts. tools_for_agent deep demo_chat target (depth + 1) = Inr ts"
    by (simp add: tools_for_agent_def deep_agent(5) [OF assms(1)] profile_tools_def checked_tools_def
        unique_tools_def demo_chat_def task_tool_for_def task_definition_def)
  then obtain ts where ts: "tools_for_agent deep demo_chat target (depth + 1) = Inr ts" ..
  obtain r where r: "agent_runtime_for deep target (model_ref (ch_model demo_chat)) = Inr r"
    by (simp add: agent_runtime_for_def deep_def)
  show ?thesis
    using assms(2,3) deep_agent(3) [OF assms(1)] p t ts r
    by (simp add: task_launch_def deep_call_def deep_trims Let_def)
qed

lemma deep_offered:
  "n \<in> {''main'', ''a'', ''b''} \<Longrightarrow> int d < max_depth (dg_custom deep) n \<Longrightarrow> task_tool_for deep n d \<noteq> None"
  using deep_agent(2) deep_main(2) by (auto simp: task_tool_for_def deep_def)

lemma deep_chain: "delegated deep demo_chat ''main'' [''main'', ''a'', ''b'', ''a'']"
proof -
  have step: "delegated deep demo_chat ''main'' (as @ [a, t])"
    if "delegated deep demo_chat ''main'' (as @ [a])" "a \<in> {''main'', ''a'', ''b''}" "t \<in> {''a'', ''b''}"
      "t \<noteq> a" "int (length as) < max_depth (dg_custom deep) a" for as a t
  proof -
    note hyps = that
    obtain cd where "task_launch deep demo_chat a (length as) (deep_call t) 0 = Inr cd" "cd_agent cd = t"
      using deep_launch [OF hyps(3,4,5)] by blast
    with delegated.child [OF hyps(1) deep_offered [OF hyps(2,5)]] show ?thesis by metis
  qed
  have "delegated deep demo_chat ''main'' [''main'', ''a'']"
    using step [of "[]" "''main''" "''a''"] delegated.entry [of deep demo_chat "''main''"] deep_main by simp
  then have "delegated deep demo_chat ''main'' [''main'', ''a'', ''b'']"
    using step [of "[''main'']" "''a''" "''b''"] deep_agent(1) by simp
  then show ?thesis
    using step [of "[''main'', ''a'']" "''b''" "''a''"] deep_agent(1) by simp
qed

text \<open>A limit is compared with the depth below the session's entry agent, so it does not bound what
  runs beneath an agent: three levels run beneath one whose limit is two.\<close>

theorem levels_beneath_exceed_limit:
  "delegated deep demo_chat ''main'' [''main'', ''a'', ''b'', ''a'']
   \<and> max_depth (dg_custom deep) ''main'' = 2"
  using deep_chain deep_main(1) by simp

text \<open>A limit of zero is accepted when the agents are loaded, and then read as the default.\<close>

theorem zero_limit_is_default:
  "fst demo_loaded = None \<and> map_option pf_max_depth (map_of (snd demo_loaded) ''reviewer'') = Some 0
   \<and> max_depth (snd demo_loaded) ''reviewer'' = 2"
  by (simp add: demo_reviewer max_depth_def lookup_def demo_trims built_in_profiles_def built_in_def
      default_max_depth_def)


end
