(* ===== verification/Cache_Warmer.thy ===== *)
theory Cache_Warmer
  imports Agent_Loop
begin

text \<open>
  The prompt-cache warmer of \<^verbatim>\<open>src/pkg/agent/cache_warmer.go\<close>: one timer at a time refreshes the
  provider's copy of the latest prefix. Its methods, the timer's callback and the two ends of
  a refresh each run under the lock; they are the steps of a system that also holds the armed
  timers, the callbacks that wait for the lock and the refreshes under way. Times are
  nanoseconds. The serial number, a \<^verbatim>\<open>uint64\<close>, is a natural number: it does not wrap here.
\<close>

section \<open>Delays and economics\<close>

definition second :: int where "second = 1000000000"

definition maximum_age :: int where "maximum_age = 3600 * second"

definition idle_maximum_age :: int where "idle_maximum_age = 1800 * second"

definition minimum_savings :: rat where "minimum_savings = 5 / 100"

definition idle_probability :: rat where "idle_probability = 15 / 100"

definition prompt_cache_ttl :: "model \<Rightarrow> cache_retention \<Rightarrow> int" where
  "prompt_cache_ttl m retention =
     (case retention of
        CacheNone \<Rightarrow> 0
      | CacheLong \<Rightarrow> wrap64 (mo_cache_long m * second)
      | _ \<Rightarrow> wrap64 (mo_cache_short m * second))"

definition cache_warming_delay :: "int \<Rightarrow> int" where
  "cache_warming_delay ttl =
     (if ttl \<le> 10 * second then 0
      else
        let delay = go_div (wrap64 (ttl * 9)) 10;
            latest = ttl - 10 * second;
            delay' = (if delay > latest then latest else delay)
        in if delay' < 1000000 then 1000000 else delay')"

definition usage_of :: "int \<Rightarrow> int \<Rightarrow> int \<Rightarrow> int \<Rightarrow> usage" where
  "usage_of input output read write =
     zero_usage\<lparr>us_input := input, us_output := output, us_cache_read := read, us_cache_write := write\<rparr>"

definition total_cost :: "model \<Rightarrow> usage \<Rightarrow> rat" where
  "total_cost m u = co_total (snd (calculate_cost m u))"

text \<open>The warm cost, the cost of a miss, the expected savings and whether they are worth it.\<close>

definition cache_warming_economics :: "model \<Rightarrow> int \<Rightarrow> rat \<Rightarrow> rat \<times> rat \<times> rat \<times> bool" where
  "cache_warming_economics m tokens probability =
     (if tokens \<le> 0 then (0, 0, 0, False)
      else
        let warm_cost = total_cost m (usage_of 0 1 tokens 0);
            hit_cost = total_cost m (usage_of 0 0 tokens 0);
            miss_usage = (if mc_cache_write (mo_cost m) > 0 then usage_of 0 0 0 tokens
                          else usage_of tokens 0 0 0);
            miss_cost = max 0 (total_cost m miss_usage - hit_cost);
            expected = probability * miss_cost - warm_cost;
            available = (mc_input (mo_cost m) > 0 \<or> mc_cache_read (mo_cost m) > 0
                         \<or> mc_cache_write (mo_cost m) > 0)
        in (warm_cost, miss_cost, expected, available \<and> expected \<ge> minimum_savings))"

definition worthwhile :: "cache_warm_request \<Rightarrow> rat \<Rightarrow> bool" where
  "worthwhile rq probability =
     snd (snd (snd (cache_warming_economics (wq_model rq) (wq_prompt_tokens rq) probability)))"

definition request_delay :: "cache_warm_request \<Rightarrow> int" where
  "request_delay rq =
     cache_warming_delay (prompt_cache_ttl (wq_model rq) (so_cache_retention (wq_options rq)))"

section \<open>State\<close>

record warmer =
  cw_provider :: bool
  cw_timer :: "nat option"
  cw_cancel :: "nat option"
  cw_closed :: bool
  cw_serial :: nat
  cw_phase :: cache_warming_mode
  cw_started :: int
  cw_request :: cache_warm_request

record timer =
  ti_id :: nat
  ti_serial :: nat
  ti_delay :: int
  ti_due :: int

record refresh =
  rf_id :: nat
  rf_serial :: nat
  rf_delay :: int
  rf_request :: cache_warm_request

text \<open>The warmer with its surroundings: \<open>ws_requests\<close> logs the requests sent to the provider,
  \<open>ws_cancelled\<close> the refreshes whose context was cancelled.\<close>

record warm_system =
  ws_warmer :: warmer
  ws_now :: int
  ws_armed :: "timer list"
  ws_fired :: "timer list"
  ws_inflight :: "refresh list"
  ws_requests :: "cache_warm_request list"
  ws_cancelled :: "nat list"
  ws_next :: nat

definition new_warmer :: "bool \<Rightarrow> int \<Rightarrow> cache_warm_request \<Rightarrow> warm_system" where
  "new_warmer provider now zero_request =
     \<lparr>ws_warmer = \<lparr>cw_provider = provider, cw_timer = None, cw_cancel = None, cw_closed = False,
                   cw_serial = 0, cw_phase = CacheWarmingUnset, cw_started = 0,
                   cw_request = zero_request\<rparr>,
      ws_now = now, ws_armed = [], ws_fired = [], ws_inflight = [], ws_requests = [],
      ws_cancelled = [], ws_next = 0\<rparr>"

section \<open>Operations\<close>

definition set_warmer :: "(warmer \<Rightarrow> warmer) \<Rightarrow> warm_system \<Rightarrow> warm_system" where
  "set_warmer f y = y\<lparr>ws_warmer := f (ws_warmer y)\<rparr>"

definition bump :: "warm_system \<Rightarrow> warm_system" where
  "bump = set_warmer (\<lambda>w. w\<lparr>cw_serial := Suc (cw_serial w)\<rparr>)"

definition stop_locked :: "warm_system \<Rightarrow> warm_system" where
  "stop_locked y =
     (let w = ws_warmer y;
          y1 = (case cw_timer w of
                  None \<Rightarrow> y
                | Some t \<Rightarrow> y\<lparr>ws_armed := filter (\<lambda>x. ti_id x \<noteq> t) (ws_armed y),
                              ws_warmer := w\<lparr>cw_timer := None\<rparr>\<rparr>)
      in case cw_cancel w of
           None \<Rightarrow> y1
         | Some r \<Rightarrow> y1\<lparr>ws_cancelled := r # ws_cancelled y1,
                        ws_warmer := (ws_warmer y1)\<lparr>cw_cancel := None\<rparr>\<rparr>)"

definition warm_stop :: "warm_system \<Rightarrow> warm_system" where
  "warm_stop y = stop_locked (bump y)"

definition warm_close :: "warm_system \<Rightarrow> warm_system" where
  "warm_close y = stop_locked (bump (set_warmer (\<lambda>w. w\<lparr>cw_closed := True\<rparr>) y))"

definition age_limit :: "cache_warming_mode \<Rightarrow> int" where
  "age_limit phase = (if phase = CacheWarmingIdle then idle_maximum_age else maximum_age)"

definition schedule_locked :: "int \<Rightarrow> warm_system \<Rightarrow> warm_system" where
  "schedule_locked delay y =
     (let w = ws_warmer y; deadline = cw_started w + age_limit (cw_phase w)
      in if ws_now y + delay > deadline then stop_locked y
         else y\<lparr>ws_armed := \<lparr>ti_id = ws_next y, ti_serial = cw_serial w, ti_delay = delay,
                            ti_due = ws_now y + delay\<rparr> # ws_armed y,
                ws_next := Suc (ws_next y), ws_warmer := w\<lparr>cw_timer := Some (ws_next y)\<rparr>\<rparr>)"

definition warm_start :: "cache_warm_request \<Rightarrow> cache_warming_mode \<Rightarrow> warm_system \<Rightarrow> warm_system" where
  "warm_start rq mode y =
     (if \<not> cw_provider (ws_warmer y) then y
      else if mode = CacheWarmingOff then warm_stop y
      else if so_reasoning (wq_options rq) \<noteq> ThinkingOff \<and> mo_api (wq_model rq) = ''anthropic-messages''
              \<and> \<not> mo_adaptive_thinking (wq_model rq)
      then warm_stop y
      else
        let y1 = stop_locked y
        in if cw_closed (ws_warmer y1) \<or> request_delay rq = 0 \<or> \<not> worthwhile rq 1 then y1
           else schedule_locked (request_delay rq)
             (set_warmer (\<lambda>w. w\<lparr>cw_serial := Suc (cw_serial w), cw_phase := CacheWarmingStreaming,
                              cw_started := ws_now y, cw_request := rq\<rparr>) y1))"

definition phase_probability :: "cache_warming_mode \<Rightarrow> rat" where
  "phase_probability phase = (if phase = CacheWarmingIdle then idle_probability else 1)"

text \<open>The first critical section of \<^verbatim>\<open>refresh\<close>, with the request it leads to.\<close>

definition refresh_begin :: "timer \<Rightarrow> warm_system \<Rightarrow> warm_system" where
  "refresh_begin t y =
     (let w = ws_warmer y
      in if cw_closed w \<or> ti_serial t \<noteq> cw_serial w then y
         else if \<not> worthwhile (cw_request w) (phase_probability (cw_phase w)) then stop_locked y
         else y\<lparr>ws_warmer := w\<lparr>cw_cancel := Some (ws_next y), cw_timer := None\<rparr>,
                ws_inflight := \<lparr>rf_id = ws_next y, rf_serial = ti_serial t, rf_delay = ti_delay t,
                               rf_request = cw_request w\<rparr> # ws_inflight y,
                ws_requests := ws_requests y @
                  [cw_request w\<lparr>wq_options := (wq_options (cw_request w))
                                  \<lparr>so_max_tokens := 1, so_max_retries := 0\<rparr>\<rparr>],
                ws_next := Suc (ws_next y)\<rparr>)"

text \<open>The second one, after the provider answered or was cancelled.\<close>

definition refresh_end :: "refresh \<Rightarrow> warm_system \<Rightarrow> warm_system" where
  "refresh_end r y =
     (let w = ws_warmer y
      in if cw_closed w \<or> rf_serial r \<noteq> cw_serial w then y
         else schedule_locked (rf_delay r) (y\<lparr>ws_warmer := w\<lparr>cw_cancel := None\<rparr>\<rparr>))"

definition warm_settle :: "cache_warming_mode \<Rightarrow> warm_system \<Rightarrow> warm_system" where
  "warm_settle mode y =
     (let w = ws_warmer y
      in if mode \<noteq> CacheWarmingIdle \<or> cw_closed w \<or> cw_timer w = None then stop_locked (bump y)
         else
           let y1 = set_warmer (\<lambda>w. w\<lparr>cw_phase := CacheWarmingIdle\<rparr>) y;
               delay = request_delay (cw_request w)
           in if \<not> worthwhile (cw_request w) idle_probability \<or> delay = 0
                 \<or> ws_now y + delay > cw_started w + idle_maximum_age
              then stop_locked (bump y1) else y1)"

section \<open>Steps\<close>

inductive warm_step :: "warm_system \<Rightarrow> warm_system \<Rightarrow> bool" where
  tick: "ws_now y \<le> now \<Longrightarrow> warm_step y (y\<lparr>ws_now := now\<rparr>)"
| fire: "t \<in> set (ws_armed y) \<Longrightarrow> ti_due t \<le> ws_now y \<Longrightarrow>
     warm_step y (y\<lparr>ws_armed := remove1 t (ws_armed y), ws_fired := t # ws_fired y\<rparr>)"
| begins: "t \<in> set (ws_fired y) \<Longrightarrow>
     warm_step y (refresh_begin t (y\<lparr>ws_fired := remove1 t (ws_fired y)\<rparr>))"
| ends: "r \<in> set (ws_inflight y) \<Longrightarrow>
     warm_step y (refresh_end r (y\<lparr>ws_inflight := remove1 r (ws_inflight y)\<rparr>))"
| start: "warm_step y (warm_start rq mode y)"
| settle: "warm_step y (warm_settle mode y)"
| stop: "warm_step y (warm_stop y)"
| close: "warm_step y (warm_close y)"

inductive warm_reach :: "warm_system \<Rightarrow> warm_system \<Rightarrow> bool" for y0 where
  initial: "warm_reach y0 y0"
| later: "warm_reach y0 y \<Longrightarrow> warm_step y y' \<Longrightarrow> warm_reach y0 y'"

inductive_cases warm_stepE: "warm_step y y'"

section \<open>One chain of refreshes\<close>

text \<open>The callbacks and refreshes that will still act: those with the warmer's serial number.\<close>

definition waiting :: "warm_system \<Rightarrow> timer list" where
  "waiting y = filter (\<lambda>t. ti_serial t = cw_serial (ws_warmer y)) (ws_fired y)"

definition running :: "warm_system \<Rightarrow> refresh list" where
  "running y = filter (\<lambda>r. rf_serial r = cw_serial (ws_warmer y)) (ws_inflight y)"

abbreviation live :: "warm_system \<Rightarrow> nat" where
  "live y \<equiv> length (ws_armed y) + length (waiting y) + length (running y)"

definition timer_ok :: "warm_system \<Rightarrow> timer \<Rightarrow> bool" where
  "timer_ok y t \<longleftrightarrow>
     cw_timer (ws_warmer y) = Some (ti_id t) \<and> ti_serial t = cw_serial (ws_warmer y)
     \<and> ti_due t \<le> cw_started (ws_warmer y) + age_limit (cw_phase (ws_warmer y))
     \<and> ti_delay t = request_delay (cw_request (ws_warmer y)) \<and> ti_due t \<le> ws_now y + ti_delay t"

definition pending_ok :: "warm_system \<Rightarrow> bool" where
  "pending_ok y \<longleftrightarrow>
     (\<forall>t \<in> set (ws_fired y). ti_serial t \<le> cw_serial (ws_warmer y)
        \<and> (ti_serial t = cw_serial (ws_warmer y) \<longrightarrow> ti_delay t = request_delay (cw_request (ws_warmer y))))
     \<and> (\<forall>r \<in> set (ws_inflight y). rf_serial r \<le> cw_serial (ws_warmer y)
        \<and> (rf_serial r = cw_serial (ws_warmer y) \<longrightarrow> rf_delay r = request_delay (cw_request (ws_warmer y))))"

definition warm_inv :: "warm_system \<Rightarrow> bool" where
  "warm_inv y \<longleftrightarrow>
     live y \<le> 1 \<and> (\<forall>t \<in> set (ws_armed y). timer_ok y t) \<and> pending_ok y
     \<and> (cw_closed (ws_warmer y) \<longrightarrow> live y = 0)"

lemma stop_locked_simps [simp]:
  "ws_fired (stop_locked y) = ws_fired y" "ws_inflight (stop_locked y) = ws_inflight y"
  "ws_now (stop_locked y) = ws_now y" "ws_requests (stop_locked y) = ws_requests y"
  "cw_closed (ws_warmer (stop_locked y)) = cw_closed (ws_warmer y)"
  "cw_serial (ws_warmer (stop_locked y)) = cw_serial (ws_warmer y)"
  "cw_request (ws_warmer (stop_locked y)) = cw_request (ws_warmer y)"
  "waiting (stop_locked y) = waiting y" "running (stop_locked y) = running y"
  "pending_ok (stop_locked y) = pending_ok y"
  by (simp_all add: stop_locked_def waiting_def running_def pending_ok_def Let_def split: option.split)

lemma stop_locked_disarms:
  "\<forall>t \<in> set (ws_armed y). cw_timer (ws_warmer y) = Some (ti_id t) \<Longrightarrow> ws_armed (stop_locked y) = []"
  by (cases "ws_armed y") (auto simp: stop_locked_def Let_def filter_empty_conv split: option.split)

lemma armed_timer: "warm_inv y \<Longrightarrow> \<forall>t \<in> set (ws_armed y). cw_timer (ws_warmer y) = Some (ti_id t)"
  by (auto simp: warm_inv_def timer_ok_def)

lemma stop_inv: "warm_inv y \<Longrightarrow> warm_inv (stop_locked y)"
  using stop_locked_disarms [OF armed_timer, of y] by (auto simp: warm_inv_def)

lemma bump_simps [simp]:
  "ws_armed (bump y) = ws_armed y" "ws_requests (bump y) = ws_requests y"
  "cw_timer (ws_warmer (bump y)) = cw_timer (ws_warmer y)"
  "cw_closed (ws_warmer (bump y)) = cw_closed (ws_warmer y)"
  by (simp_all add: bump_def set_warmer_def)

lemma bump_stale:
  assumes "pending_ok y"
  shows "waiting (bump y) = [] \<and> running (bump y) = [] \<and> pending_ok (bump y)"
  using assms by (fastforce simp: waiting_def running_def pending_ok_def bump_def set_warmer_def filter_empty_conv)

text \<open>After a stop with a new serial number nothing is left that could act.\<close>

lemma halt_inv:
  assumes "warm_inv y"
  shows "warm_inv (stop_locked (bump y)) \<and> live (stop_locked (bump y)) = 0"
proof -
  have "ws_armed (stop_locked (bump y)) = []"
    using armed_timer [OF assms] by (intro stop_locked_disarms) simp
  with bump_stale [of y] assms show ?thesis by (simp add: warm_inv_def)
qed

lemma schedule_inv:
  assumes "live y = 0" and "pending_ok y" and "\<not> cw_closed (ws_warmer y)"
    and "delay = request_delay (cw_request (ws_warmer y))"
  shows "warm_inv (schedule_locked delay y)"
proof (cases "ws_now y + delay > cw_started (ws_warmer y) + age_limit (cw_phase (ws_warmer y))")
  case True
  have "ws_armed (stop_locked y) = []" using assms(1) by (intro stop_locked_disarms) simp
  with True assms show ?thesis by (simp add: schedule_locked_def Let_def warm_inv_def)
next
  case False
  with assms show ?thesis
    by (simp add: schedule_locked_def Let_def warm_inv_def timer_ok_def waiting_def running_def pending_ok_def)
qed

lemma start_inv:
  assumes "warm_inv y"
  shows "warm_inv (warm_start rq mode y)"
proof -
  note halt = halt_inv [OF assms, THEN conjunct1, folded warm_stop_def]
  let ?y1 = "stop_locked y"
  let ?y2 = "set_warmer (\<lambda>w. w\<lparr>cw_serial := Suc (cw_serial w), cw_phase := CacheWarmingStreaming,
                              cw_started := ws_now y, cw_request := rq\<rparr>) ?y1"
  have none: "ws_armed ?y1 = []" by (rule stop_locked_disarms [OF armed_timer [OF assms]])
  have ok: "pending_ok y" using assms by (simp add: warm_inv_def)
  have "live ?y2 = 0" "pending_ok ?y2"
    using ok none by (fastforce simp: waiting_def running_def pending_ok_def set_warmer_def filter_empty_conv)+
  moreover have "cw_closed (ws_warmer ?y2) = cw_closed (ws_warmer ?y1)"
    "cw_request (ws_warmer ?y2) = rq" by (simp_all add: set_warmer_def)
  ultimately have "\<not> cw_closed (ws_warmer ?y1) \<Longrightarrow> warm_inv (schedule_locked (request_delay rq) ?y2)"
    by (intro schedule_inv) simp_all
  with assms halt stop_inv [OF assms] show ?thesis
    unfolding warm_start_def Let_def by (simp split del: if_split split: if_split)
qed

lemma settle_inv:
  assumes "warm_inv y"
  shows "warm_inv (warm_settle mode y)"
proof -
  let ?y1 = "set_warmer (\<lambda>w. w\<lparr>cw_phase := CacheWarmingIdle\<rparr>) y"
  let ?w = "ws_warmer y"
  let ?delay = "request_delay (cw_request ?w)"
  have halted: "warm_inv (stop_locked (bump ?y1))"
  proof -
    have "waiting (bump ?y1) = [] \<and> running (bump ?y1) = [] \<and> pending_ok (bump ?y1)"
      using assms by (intro bump_stale) (simp add: warm_inv_def pending_ok_def set_warmer_def)
    moreover have "ws_armed (stop_locked (bump ?y1)) = []"
      using armed_timer [OF assms] by (intro stop_locked_disarms) (simp add: set_warmer_def)
    ultimately show ?thesis by (simp add: warm_inv_def)
  qed
  have idle: "warm_inv ?y1" if "\<not> ws_now y + ?delay > cw_started ?w + idle_maximum_age"
  proof -
    have "timer_ok ?y1 t" if "t \<in> set (ws_armed y)" for t
    proof -
      have "timer_ok y t" using assms that by (simp add: warm_inv_def)
      with \<open>\<not> ws_now y + ?delay > cw_started ?w + idle_maximum_age\<close> show ?thesis
        by (auto simp: timer_ok_def set_warmer_def age_limit_def)
    qed
    moreover have "waiting ?y1 = waiting y" "running ?y1 = running y" "pending_ok ?y1 = pending_ok y"
      "ws_armed ?y1 = ws_armed y" "cw_closed (ws_warmer ?y1) = cw_closed ?w"
      by (simp_all add: waiting_def running_def pending_ok_def set_warmer_def)
    ultimately show ?thesis using assms by (simp add: warm_inv_def)
  qed
  show ?thesis
    using halt_inv [OF assms] halted idle unfolding warm_settle_def Let_def by simp
qed

lemma close_inv:
  assumes "warm_inv y"
  shows "warm_inv (warm_close y) \<and> live (warm_close y) = 0"
proof -
  let ?y1 = "set_warmer (\<lambda>w. w\<lparr>cw_closed := True\<rparr>) y"
  have "waiting (bump ?y1) = [] \<and> running (bump ?y1) = [] \<and> pending_ok (bump ?y1)"
    using assms by (intro bump_stale) (simp add: warm_inv_def pending_ok_def set_warmer_def)
  moreover have "ws_armed (stop_locked (bump ?y1)) = []"
    using armed_timer [OF assms] by (intro stop_locked_disarms) (simp add: set_warmer_def)
  ultimately show ?thesis by (simp add: warm_inv_def warm_close_def)
qed

lemma length_remove1_current:
  "x \<in> set xs \<Longrightarrow> P x \<Longrightarrow> Suc (length (filter P (remove1 x xs))) = length (filter P xs)"
  by (induction xs) auto

lemma length_filter_remove1: "length (filter P (remove1 x xs)) \<le> length (filter P xs)"
  by (induction xs) auto

lemma begin_inv:
  assumes "warm_inv y" and "t \<in> set (ws_fired y)"
  shows "warm_inv (refresh_begin t (y\<lparr>ws_fired := remove1 t (ws_fired y)\<rparr>))"
proof -
  let ?y1 = "y\<lparr>ws_fired := remove1 t (ws_fired y)\<rparr>"
  let ?w = "ws_warmer y"
  have pend: "pending_ok ?y1"
    using assms(1) notin_set_remove1 by (fastforce simp: warm_inv_def pending_ok_def)
  have same: "running ?y1 = running y" by (simp add: running_def)
  show ?thesis
  proof (cases "cw_closed ?w \<or> ti_serial t \<noteq> cw_serial ?w")
    case True
    have less: "length (waiting ?y1) \<le> length (waiting y)"
      by (simp add: waiting_def length_filter_remove1)
    have "warm_inv ?y1"
      using assms(1) pend same less by (auto simp: warm_inv_def timer_ok_def)
    with True show ?thesis by (simp add: refresh_begin_def Let_def)
  next
    case False
    then have cur: "Suc (length (waiting ?y1)) = length (waiting y)"
      using length_remove1_current [OF assms(2)] by (simp add: waiting_def)
    moreover have "live y \<le> 1" using assms(1) by (simp add: warm_inv_def)
    ultimately have "length (ws_armed y) = 0 \<and> length (waiting ?y1) = 0 \<and> length (running y) = 0"
      by linarith
    then have none: "ws_armed y = []" "waiting ?y1 = []" "running y = []" by simp_all
    then have inv1: "warm_inv ?y1" using pend same False by (simp add: warm_inv_def)
    let ?r = "\<lparr>rf_id = ws_next y, rf_serial = ti_serial t, rf_delay = ti_delay t, rf_request = cw_request ?w\<rparr>"
    have "ti_delay t = request_delay (cw_request ?w)"
      using assms False by (auto simp: warm_inv_def pending_ok_def)
    with False none same pend show ?thesis
      using stop_inv [OF inv1]
      by (simp add: refresh_begin_def Let_def warm_inv_def waiting_def running_def pending_ok_def)
  qed
qed

lemma end_inv:
  assumes "warm_inv y" and "r \<in> set (ws_inflight y)"
  shows "warm_inv (refresh_end r (y\<lparr>ws_inflight := remove1 r (ws_inflight y)\<rparr>))"
proof -
  let ?y1 = "y\<lparr>ws_inflight := remove1 r (ws_inflight y)\<rparr>"
  let ?w = "ws_warmer y"
  have pend: "pending_ok ?y1"
    using assms(1) notin_set_remove1 by (fastforce simp: warm_inv_def pending_ok_def)
  have same: "waiting ?y1 = waiting y" by (simp add: waiting_def)
  show ?thesis
  proof (cases "cw_closed ?w \<or> rf_serial r \<noteq> cw_serial ?w")
    case True
    have less: "length (running ?y1) \<le> length (running y)"
      by (simp add: running_def length_filter_remove1)
    have "warm_inv ?y1"
      using assms(1) pend same less by (auto simp: warm_inv_def timer_ok_def)
    with True show ?thesis by (simp add: refresh_end_def Let_def)
  next
    case False
    then have cur: "Suc (length (running ?y1)) = length (running y)"
      using length_remove1_current [OF assms(2)] by (simp add: running_def)
    let ?y2 = "?y1\<lparr>ws_warmer := ?w\<lparr>cw_cancel := None\<rparr>\<rparr>"
    have "live y \<le> 1" using assms(1) by (simp add: warm_inv_def)
    with cur have "length (ws_armed y) = 0 \<and> length (waiting y) = 0 \<and> length (running ?y1) = 0"
      by linarith
    moreover have "waiting ?y2 = waiting y" "running ?y2 = running ?y1"
      by (simp_all add: waiting_def running_def)
    ultimately have "live ?y2 = 0" by simp
    moreover have "pending_ok ?y2" using pend by (simp add: pending_ok_def)
    moreover have "rf_delay r = request_delay (cw_request ?w)"
      using assms False by (auto simp: warm_inv_def pending_ok_def)
    ultimately have "warm_inv (schedule_locked (rf_delay r) ?y2)"
      using False by (intro schedule_inv) simp_all
    with False show ?thesis by (simp add: refresh_end_def Let_def)
  qed
qed

lemma fire_inv:
  assumes "warm_inv y" and "t \<in> set (ws_armed y)"
  shows "warm_inv (y\<lparr>ws_armed := remove1 t (ws_armed y), ws_fired := t # ws_fired y\<rparr>)"
proof -
  have t: "timer_ok y t" using assms by (simp add: warm_inv_def)
  have one: "ws_armed y = [t]"
    using assms by (cases "ws_armed y") (auto simp: warm_inv_def)
  with assms(1) show ?thesis
    by (auto simp: warm_inv_def timer_ok_def waiting_def running_def pending_ok_def)
qed

lemma warm_inv_step: "warm_inv y \<Longrightarrow> warm_step y y' \<Longrightarrow> warm_inv y'"
proof (erule warm_stepE)
  fix now assume "warm_inv y" "y' = y\<lparr>ws_now := now\<rparr>" "ws_now y \<le> now"
  then show "warm_inv y'"
    by (fastforce simp: warm_inv_def timer_ok_def waiting_def running_def pending_ok_def)
qed (auto intro: fire_inv begin_inv end_inv start_inv settle_inv close_inv [THEN conjunct1]
    simp: warm_stop_def halt_inv)

lemma warm_inv_reach: "warm_reach (new_warmer p n rq) y \<Longrightarrow> warm_inv y"
proof (induction rule: warm_reach.induct)
  case initial
  then show ?case by (simp add: warm_inv_def new_warmer_def waiting_def running_def pending_ok_def)
next
  case (later y y')
  then show ?case by (blast intro: warm_inv_step)
qed

lemma schedule_requests: "ws_requests (schedule_locked d y) = ws_requests y"
  by (simp add: schedule_locked_def Let_def)

lemma set_warmer_requests [simp]: "ws_requests (set_warmer f y) = ws_requests y"
  by (simp add: set_warmer_def)

lemma closed_requests: "cw_closed (ws_warmer y) \<Longrightarrow> warm_step y y' \<Longrightarrow> ws_requests y' = ws_requests y"
  by (erule warm_stepE)
    (simp_all add: refresh_begin_def refresh_end_def warm_start_def warm_settle_def warm_stop_def
      warm_close_def schedule_requests Let_def)


text \<open>Claim C38. A refresh comes before the provider forgets the prefix: for a lifetime of more than ten
  seconds the delay is positive and shorter than it, by ten seconds or a tenth of the lifetime
  as soon as that leaves a millisecond; for a shorter one there is no refresh.\<close>

theorem warming_delay_before_expiry:
  assumes "in_int64 (ttl * 9)"
  shows "if ttl \<le> 10 * second then cache_warming_delay ttl = 0
    else 0 < cache_warming_delay ttl \<and> cache_warming_delay ttl < ttl
      \<and> (ttl \<ge> 10 * second + 1000000 \<longrightarrow>
           cache_warming_delay ttl \<le> ttl - 10 * second \<and> cache_warming_delay ttl \<le> ttl * 9 div 10)"
proof (cases "ttl \<le> 10 * second")
  case True
  then show ?thesis by (simp add: cache_warming_delay_def)
next
  case False
  then have "go_div (wrap64 (ttl * 9)) 10 = ttl * 9 div 10"
    using assms by (simp add: second_def)
  with False show ?thesis
    by (auto simp: cache_warming_delay_def second_def Let_def)
qed

section \<open>Witnesses\<close>

definition demo_priced :: model where
  "demo_priced = demo_model\<lparr>mo_cost := \<lparr>mc_input = 1000000, mc_output = 0, mc_cache_read = 0,
     mc_cache_write = 0, mc_tiers = []\<rparr>, mo_cache_short := 300\<rparr>"

definition demo_warm_request :: cache_warm_request where
  "demo_warm_request =
     \<lparr>wq_model = demo_priced, wq_input = \<lparr>cx_system_prompt = [], cx_messages = [], cx_tools = []\<rparr>,
      wq_options = demo_options\<lparr>so_cache_retention := CacheShort\<rparr>, wq_prompt_tokens = 10\<rparr>"

abbreviation demo_warmer :: warm_system where
  "demo_warmer \<equiv> warm_start demo_warm_request CacheWarmingStreaming (new_warmer True 0 demo_warm_request)"

lemma demo_armed: "map ti_due (ws_armed demo_warmer) = [270 * second]"
  by (simp add: warm_start_def new_warmer_def stop_locked_def schedule_locked_def set_warmer_def
      request_delay_def prompt_cache_ttl_def cache_warming_delay_def worthwhile_def
      cache_warming_economics_def total_cost_def calculate_cost_def usage_of_def zero_usage_def zero_cost_def
      demo_warm_request_def demo_options_def demo_priced_def demo_model_def second_def wrap64_def
      age_limit_def maximum_age_def minimum_savings_def Let_def)


theorem warming_delay_before_expiry_witness:
  "cache_warming_delay (300 * second) \<le> 270 * second"
  using warming_delay_before_expiry [of "300 * second"] by (simp add: second_def in_int64_def)

end
