(* ===== verification/Registry.thy ===== *)
theory Registry
  imports Prelude
begin

text \<open>
  Bounded registries: the state files of \<^verbatim>\<open>src/pkg/storage\<close> keep a map from identifiers to stamped
  entries and drop the oldest entries beyond a limit. This theory has the order they sort by,
  the pruning they share, and the interface \<open>recency_store\<close> with what it promises a client: the
  store is a list of entries, newest first, cut at the limit.
\<close>

section \<open>Newest first\<close>

text \<open>The order of the comparison functions: the larger stamp first, then the smaller identifier.\<close>

datatype rank = Rank (rank_stamp: int) (rank_id: string)

instantiation rank :: linorder
begin

definition less_eq_rank :: "rank \<Rightarrow> rank \<Rightarrow> bool" where
  "r \<le> r' \<longleftrightarrow> rank_stamp r' < rank_stamp r \<or> rank_stamp r = rank_stamp r' \<and> rank_id r \<le> rank_id r'"

definition less_rank :: "rank \<Rightarrow> rank \<Rightarrow> bool" where
  "(r :: rank) < r' \<longleftrightarrow> r \<le> r' \<and> \<not> r' \<le> r"

instance
  by standard (auto simp: less_eq_rank_def less_rank_def intro: rank.expand)

end

lemma rank_le [simp]: "Rank a i \<le> Rank b j \<longleftrightarrow> b < a \<or> a = b \<and> i \<le> j"
  by (simp add: less_eq_rank_def)

section \<open>Pruning\<close>

type_synonym 'r store = "(string \<times> 'r) list"

definition entry_rank :: "('r \<Rightarrow> int) \<Rightarrow> string \<times> 'r \<Rightarrow> rank" where
  "entry_rank stamp x = Rank (stamp (snd x)) (fst x)"

definition newest_first :: "('r \<Rightarrow> int) \<Rightarrow> 'r store \<Rightarrow> 'r store" where
  "newest_first stamp s = sort_key (entry_rank stamp) s"

definition prune :: "('r \<Rightarrow> int) \<Rightarrow> nat \<Rightarrow> 'r store \<Rightarrow> 'r store" where
  "prune stamp limit s =
     (if length s \<le> limit then s
      else fold AList.delete
        (drop limit (sort_key (\<lambda>i. Rank (stamp (the (map_of s i))) i) (map fst s))) s)"

lemma fold_delete: "fold AList.delete ids s = filter (\<lambda>x. fst x \<notin> set ids) s"
  by (induction ids arbitrary: s) (auto simp: AList.delete_eq intro!: filter_cong)

lemma sort_key_cong_set: "(\<And>x. x \<in> set xs \<Longrightarrow> f x = g x) \<Longrightarrow> sort_key f xs = sort_key g xs"
proof (induction xs)
  case (Cons x xs)
  have "insort_key f x ys = insort_key g x ys" if "\<forall>y \<in> set ys. f y = g y" "f x = g x" for ys
    using that by (induction ys) auto
  with Cons show ?case by simp
qed simp

lemma sort_key_map: "sort_key f (map h xs) = map h (sort_key (f \<circ> h) xs)"
proof (induction xs)
  case (Cons x xs)
  have "insort_key f (h x) (map h ys) = map h (insort_key (f \<circ> h) x ys)" for ys
    by (induction ys) simp_all
  with Cons show ?case by (simp add: comp_def)
qed simp

lemma sorted_ids:
  assumes "gomap_wf s"
  shows "sort_key (\<lambda>i. Rank (stamp (the (map_of s i))) i) (map fst s) = map fst (newest_first stamp s)"
proof -
  have "map_of s (fst x) = Some (snd x)" if "x \<in> set s" for x
    using assms that by (simp add: gomap_wf_def)
  then show ?thesis
    unfolding sort_key_map newest_first_def entry_rank_def
    by (intro arg_cong [where f = "map fst"] sort_key_cong_set) simp
qed

lemma newest_first_simps [simp]:
  "set (newest_first stamp s) = set s" "length (newest_first stamp s) = length s"
  "mset (newest_first stamp s) = mset s"
  by (simp_all add: newest_first_def)

lemma newest_first_wf: "gomap_wf s \<Longrightarrow> gomap_wf (newest_first stamp s)"
  unfolding gomap_wf_def by (metis distinct_map distinct_sort newest_first_def newest_first_simps(1))

lemma filter_keys_take:
  "distinct (map fst xs) \<Longrightarrow> filter (\<lambda>x. fst x \<notin> fst ` set (drop n xs)) xs = take n xs"
proof (induction xs arbitrary: n)
  case (Cons x xs)
  show ?case
  proof (cases n)
    case (Suc m)
    have "fst x \<notin> fst ` set (drop m xs)" using Cons.prems by (auto dest: in_set_dropD)
    with Suc Cons show ?thesis by simp
  qed (auto simp: filter_empty_conv)
qed simp

lemma prune_newest:
  assumes "gomap_wf s"
  shows "newest_first stamp (prune stamp limit s) = take limit (newest_first stamp s)"
proof (cases "length s \<le> limit")
  case True
  then show ?thesis by (simp add: prune_def)
next
  case False
  let ?o = "newest_first stamp s"
  have "newest_first stamp (prune stamp limit s)
      = filter (\<lambda>x. fst x \<notin> fst ` set (drop limit ?o)) ?o"
    using False by (simp add: prune_def sorted_ids [OF assms] fold_delete newest_first_def
        filter_sort drop_map)
  also have "\<dots> = take limit ?o"
    using newest_first_wf [OF assms] by (intro filter_keys_take) (simp add: gomap_wf_def)
  finally show ?thesis .
qed

lemma prune_wf [simp]: "gomap_wf s \<Longrightarrow> gomap_wf (prune stamp limit s)"
  by (simp add: prune_def fold_delete)

lemma prune_bound: "gomap_wf s \<Longrightarrow> length (prune stamp limit s) \<le> limit"
  using arg_cong [OF prune_newest, of s length stamp limit] by simp

lemma mset_update:
  "gomap_wf s \<Longrightarrow> mset (AList.update i r s) = mset ((i, r) # filter (\<lambda>x. fst x \<noteq> i) s)"
proof (induction s)
  case (Cons x s)
  show ?case
  proof (cases "fst x = i")
    case True
    with Cons.prems have "filter (\<lambda>y. fst y \<noteq> i) s = s"
      by (auto simp: gomap_wf_def filter_id_conv image_iff)
    with True show ?thesis by (cases x) simp
  next
    case False
    with Cons show ?thesis by (cases x) (simp add: gomap_wf_def)
  qed
qed simp

lemma update_newest:
  assumes "gomap_wf s" and "\<forall>x \<in> set s. stamp (snd x) < stamp r"
  shows "newest_first stamp (AList.update i r s) = (i, r) # filter (\<lambda>x. fst x \<noteq> i) (newest_first stamp s)"
proof -
  let ?f = "entry_rank stamp" and ?rest = "filter (\<lambda>x. fst x \<noteq> i) (newest_first stamp s)"
  have "mset (AList.update i r s) = mset ((i, r) # ?rest)"
    by (simp add: mset_update [OF assms(1)] newest_first_def filter_sort)
  moreover have "inj_on ?f (set (AList.update i r s))"
  proof -
    have "gomap_wf (AList.update i r s)" using assms(1) by simp
    then show ?thesis
      by (auto simp: gomap_wf_def distinct_map inj_on_def entry_rank_def)
  qed
  moreover have "sorted (map ?f ((i, r) # ?rest))"
  proof -
    have "sorted (map ?f ?rest)" unfolding newest_first_def filter_sort by simp
    moreover have "?f (i, r) \<le> ?f x" if "x \<in> set ?rest" for x
      using that assms(2) by (auto simp: entry_rank_def)
    ultimately show ?thesis by simp
  qed
  ultimately show ?thesis unfolding newest_first_def by (rule sort_key_inj_key_eq)
qed

lemma delete_newest: "newest_first stamp (AList.delete i s) = filter (\<lambda>x. fst x \<noteq> i) (newest_first stamp s)"
  unfolding newest_first_def filter_sort AList.delete_eq by (rule arg_cong [where f = "sort_key _"]) (auto intro!: filter_cong)

section \<open>The interface\<close>

text \<open>
  A store keeps contents \<open>'d\<close> in entries \<open>'r\<close> with a stamp. Its writes put a fresh entry, with a
  stamp above all others while stamps are left, into a pruned map; its deletions remove one.
\<close>

locale recency_store =
  fixes stamp :: "'r \<Rightarrow> int" and content :: "'r \<Rightarrow> 'd" and limit :: nat
    and put :: "string \<Rightarrow> 'd \<Rightarrow> int \<Rightarrow> 'r store \<Rightarrow> 'r store" and delete :: "string \<Rightarrow> 'r store \<Rightarrow> 'r store"
    and kept :: "'d \<Rightarrow> 'd option"
  assumes put_entry: "kept d = Some e \<Longrightarrow> \<forall>x \<in> set s. stamp (snd x) < 2 ^ 63 - 1 \<Longrightarrow>
      \<exists>r. content r = e \<and> (\<forall>x \<in> set s. stamp (snd x) < stamp r)
        \<and> put i d now s = prune stamp limit (AList.update i r s)"
    and put_nothing: "kept d = None \<Longrightarrow> put i d now s = delete i s \<or>
      put i d now s = prune stamp limit (AList.delete i s)"
    and delete_entry: "delete i s = (if map_of s i = None then s else AList.delete i s)"
begin

text \<open>What a client sees: the contents by identifier, newest first.\<close>

definition view :: "'r store \<Rightarrow> (string \<times> 'd) list" where
  "view s = map (\<lambda>x. (fst x, content (snd x))) (newest_first stamp s)"

lemma view_filter:
  "map (\<lambda>x. (fst x, content (snd x))) (filter (\<lambda>x. fst x \<noteq> i) xs)
   = filter (\<lambda>x. fst x \<noteq> i) (map (\<lambda>x. (fst x, content (snd x))) xs)"
  by (induction xs) simp_all

lemma view_put:
  assumes "gomap_wf s" and "kept d = Some e" and "\<forall>x \<in> set s. stamp (snd x) < 2 ^ 63 - 1"
  shows "view (put i d now s) = take limit ((i, e) # filter (\<lambda>x. fst x \<noteq> i) (view s))
    \<and> gomap_wf (put i d now s)"
proof -
  obtain r where r: "content r = e" "\<forall>x \<in> set s. stamp (snd x) < stamp r"
    and w: "put i d now s = prune stamp limit (AList.update i r s)"
    using put_entry [OF assms(2,3)] by blast
  have "newest_first stamp (put i d now s)
      = take limit ((i, r) # filter (\<lambda>x. fst x \<noteq> i) (newest_first stamp s))"
    by (simp add: w prune_newest assms(1) update_newest [OF assms(1) r(2)])
  with r(1) w assms(1) show ?thesis by (simp add: view_def take_map [symmetric] view_filter)
qed

lemma delete_absent: "map_of s i = None \<Longrightarrow> AList.delete i s = s"
  by (simp add: map_of_eq_None_iff delete_idem)

lemma view_delete:
  "view (delete i s) = filter (\<lambda>x. fst x \<noteq> i) (view s) \<and> (gomap_wf s \<longrightarrow> gomap_wf (delete i s))"
proof -
  have "delete i s = AList.delete i s" by (simp add: delete_entry delete_absent)
  then show ?thesis by (simp add: view_def delete_newest view_filter)
qed

lemma view_put_nothing:
  assumes "gomap_wf s" and "kept d = None" and "length s \<le> limit"
  shows "view (put i d now s) = filter (\<lambda>x. fst x \<noteq> i) (view s) \<and> gomap_wf (put i d now s)"
proof -
  have "delete i s = AList.delete i s" by (simp add: delete_entry delete_absent)
  moreover have "length (AList.delete i s) \<le> limit"
    using assms(3) length_delete_le [of i s] by linarith
  ultimately have "put i d now s = delete i s"
    using put_nothing [OF assms(2), of i now s] by (auto simp: prune_def)
  with view_delete [of i s] assms(1) show ?thesis by simp
qed

lemma view_read: "gomap_wf s \<Longrightarrow> map_of (view s) i = map_option content (map_of s i)"
proof -
  assume wf: "gomap_wf s"
  have "map_of (newest_first stamp s) = map_of s"
    using wf newest_first_wf [OF wf] by (intro map_of_inject_set [THEN iffD2]) (simp_all add: gomap_wf_def)
  moreover have "map_of (map (\<lambda>x. (fst x, content (snd x))) xs) i = map_option content (map_of xs i)" for xs
    by (induction xs) auto
  ultimately show ?thesis by (simp add: view_def)
qed

lemma view_length [simp]: "length (view s) = length s"
  by (simp add: view_def)

end

end
