(* ===== verification/Tools_Path.thy ===== *)
theory Tools_Path
  imports Ai_Types
begin

text \<open>
  How the coding tools resolve a path, \<^verbatim>\<open>src/internal/tools/toolkit.go\<close>. What the code uses of
  package \<^verbatim>\<open>path/filepath\<close> is modelled on Unix paths: \<^verbatim>\<open>Clean\<close>, \<^verbatim>\<open>Join\<close> and \<^verbatim>\<open>Rel\<close> of absolute
  paths, \<^verbatim>\<open>Dir\<close> and \<^verbatim>\<open>Base\<close>. The file system is a parameter: \<open>eval_symlinks\<close> and \<open>lstat\<close>.
\<close>

abbreviation slash :: char where "slash \<equiv> CHR ''/''"

section \<open>Cleaned absolute paths\<close>

text \<open>A cleaned absolute path is \<open>path_of\<close> of its components.\<close>

definition good_comp :: "string \<Rightarrow> bool" where
  "good_comp c \<longleftrightarrow> c \<noteq> [] \<and> c \<noteq> ''.'' \<and> c \<noteq> ''..'' \<and> slash \<notin> set c"

definition path_of :: "string list \<Rightarrow> string" where
  "path_of cs = slash # join [slash] cs"

text \<open>The component loop of \<^verbatim>\<open>Clean\<close> on a rooted path; the stack is reversed.\<close>

fun clean_loop :: "string list \<Rightarrow> string list \<Rightarrow> string list" where
  "clean_loop stack [] = rev stack"
| "clean_loop stack (c # cs) =
     (if c = [] \<or> c = ''.'' then clean_loop stack cs
      else if c = ''..'' then clean_loop (tl stack) cs
      else clean_loop (c # stack) cs)"

definition comps :: "string \<Rightarrow> string list" where
  "comps path = clean_loop [] (split_at slash path)"

definition clean :: "string \<Rightarrow> string" where
  "clean path = path_of (comps path)"

definition join_path :: "string \<Rightarrow> string \<Rightarrow> string" where
  "join_path a b = clean (a @ [slash] @ b)"

definition is_abs :: "string \<Rightarrow> bool" where
  "is_abs path \<longleftrightarrow> prefix [slash] path"

definition dir_of :: "string \<Rightarrow> string" where
  "dir_of path = path_of (butlast (comps path))"

fun strip_common :: "string list \<Rightarrow> string list \<Rightarrow> string list \<times> string list" where
  "strip_common (a # as) (b # bs) = (if a = b then strip_common as bs else (a # as, b # bs))"
| "strip_common as bs = (as, bs)"

definition rel :: "string \<Rightarrow> string \<Rightarrow> string" where
  "rel base target =
     (case strip_common (comps base) (comps target) of
        ([], []) \<Rightarrow> ''.''
      | (ups, rest) \<Rightarrow> join [slash] (map (\<lambda>_. ''..'') ups @ rest))"

section \<open>The toolkit\<close>

definition within_root :: "string \<Rightarrow> string \<Rightarrow> bool" where
  "within_root base_dir path \<longleftrightarrow>
     (let r = rel base_dir path in r \<noteq> ''..'' \<and> \<not> prefix ''../'' r)"

definition escapes :: "string \<Rightarrow> go_error" where
  "escapes name = ErrText (''path escapes workspace: '' @ name)"

definition lexical_path :: "string \<Rightarrow> string \<Rightarrow> go_error + string" where
  "lexical_path base_dir name =
     (if trim_space name = [] then Inl (ErrText ''path must not be empty'')
      else
        let candidate = clean (if is_abs name then name else join_path base_dir name)
        in if \<not> within_root base_dir candidate then Inl (escapes name) else Inr candidate)"

definition resolve_existing ::
  "(string \<Rightarrow> go_error + string) \<Rightarrow> string \<Rightarrow> string \<Rightarrow> go_error + string" where
  "resolve_existing eval_symlinks base_dir name =
     (case lexical_path base_dir name of Inl e \<Rightarrow> Inl e
      | Inr candidate \<Rightarrow>
      case eval_symlinks candidate of Inl e \<Rightarrow> Inl e
      | Inr resolved \<Rightarrow> if \<not> within_root base_dir resolved then Inl (escapes name) else Inr resolved)"

datatype stat_outcome = Present | Absent | StatFailed go_error

text \<open>The loop to the nearest existing ancestor; one unit of fuel a level.\<close>

fun find_ancestor ::
  "nat \<Rightarrow> (string \<Rightarrow> stat_outcome) \<Rightarrow> string \<Rightarrow> string \<Rightarrow> (go_error + string) option" where
  "find_ancestor 0 lstat name ancestor = None"
| "find_ancestor (Suc n) lstat name ancestor =
     (case lstat ancestor of
        Present \<Rightarrow> Some (Inr ancestor)
      | StatFailed e \<Rightarrow> Some (Inl e)
      | Absent \<Rightarrow>
          (if dir_of ancestor = ancestor
           then Some (Inl (ErrText (''no existing ancestor for path: '' @ name)))
           else find_ancestor n lstat name (dir_of ancestor)))"

definition resolve_writable ::
  "(string \<Rightarrow> go_error + string) \<Rightarrow> (string \<Rightarrow> stat_outcome) \<Rightarrow> string \<Rightarrow> string
     \<Rightarrow> (go_error + string) option" where
  "resolve_writable eval_symlinks lstat base_dir name =
     (case lexical_path base_dir name of Inl e \<Rightarrow> Some (Inl e)
      | Inr candidate \<Rightarrow>
      case find_ancestor (Suc (length (comps candidate))) lstat name candidate of
        None \<Rightarrow> None
      | Some (Inl e) \<Rightarrow> Some (Inl e)
      | Some (Inr ancestor) \<Rightarrow>
      case eval_symlinks ancestor of Inl e \<Rightarrow> Some (Inl e)
      | Inr resolved_ancestor \<Rightarrow>
      if \<not> within_root base_dir resolved_ancestor then Some (Inl (escapes name))
      else
        let resolved = join_path resolved_ancestor (rel ancestor candidate)
        in if \<not> within_root base_dir resolved then Some (Inl (escapes name)) else Some (Inr (clean resolved)))"

section \<open>Scratch names\<close>

definition base_of :: "string \<Rightarrow> string" where
  "base_of path =
     (if path = [] then ''.''
      else
        let stripped = rev (dropWhile (\<lambda>c. c = slash) (rev path))
        in if stripped = [] then [slash] else rev (takeWhile (\<lambda>c. c \<noteq> slash) (rev stripped)))"

definition is_alpha_numeric :: "char \<Rightarrow> bool" where
  "is_alpha_numeric c \<longleftrightarrow>
     (let n = of_char c :: nat in 97 \<le> n \<and> n \<le> 122 \<or> 65 \<le> n \<and> n \<le> 90 \<or> 48 \<le> n \<and> n \<le> 57)"

definition dot_ext :: "string \<Rightarrow> string" where
  "dot_ext base = (if CHR ''.'' \<in> set base
     then CHR ''.'' # rev (takeWhile (\<lambda>c. c \<noteq> CHR ''.'') (rev base)) else [])"

text \<open>\<open>lower\<close> is \<^verbatim>\<open>strings.ToLower\<close>.\<close>

definition scratch_name :: "(string \<Rightarrow> string) \<Rightarrow> string \<Rightarrow> bool" where
  "scratch_name lower name =
     (let base = lower (trim_space (base_of name)) in
      if base = [] \<or> base = ''.'' \<or> base = ''..'' then False
      else if dot_ext base = ''.tmp'' \<or> dot_ext base = ''.temp'' then True
      else list_ex (\<lambda>p. prefix p base
             \<and> (let rest = drop (length p) base in rest = [] \<or> \<not> is_alpha_numeric (hd rest)))
           [''tmp'', ''temp'', ''scratch'', ''probe'', ''throwaway''])"

section \<open>Paths and components\<close>

lemma split_at_no_sep: "c \<in> set (split_at sep s) \<Longrightarrow> sep \<notin> set c"
  by (induction s arbitrary: c) (auto split: if_splits list.splits)

lemma clean_loop_good:
  "list_all good_comp stack \<Longrightarrow> \<forall>c \<in> set cs. slash \<notin> set c \<Longrightarrow> list_all good_comp (clean_loop stack cs)"
proof (induction stack cs rule: clean_loop.induct)
  case (1 stack)
  then show ?case by (simp add: list_all_iff)
next
  case (2 stack c cs)
  have "list_all good_comp (tl stack)" using 2(4) by (cases stack) auto
  consider "c = [] \<or> c = ''.''" | "c = ''..''" | "good_comp c"
    using 2(5) by (auto simp: good_comp_def)
  then show ?case
  proof cases
    case 1
    with 2 show ?thesis by auto
  next
    case 2
    with "2.IH"(2) "2.prems" \<open>list_all good_comp (tl stack)\<close> show ?thesis by simp
  next
    case 3
    with 2 show ?thesis by (auto simp: good_comp_def [of c])
  qed
qed

lemma comps_good: "list_all good_comp (comps path)"
  unfolding comps_def by (rule clean_loop_good) (auto dest: split_at_no_sep)

lemma split_at_append: "sep \<notin> set u \<Longrightarrow> split_at sep (u @ sep # v) = u # split_at sep v"
  by (induction u) auto

lemma split_at_id: "sep \<notin> set u \<Longrightarrow> split_at sep u = [u]"
  by (induction u) auto

lemma split_join: "cs \<noteq> [] \<Longrightarrow> \<forall>c \<in> set cs. sep \<notin> set c \<Longrightarrow> split_at sep (join [sep] cs) = cs"
proof (induction cs)
  case Nil
  then show ?case by simp
next
  case (Cons c cs)
  then show ?case by (cases cs) (simp_all add: split_at_id split_at_append join_Cons)
qed

lemma clean_loop_id: "list_all good_comp cs \<Longrightarrow> clean_loop stack cs = rev stack @ cs"
  by (induction stack cs rule: clean_loop.induct) (auto simp: good_comp_def)

lemma comps_path_of [simp]: "list_all good_comp cs \<Longrightarrow> comps (path_of cs) = cs"
proof (cases "cs = []")
  case True
  then show ?thesis by (simp add: comps_def path_of_def)
next
  case False
  assume good: "list_all good_comp cs"
  then have "split_at slash (join [slash] cs) = cs"
    using False by (intro split_join) (auto simp: list_all_iff good_comp_def)
  with good show ?thesis by (simp add: comps_def path_of_def clean_loop_id)
qed

lemma comps_clean [simp]: "comps (clean path) = comps path"
  by (simp add: clean_def comps_good)

lemma strip_common_prefix: "fst (strip_common as bs) = [] \<longleftrightarrow> prefix as bs"
  by (induction as bs rule: strip_common.induct) auto

lemma prefix_join_dotdot:
  "good_comp c \<Longrightarrow> join [slash] (c # cs) \<noteq> ''..'' \<and> \<not> prefix ''../'' (join [slash] (c # cs))"
proof -
  assume good: "good_comp c"
  have "prefix ''../'' s \<Longrightarrow> split_at slash s = [] \<or> hd (split_at slash s) = ''..''" for s
    by (auto simp: prefix_def split: list.splits)
  moreover have "hd (split_at slash (join [slash] (c # cs))) = c"
    using good split_at_append [of slash c] split_at_id [of slash c]
    by (cases cs) (auto simp: good_comp_def)
  ultimately show ?thesis using good by (auto simp: good_comp_def)
qed

lemma strip_common_set: "set (snd (strip_common as bs)) \<subseteq> set bs"
  by (induction as bs rule: strip_common.induct) auto

text \<open>The test of the toolkit is exactly containment of components.\<close>

lemma within_root_iff: "within_root base_dir path \<longleftrightarrow> prefix (comps base_dir) (comps path)"
proof -
  obtain ups rest where s: "strip_common (comps base_dir) (comps path) = (ups, rest)" by fastforce
  have good: "list_all good_comp rest"
    using strip_common_set [of "comps base_dir" "comps path"] comps_good [of path] s
    by (auto simp: list_all_iff)
  show ?thesis
  proof (cases ups)
    case Nil
    then have "prefix (comps base_dir) (comps path)"
      using strip_common_prefix [of "comps base_dir" "comps path"] s by simp
    moreover have "within_root base_dir path"
    proof (cases rest)
      case Nil
      with s \<open>ups = []\<close> show ?thesis by (simp add: within_root_def rel_def prefix_def)
    next
      case (Cons c cs)
      with good have "good_comp c" by simp
      from prefix_join_dotdot [OF this, of cs] s Cons \<open>ups = []\<close> show ?thesis
        by (simp add: within_root_def rel_def)
    qed
    ultimately show ?thesis by simp
  next
    case (Cons u us)
    then have "\<not> prefix (comps base_dir) (comps path)"
      using strip_common_prefix [of "comps base_dir" "comps path"] s by simp
    moreover have "rel base_dir path = join [slash] (''..'' # map (\<lambda>_. ''..'') us @ rest)"
      using s Cons by (simp add: rel_def)
    then have "rel base_dir path = ''..'' \<or> prefix ''../'' (rel base_dir path)"
      by (cases "map (\<lambda>_. ''..'') us @ rest") auto
    ultimately show ?thesis by (auto simp: within_root_def Let_def)
  qed
qed

section \<open>No tool leaves the workspace\<close>

text \<open>\<open>confined base_dir p\<close>: \<open>p\<close> is a cleaned absolute path that is the root or lies below it.\<close>

definition confined :: "string \<Rightarrow> string \<Rightarrow> bool" where
  "confined base_dir p \<longleftrightarrow>
     (\<exists>below. p = path_of (comps base_dir @ below) \<and> list_all good_comp (comps base_dir @ below))"

lemma confinedI: "prefix (comps base_dir) (comps p) \<Longrightarrow> clean p = p \<Longrightarrow> confined base_dir p"
  using comps_good [of p] unfolding confined_def clean_def prefix_def by metis

lemma lexical_path_confined: "lexical_path base_dir name = Inr p \<Longrightarrow> confined base_dir p"
  by (rule confinedI)
    (auto simp: lexical_path_def Let_def within_root_iff clean_def comps_good split: if_splits)



end
