(* ===== verification/Storage.thy ===== *)
theory Storage
  imports Registry Unicode Tools_Path
begin

text \<open>
  The files of \<^verbatim>\<open>src/pkg/storage\<close>: the session registry, the unsent drafts, the client state of a
  session and its transcript. A state file is the map a read decodes from it; a write hands the
  changed map to \<open>write_object\<close>, which may fail at each of its steps and then leaves the file as it
  was. The drafts and the client states are interpreted as recency stores.
\<close>

section \<open>Data\<close>

definition max_sessions :: nat where "max_sessions = 500"
definition max_drafts :: nat where "max_drafts = 100"
definition max_session_states :: nat where "max_session_states = 100"
definition max_bash_entries :: nat where "max_bash_entries = 200"
definition max_bash_output :: nat where "max_bash_output = 100000"
definition max_queued_prompts :: nat where "max_queued_prompts = 50"
definition max_attachment_url :: nat where "max_attachment_url = 1500000"
definition max_frozen_file_content :: nat where "max_frozen_file_content = 1500000"

record image_chip =
  ic_marker :: string
  ic_path :: string

record file_chip =
  fc_marker :: string
  fc_path :: string
  fc_id :: string
  fc_name :: string

record draft =
  df_text :: string
  df_attachments :: "image_chip list"
  df_files :: "file_chip list"

record draft_record =
  dr_draft :: draft
  dr_updated :: int

record bash_entry =
  be_command :: string
  be_output :: string
  be_exclude :: bool
  be_status :: string
  be_exit_code :: "int option"
  be_at :: int

record attachment =
  at_mime :: string
  at_filename :: string
  at_url :: string

record frozen_file =
  ff_id :: string
  ff_marker :: string
  ff_path :: string
  ff_name :: string
  ff_kind :: string
  ff_content :: string
  ff_attachment :: "attachment option"

text \<open>\<open>None\<close> for the attachments is a nil slice, which is not written to the file.\<close>

record queued_prompt =
  qp_text :: string
  qp_attachments :: "attachment list option"
  qp_chips :: "image_chip list"
  qp_files :: "file_chip list"
  qp_frozen :: "frozen_file list"
  qp_unfrozen :: "file_chip list"
  qp_reattach :: "file_chip list"

record session_state =
  st_cwd :: string
  st_bash :: "bash_entry list"
  st_queue :: "queued_prompt list"
  st_queue_hold :: bool

record state_record =
  sr_state :: session_state
  sr_updated :: int

record session =
  ss_id :: string
  ss_cwd :: string
  ss_title :: string
  ss_created :: int
  ss_updated :: int

record session_update =
  su_id :: string
  su_cwd :: string
  su_title :: "string option"
  su_created :: "int option"
  su_updated :: "int option"

section \<open>Writing a state file\<close>

text \<open>What happens at each step of \<^verbatim>\<open>writeObject\<close>; nothing, or an error of the file system.\<close>

record write_faults =
  wf_encode :: "go_error option"
  wf_mkdir :: "go_error option"
  wf_create :: "go_error option"
  wf_write :: "go_error option"
  wf_close :: "go_error option"
  wf_chmod :: "go_error option"
  wf_rename :: "go_error option"

definition write_object :: "write_faults \<Rightarrow> string \<Rightarrow> string \<Rightarrow> 'r store \<Rightarrow> 'r store \<Rightarrow> go_error option \<times> 'r store" where
  "write_object w dir path old new =
     (case wf_encode w of Some e \<Rightarrow> (Some (Wrap (''storage: encode '' @ base_of path) e), old) | None \<Rightarrow>
      case wf_mkdir w of Some e \<Rightarrow> (Some (Wrap (''storage: create '' @ dir) e), old) | None \<Rightarrow>
      case wf_create w of Some e \<Rightarrow> (Some (Wrap (''storage: create a temporary file in '' @ dir) e), old) | None \<Rightarrow>
      case wf_write w of Some e \<Rightarrow> (Some (Wrap (''storage: write '' @ base_of path) e), old) | None \<Rightarrow>
      case wf_close w of Some e \<Rightarrow> (Some (Wrap (''storage: close '' @ base_of path) e), old) | None \<Rightarrow>
      case wf_chmod w of Some e \<Rightarrow> (Some (Wrap (''storage: protect '' @ base_of path) e), old) | None \<Rightarrow>
      case wf_rename w of Some e \<Rightarrow> (Some (Wrap (''storage: replace '' @ base_of path) e), old) | None \<Rightarrow>
      (None, new))"

definition sessions_path :: "string \<Rightarrow> string" where
  "sessions_path dir = join_path dir ''sessions.json''"

definition drafts_path :: "string \<Rightarrow> string" where
  "drafts_path dir = join_path dir ''drafts.json''"

definition session_state_path :: "string \<Rightarrow> string" where
  "session_state_path dir = join_path dir ''session-state.json''"

section \<open>Stamps\<close>

definition newest_stamp :: "('r \<Rightarrow> int) \<Rightarrow> 'r store \<Rightarrow> int" where
  "newest_stamp stamp s = fold (\<lambda>x newest. if newest < stamp (snd x) then stamp (snd x) else newest) s 0"

definition next_stamp :: "('r \<Rightarrow> int) \<Rightarrow> int \<Rightarrow> 'r store \<Rightarrow> int" where
  "next_stamp stamp now s = max now (wrap64 (newest_stamp stamp s + 1))"

section \<open>Drafts\<close>

definition empty_draft :: draft where
  "empty_draft = \<lparr>df_text = [], df_attachments = [], df_files = []\<rparr>"

definition draft_is_empty :: "draft \<Rightarrow> bool" where
  "draft_is_empty d \<longleftrightarrow> df_text d = [] \<and> df_attachments d = [] \<and> df_files d = []"

definition read_draft :: "string \<Rightarrow> draft_record store \<Rightarrow> draft \<times> bool" where
  "read_draft i s =
     (if i = [] then (empty_draft, False)
      else case map_of s i of Some r \<Rightarrow> (dr_draft r, True) | None \<Rightarrow> (empty_draft, False))"

definition prune_drafts :: "draft_record store \<Rightarrow> draft_record store" where
  "prune_drafts = prune dr_updated max_drafts"

text \<open>The map a write leaves in the file when it succeeds.\<close>

definition draft_put :: "string \<Rightarrow> draft \<Rightarrow> int \<Rightarrow> draft_record store \<Rightarrow> draft_record store" where
  "draft_put i d now s =
     (if draft_is_empty d
      then (if map_of s i = None then s else prune_drafts (AList.delete i s))
      else prune_drafts (AList.update i \<lparr>dr_draft = d, dr_updated = next_stamp dr_updated now s\<rparr> s))"

definition write_draft ::
  "write_faults \<Rightarrow> string \<Rightarrow> string \<Rightarrow> draft \<Rightarrow> int \<Rightarrow> draft_record store \<Rightarrow> go_error option \<times> draft_record store" where
  "write_draft w dir i d now s =
     (if i = [] \<or> draft_is_empty d \<and> map_of s i = None then (None, s)
      else write_object w dir (drafts_path dir) s (draft_put i d now s))"

definition draft_delete :: "string \<Rightarrow> draft_record store \<Rightarrow> draft_record store" where
  "draft_delete i s = (if map_of s i = None then s else AList.delete i s)"

definition delete_draft ::
  "write_faults \<Rightarrow> string \<Rightarrow> string \<Rightarrow> draft_record store \<Rightarrow> go_error option \<times> draft_record store" where
  "delete_draft w dir i s =
     (if i = [] \<or> map_of s i = None then (None, s)
      else write_object w dir (drafts_path dir) s (draft_delete i s))"

section \<open>Client state\<close>

definition file_key :: "string \<Rightarrow> string \<Rightarrow> string" where
  "file_key i path = (if i \<noteq> [] then i else path)"

definition chip_key :: "file_chip \<Rightarrow> string" where
  "chip_key f = file_key (fc_id f) (fc_path f)"

definition keeps_frozen :: "frozen_file \<Rightarrow> bool" where
  "keeps_frozen f =
     (if ff_kind f = ''image''
      then (case ff_attachment f of Some a \<Rightarrow> utf16_length (at_url a) | None \<Rightarrow> 0) \<le> max_attachment_url
      else utf16_length (ff_content f) \<le> max_frozen_file_content)"

text \<open>The closure \<^verbatim>\<open>markUnfrozen\<close> on the keys seen and the files listed.\<close>

definition mark_unfrozen :: "file_chip \<Rightarrow> string list \<times> file_chip list \<Rightarrow> string list \<times> file_chip list" where
  "mark_unfrozen f p =
     (case p of (seen, unfrozen) \<Rightarrow>
        if chip_key f \<in> set seen then (seen, unfrozen) else (chip_key f # seen, unfrozen @ [f]))"

definition normalize_queued_prompt :: "queued_prompt \<Rightarrow> queued_prompt" where
  "normalize_queued_prompt p =
     (let frozen = filter keeps_frozen (qp_frozen p);
          keys = map (\<lambda>f. file_key (ff_id f) (ff_path f)) frozen;
          p1 = fold mark_unfrozen (qp_reattach p) ([], []);
          p2 = fold mark_unfrozen (filter (\<lambda>f. chip_key f \<notin> set keys) (qp_files p)) p1
      in \<lparr>qp_text = qp_text p,
          qp_attachments = map_option (filter (\<lambda>a. utf16_length (at_url a) \<le> max_attachment_url)) (qp_attachments p),
          qp_chips = qp_chips p, qp_files = qp_files p, qp_frozen = frozen,
          qp_unfrozen = snd p2, qp_reattach = []\<rparr>)"

definition normalize_session_state :: "session_state \<Rightarrow> session_state" where
  "normalize_session_state s =
     \<lparr>st_cwd = st_cwd s,
      st_bash = map (\<lambda>b. b\<lparr>be_output := utf16_suffix (be_output b) max_bash_output\<rparr>)
        (last_n max_bash_entries (st_bash s)),
      st_queue = map normalize_queued_prompt (last_n max_queued_prompts (st_queue s)),
      st_queue_hold = st_queue_hold s\<rparr>"

definition state_is_empty :: "session_state \<Rightarrow> bool" where
  "state_is_empty s \<longleftrightarrow> st_cwd s = [] \<and> st_bash s = [] \<and> st_queue s = [] \<and> \<not> st_queue_hold s"

definition empty_state :: session_state where
  "empty_state = \<lparr>st_cwd = [], st_bash = [], st_queue = [], st_queue_hold = False\<rparr>"

definition read_session_state :: "string \<Rightarrow> state_record store \<Rightarrow> session_state \<times> bool" where
  "read_session_state i s =
     (if i = [] then (empty_state, False)
      else case map_of s i of Some r \<Rightarrow> (sr_state r, True) | None \<Rightarrow> (empty_state, False))"

definition prune_session_states :: "state_record store \<Rightarrow> state_record store" where
  "prune_session_states = prune sr_updated max_session_states"

definition state_put :: "string \<Rightarrow> session_state \<Rightarrow> int \<Rightarrow> state_record store \<Rightarrow> state_record store" where
  "state_put i d now s =
     (let normalized = normalize_session_state d in
      if state_is_empty normalized
      then (if map_of s i = None then s else prune_session_states (AList.delete i s))
      else prune_session_states
        (AList.update i \<lparr>sr_state = normalized, sr_updated = next_stamp sr_updated now s\<rparr> s))"

definition write_session_state ::
  "write_faults \<Rightarrow> string \<Rightarrow> string \<Rightarrow> session_state \<Rightarrow> int \<Rightarrow> state_record store
     \<Rightarrow> go_error option \<times> state_record store" where
  "write_session_state w dir i d now s =
     (if i = [] \<or> state_is_empty (normalize_session_state d) \<and> map_of s i = None then (None, s)
      else write_object w dir (session_state_path dir) s (state_put i d now s))"

definition state_delete :: "string \<Rightarrow> state_record store \<Rightarrow> state_record store" where
  "state_delete i s = (if map_of s i = None then s else AList.delete i s)"

definition delete_session_state ::
  "write_faults \<Rightarrow> string \<Rightarrow> string \<Rightarrow> state_record store \<Rightarrow> go_error option \<times> state_record store" where
  "delete_session_state w dir i s =
     (if i = [] \<or> map_of s i = None then (None, s)
      else write_object w dir (session_state_path dir) s (state_delete i s))"

section \<open>The session registry\<close>

definition session_rank :: "session \<Rightarrow> rank" where
  "session_rank e = Rank (ss_updated e) (ss_id e)"

definition sorted_sessions :: "session store \<Rightarrow> session list" where
  "sorted_sessions s = sort_key session_rank (map snd s)"

definition is_hex :: "char \<Rightarrow> bool" where
  "is_hex c \<longleftrightarrow> (let n = of_char c :: nat in
     48 \<le> n \<and> n \<le> 57 \<or> 97 \<le> n \<and> n \<le> 102 \<or> 65 \<le> n \<and> n \<le> 70)"

definition is_native_session_id :: "string \<Rightarrow> bool" where
  "is_native_session_id i =
     (let v = trim_prefix ''ses_'' i
      in v \<noteq> i \<and> length v = 24 \<and> list_all is_hex v)"

definition transcripts_dir :: "string \<Rightarrow> string" where
  "transcripts_dir dir = join_path dir ''transcripts''"

definition transcript_path :: "string \<Rightarrow> string \<Rightarrow> go_error + string" where
  "transcript_path dir name =
     (let i = trim_space name in
      if i = [] \<or> i = ''.'' \<or> i = ''..'' \<or> base_of i \<noteq> i \<or> CHR ''/'' \<in> set i \<or> CHR 0x5C \<in> set i
      then Inl (ErrText ''sessions: invalid session id'')
      else Inr (join_path (transcripts_dir dir) (i @ ''.json'')))"

text \<open>\<open>is_file\<close> is \<^verbatim>\<open>os.Stat\<close> of a path that succeeds on something other than a directory.\<close>

definition read_sessions :: "session store \<Rightarrow> session list" where
  "read_sessions s = sorted_sessions s"

definition read_resumable_sessions ::
  "(string \<Rightarrow> bool) \<Rightarrow> string \<Rightarrow> string \<Rightarrow> session store \<Rightarrow> draft_record store \<Rightarrow> state_record store \<Rightarrow> session list" where
  "read_resumable_sessions is_file dir current s drafts states =
     sorted_sessions (filter (\<lambda>(i, entry).
       i = current
       \<or> (case transcript_path dir i of Inr path \<Rightarrow> is_file path | Inl _ \<Rightarrow> False)
       \<or> is_native_session_id i
         \<and> (map_of drafts i \<noteq> None \<or> map_of states i \<noteq> None \<or> trim_space (ss_title entry) \<noteq> [])) s)"

definition zero_session :: session where
  "zero_session = \<lparr>ss_id = [], ss_cwd = [], ss_title = [], ss_created = 0, ss_updated = 0\<rparr>"

definition updated_session :: "session_update \<Rightarrow> int \<Rightarrow> session \<Rightarrow> session" where
  "updated_session u now previous =
     \<lparr>ss_id = su_id u,
      ss_cwd = (if su_cwd u = [] then ss_cwd previous else su_cwd u),
      ss_title = (case su_title u of
          Some t \<Rightarrow> if trim_space t \<noteq> ''New session'' then trim_space t else ss_title previous
        | None \<Rightarrow> ss_title previous),
      ss_created = (case su_created u of Some c \<Rightarrow> c
        | None \<Rightarrow> if ss_id previous \<noteq> [] then ss_created previous else now),
      ss_updated = max (max (case su_updated u of Some t \<Rightarrow> t | None \<Rightarrow> now) (ss_updated previous)) now\<rparr>"

definition session_put :: "session_update \<Rightarrow> int \<Rightarrow> session store \<Rightarrow> session store" where
  "session_put u now s =
     (let previous = (case map_of s (su_id u) of Some e \<Rightarrow> e | None \<Rightarrow> zero_session);
          s1 = AList.update (su_id u) (updated_session u now previous) s
      in if length s1 \<le> max_sessions then s1
         else fold AList.delete (map ss_id (drop max_sessions (sorted_sessions s1))) s1)"

definition upsert_session ::
  "write_faults \<Rightarrow> string \<Rightarrow> session_update \<Rightarrow> int \<Rightarrow> session store \<Rightarrow> go_error option \<times> session store" where
  "upsert_session w dir u now s =
     (if su_id u = [] then (None, s)
      else write_object w dir (sessions_path dir) s (session_put u now s))"

section \<open>Transcripts\<close>

text \<open>
  The transcript files by path. The message codec is a parameter; \<open>faults\<close> are the errors of the
  steps of a write, of which the last is wrapped.
\<close>

record transcript_faults =
  tf_prepare :: "go_error option"
  tf_rename :: "go_error option"

definition write_transcript ::
  "('m list \<Rightarrow> go_error + string) \<Rightarrow> transcript_faults \<Rightarrow> string \<Rightarrow> string \<Rightarrow> 'm list
     \<Rightarrow> (string \<rightharpoonup> string) \<Rightarrow> go_error option \<times> (string \<rightharpoonup> string)" where
  "write_transcript marshal w dir i messages files =
     (case transcript_path dir i of Inl e \<Rightarrow> (Some e, files)
      | Inr path \<Rightarrow>
      case marshal messages of Inl e \<Rightarrow> (Some (Wrap ''sessions: encode transcript'' e), files)
      | Inr data \<Rightarrow>
      case tf_prepare w of Some e \<Rightarrow> (Some e, files) | None \<Rightarrow>
      case tf_rename w of Some e \<Rightarrow> (Some (Wrap ''sessions: commit transcript'' e), files) | None \<Rightarrow>
      (None, files(path \<mapsto> data @ [CHR 0x0A])))"

text \<open>\<open>fault\<close> is an error of \<^verbatim>\<open>os.ReadFile\<close> other than a missing file.\<close>

definition read_transcript ::
  "(string \<Rightarrow> go_error + 'm list) \<Rightarrow> go_error option \<Rightarrow> string \<Rightarrow> string
     \<Rightarrow> (string \<rightharpoonup> string) \<Rightarrow> go_error + 'm list" where
  "read_transcript unmarshal fault dir i files =
     (case transcript_path dir i of Inl e \<Rightarrow> Inl e
      | Inr path \<Rightarrow>
      case files path of None \<Rightarrow> Inr []
      | Some data \<Rightarrow>
      case fault of Some e \<Rightarrow> Inl e | None \<Rightarrow>
      case unmarshal data of Inl e \<Rightarrow> Inl (Wrap ''sessions: decode transcript'' e)
      | Inr messages \<Rightarrow> Inr messages)"

section \<open>The two stores\<close>

lemma newest_stamp_bound: "x \<in> set s \<Longrightarrow> stamp (snd x) \<le> newest_stamp stamp s"
proof -
  have "b \<le> fold (\<lambda>x m. if m < stamp (snd x) then stamp (snd x) else m) s b
      \<and> (\<forall>x \<in> set s. stamp (snd x) \<le> fold (\<lambda>x m. if m < stamp (snd x) then stamp (snd x) else m) s b)" for b
  proof (induction s arbitrary: b)
    case (Cons y s)
    from Cons [of "if b < stamp (snd y) then stamp (snd y) else b"] show ?case by (auto split: if_splits)
  qed simp
  then show "x \<in> set s \<Longrightarrow> ?thesis" unfolding newest_stamp_def by blast
qed

lemma newest_stamp_attained: "newest_stamp stamp s = 0 \<or> (\<exists>x \<in> set s. newest_stamp stamp s = stamp (snd x))"
proof -
  have "fold (\<lambda>x m. if m < stamp (snd x) then stamp (snd x) else m) s b = b \<or>
      (\<exists>x \<in> set s. fold (\<lambda>x m. if m < stamp (snd x) then stamp (snd x) else m) s b = stamp (snd x))" for b
  proof (induction s arbitrary: b)
    case (Cons y s)
    from Cons [of "if b < stamp (snd y) then stamp (snd y) else b"] show ?case by (auto split: if_splits)
  qed simp
  then show ?thesis unfolding newest_stamp_def .
qed

lemma newest_stamp_nonneg: "0 \<le> newest_stamp stamp s"
proof -
  have "b \<le> fold (\<lambda>x m. if m < stamp (snd x) then stamp (snd x) else m) s b" for b
    by (induction s arbitrary: b) (auto intro: order_trans [OF less_imp_le])
  then show ?thesis unfolding newest_stamp_def .
qed

lemma next_stamp_above:
  assumes "\<forall>x \<in> set s. stamp (snd x) < 2 ^ 63 - 1" and "x \<in> set s"
  shows "stamp (snd x) < next_stamp stamp now s"
proof -
  have "newest_stamp stamp s < 2 ^ 63 - 1" using newest_stamp_attained [of stamp s] assms(1) by auto
  then have "wrap64 (newest_stamp stamp s + 1) = newest_stamp stamp s + 1"
    using newest_stamp_nonneg [of stamp s] by (intro wrap64_id) (simp add: in_int64_def)
  with newest_stamp_bound [OF assms(2), of stamp] show ?thesis by (simp add: next_stamp_def)
qed

definition draft_kept :: "draft \<Rightarrow> draft option" where
  "draft_kept d = (if draft_is_empty d then None else Some d)"

definition state_kept :: "session_state \<Rightarrow> session_state option" where
  "state_kept d = (if state_is_empty (normalize_session_state d) then None else Some (normalize_session_state d))"

interpretation drafts: recency_store dr_updated dr_draft max_drafts draft_put draft_delete draft_kept
proof
  show "\<exists>r. dr_draft r = e \<and> (\<forall>x \<in> set s. dr_updated (snd x) < dr_updated r)
      \<and> draft_put i d now s = prune dr_updated max_drafts (AList.update i r s)"
    if "draft_kept d = Some e" "\<forall>x \<in> set s. dr_updated (snd x) < 2 ^ 63 - 1" for d e s i now
    using that next_stamp_above [of s dr_updated]
    by (intro exI [of _ "\<lparr>dr_draft = d, dr_updated = next_stamp dr_updated now s\<rparr>"])
      (auto simp: draft_kept_def draft_put_def prune_drafts_def split: if_splits)
qed (auto simp: draft_kept_def draft_put_def draft_delete_def prune_drafts_def split: if_splits)

interpretation states: recency_store sr_updated sr_state max_session_states state_put state_delete state_kept
proof
  show "\<exists>r. sr_state r = e \<and> (\<forall>x \<in> set s. sr_updated (snd x) < sr_updated r)
      \<and> state_put i d now s = prune sr_updated max_session_states (AList.update i r s)"
    if "state_kept d = Some e" "\<forall>x \<in> set s. sr_updated (snd x) < 2 ^ 63 - 1" for d e s i now
    using that next_stamp_above [of s sr_updated]
    by (intro exI [of _ "\<lparr>sr_state = e, sr_updated = next_stamp sr_updated now s\<rparr>"])
      (auto simp: state_kept_def state_put_def prune_session_states_def Let_def split: if_splits)
qed (auto simp: state_kept_def state_put_def state_delete_def prune_session_states_def Let_def split: if_splits)

section \<open>What is kept of a client state\<close>

definition bounded_prompt :: "queued_prompt \<Rightarrow> bool" where
  "bounded_prompt p \<longleftrightarrow>
     list_all (\<lambda>a. utf16_length (at_url a) \<le> 1500000) (case qp_attachments p of Some as \<Rightarrow> as | None \<Rightarrow> [])
     \<and> list_all keeps_frozen (qp_frozen p) \<and> distinct (map chip_key (qp_unfrozen p)) \<and> qp_reattach p = []"

definition bounded_state :: "session_state \<Rightarrow> bool" where
  "bounded_state s \<longleftrightarrow>
     length (st_bash s) \<le> 200 \<and> list_all (\<lambda>b. utf16_length (be_output b) \<le> 100000) (st_bash s)
     \<and> length (st_queue s) \<le> 50 \<and> list_all bounded_prompt (st_queue s)"

lemma mark_unfrozen_fold:
  "set (map chip_key (snd p)) = set (fst p) \<Longrightarrow> distinct (map chip_key (snd p)) \<Longrightarrow>
   set (map chip_key (snd (fold mark_unfrozen fs p))) = set (fst (fold mark_unfrozen fs p))
   \<and> distinct (map chip_key (snd (fold mark_unfrozen fs p)))
   \<and> set (fst (fold mark_unfrozen fs p)) = set (fst p) \<union> chip_key ` set fs"
proof (induction fs arbitrary: p)
  case (Cons f fs)
  have "set (map chip_key (snd (mark_unfrozen f p))) = set (fst (mark_unfrozen f p))
      \<and> distinct (map chip_key (snd (mark_unfrozen f p)))
      \<and> set (fst (mark_unfrozen f p)) = insert (chip_key f) (set (fst p))"
    using Cons.prems by (auto simp: mark_unfrozen_def split: prod.splits)
  with Cons.IH [of "mark_unfrozen f p"] show ?case by simp
qed simp

lemma normalize_prompt_bounded: "bounded_prompt (normalize_queued_prompt p)"
proof -
  let ?keys = "map (\<lambda>f. file_key (ff_id f) (ff_path f)) (filter keeps_frozen (qp_frozen p))"
  note one = mark_unfrozen_fold [of "([], [])" "qp_reattach p"]
  have "distinct (map chip_key (qp_unfrozen (normalize_queued_prompt p)))"
    using one mark_unfrozen_fold [of "fold mark_unfrozen (qp_reattach p) ([], [])"
        "filter (\<lambda>f. chip_key f \<notin> set ?keys) (qp_files p)"]
    by (simp add: normalize_queued_prompt_def Let_def)
  then show ?thesis
    by (cases "qp_attachments p")
      (simp_all add: bounded_prompt_def normalize_queued_prompt_def Let_def list_all_iff max_attachment_url_def)
qed

text \<open>Every file of a queued prompt stays accounted for: frozen, or listed as not frozen.\<close>

lemma normalize_prompt_files:
  assumes "f \<in> set (qp_files p)"
  shows "chip_key f \<in> (\<lambda>g. file_key (ff_id g) (ff_path g)) ` set (qp_frozen (normalize_queued_prompt p))
    \<or> chip_key f \<in> chip_key ` set (qp_unfrozen (normalize_queued_prompt p))"
proof -
  let ?keys = "map (\<lambda>f. file_key (ff_id f) (ff_path f)) (filter keeps_frozen (qp_frozen p))"
  note one = mark_unfrozen_fold [of "([], [])" "qp_reattach p"]
  note two = mark_unfrozen_fold [of "fold mark_unfrozen (qp_reattach p) ([], [])"
        "filter (\<lambda>f. chip_key f \<notin> set ?keys) (qp_files p)"]
  from one two have "set (map chip_key (qp_unfrozen (normalize_queued_prompt p)))
      = chip_key ` set (qp_reattach p) \<union> chip_key ` {f \<in> set (qp_files p). chip_key f \<notin> set ?keys}"
    by (simp add: normalize_queued_prompt_def Let_def)
  with assms show ?thesis
    by (cases "chip_key f \<in> set ?keys") (auto simp: normalize_queued_prompt_def Let_def)
qed

lemma normalize_state_bounded: "bounded_state (normalize_session_state s)"
  by (simp add: bounded_state_def normalize_session_state_def list_all_iff normalize_prompt_bounded
      max_bash_entries_def max_bash_output_def max_queued_prompts_def utf16_suffix_bound)

section \<open>Writes and reads\<close>

lemma write_object_cases: "write_object w dir path old new = (e, s) \<Longrightarrow> (if e = None then s = new else s = old)"
  by (auto simp: write_object_def split: option.splits)

lemma no_entry: "map_of (filter (\<lambda>x. fst x \<noteq> i) xs) i = None"
  by (induction xs) auto



definition no_faults :: write_faults where
  "no_faults = \<lparr>wf_encode = None, wf_mkdir = None, wf_create = None, wf_write = None, wf_close = None,
     wf_chmod = None, wf_rename = None\<rparr>"

definition demo_state :: session_state where
  "demo_state = empty_state\<lparr>st_cwd := ''/w'', st_queue_hold := True\<rparr>"


text \<open>The drafts are the same store; nothing of a draft is cut.\<close>

lemma draft_store_refines:
  assumes "write_draft w dir i d now s = (None, s')" and "i \<noteq> []"
    and "gomap_wf s" and "length s \<le> 100" and "\<forall>x \<in> set s. dr_updated (snd x) < 2 ^ 63 - 1"
  shows "drafts.view s' = (let others = filter (\<lambda>x. fst x \<noteq> i) (drafts.view s)
      in if draft_is_empty d then others else take 100 ((i, d) # others)) \<and> gomap_wf s'"
proof -
  have "s' = draft_put i d now s"
    using assms(1,2) by (auto simp: write_draft_def draft_put_def dest: write_object_cases split: if_splits)
  then show ?thesis
    using drafts.view_put [OF assms(3) _ assms(5), of d d i now]
      drafts.view_put_nothing [OF assms(3), of d i now] assms(4)
    by (simp add: draft_kept_def max_drafts_def Let_def)
qed

section \<open>The registry of sessions\<close>

text \<open>Every entry carries the identifier it is filed under, as \<^verbatim>\<open>decodeSession\<close> makes it.\<close>

definition registry_ok :: "session store \<Rightarrow> bool" where
  "registry_ok s \<longleftrightarrow> gomap_wf s \<and> (\<forall>x \<in> set s. ss_id (snd x) = fst x)"

lemma update_all: "\<forall>x \<in> set s. P x \<Longrightarrow> P (k, v) \<Longrightarrow> \<forall>x \<in> set (AList.update k v s). P x"
  by (induction s) auto

lemma registry_update:
  "registry_ok s \<Longrightarrow> registry_ok (AList.update (su_id u) (updated_session u now previous) s)"
  by (simp add: registry_ok_def) (rule update_all; simp add: updated_session_def)

lemma sorted_sessions_ids:
  assumes "registry_ok s"
  shows "map ss_id (sorted_sessions s) = map fst (newest_first ss_updated s)"
proof -
  have "sorted_sessions s = map snd (newest_first ss_updated s)"
    using assms unfolding sorted_sessions_def newest_first_def sort_key_map
    by (intro arg_cong [where f = "map snd"] sort_key_cong_set)
      (auto simp: session_rank_def entry_rank_def registry_ok_def)
  with assms show ?thesis
    by (simp add: registry_ok_def)
qed

text \<open>The registry prunes as the other stores do.\<close>

lemma drop_sessions:
  assumes "registry_ok s"
  shows "fold AList.delete (map ss_id (drop n (sorted_sessions s))) s
    = fold AList.delete (drop n (sort_key (\<lambda>i. Rank (ss_updated (the (map_of s i))) i) (map fst s))) s"
  using assms by (simp only: sorted_ids registry_ok_def sorted_sessions_ids [OF assms] flip: drop_map)

lemma session_put_prunes:
  assumes "registry_ok s"
  shows "session_put u now s = prune ss_updated max_sessions (AList.update (su_id u)
    (updated_session u now (case map_of s (su_id u) of Some e \<Rightarrow> e | None \<Rightarrow> zero_session)) s)"
  unfolding session_put_def prune_def Let_def by (simp only: drop_sessions registry_update assms)

lemma prune_subset: "set (prune stamp limit s) \<subseteq> set s"
  by (auto simp: prune_def fold_delete)

lemma session_put_ok: "registry_ok s \<Longrightarrow> registry_ok (session_put u now s) \<and> length (session_put u now s) \<le> 500"
  using registry_update [of s u now] prune_subset
  by (fastforce simp: session_put_prunes registry_ok_def prune_bound max_sessions_def [symmetric])

text \<open>
  An entry stamped below all others is the first to be dropped: with a full registry of sessions
  stamped in the future, a new session is not kept at all.
\<close>

lemma update_oldest:
  assumes "gomap_wf s" and "i \<notin> fst ` set s" and "\<forall>x \<in> set s. stamp r < stamp (snd x)"
  shows "newest_first stamp (AList.update i r s) = newest_first stamp s @ [(i, r)]"
proof -
  let ?f = "entry_rank stamp"
  have "mset (AList.update i r s) = mset (newest_first stamp s @ [(i, r)])"
  proof -
    have "filter (\<lambda>x. fst x \<noteq> i) s = s" using assms(2) by (auto simp: filter_id_conv)
    then show ?thesis using mset_update [OF assms(1), of i r] by simp
  qed
  moreover have "inj_on ?f (set (AList.update i r s))"
    using gomap_wf_update [OF assms(1), of i r]
    by (auto simp: gomap_wf_def distinct_map inj_on_def entry_rank_def)
  moreover have "sorted (map ?f (newest_first stamp s @ [(i, r)]))"
    using assms(3) unfolding map_append sorted_append by (auto simp: entry_rank_def newest_first_def)
  ultimately show ?thesis unfolding newest_first_def by (rule sort_key_inj_key_eq)
qed

theorem new_session_dropped:
  assumes "registry_ok s" and "length s = 500" and "su_id u \<notin> fst ` set s" and "su_updated u = None"
    and "0 \<le> now" and "\<forall>x \<in> set s. now < ss_updated (snd x)"
  shows "newest_first ss_updated (session_put u now s) = newest_first ss_updated s"
proof -
  have "map_of s (su_id u) = None" using assms(3) by (simp add: map_of_eq_None_iff)
  with assms show ?thesis
    by (simp add: session_put_prunes prune_newest registry_ok_def update_oldest updated_session_def
        zero_session_def max_sessions_def)
qed

section \<open>Transcript files\<close>

lemma split_at_join: "split_at sep (u @ sep # v) = split_at sep u @ split_at sep v"
  by (induction u) (auto split: list.splits)

lemma clean_loop_append: "clean_loop stack (xs @ ys) = clean_loop (rev (clean_loop stack xs)) ys"
  by (induction stack xs rule: clean_loop.induct) simp_all

lemma comps_join_path: "good_comp c \<Longrightarrow> comps (join_path a c) = comps a @ [c]"
proof -
  assume good: "good_comp c"
  have "comps (join_path a c) = clean_loop [] (split_at slash a @ split_at slash c)"
    unfolding join_path_def comps_clean by (simp add: comps_def split_at_join)
  with good show ?thesis by (simp add: clean_loop_append split_at_id good_comp_def comps_def)
qed

lemma base_of_id: "i \<noteq> [] \<Longrightarrow> slash \<notin> set i \<Longrightarrow> base_of i = i"
proof -
  assume i: "i \<noteq> []" "slash \<notin> set i"
  then have "dropWhile (\<lambda>c. c = slash) (rev i) = rev i" by (cases "rev i") (auto dest: arg_cong [where f = set])
  moreover have "takeWhile (\<lambda>c. c \<noteq> slash) (rev i) = rev i" using i(2) by (auto simp: takeWhile_eq_all_conv)
  ultimately show ?thesis using i(1) unfolding base_of_def Let_def by (simp only: rev_rev_ident) simp
qed

definition invalid_id :: "string \<Rightarrow> bool" where
  "invalid_id i \<longleftrightarrow> i \<in> {[], ''.'', ''..''} \<or> CHR ''/'' \<in> set i \<or> CHR 0x5C \<in> set i"

definition transcript_file :: "string \<Rightarrow> string \<Rightarrow> string" where
  "transcript_file dir i = path_of (comps dir @ [''transcripts'', i @ ''.json''])"

lemma transcript_path_valid:
  "transcript_path dir name =
     (if invalid_id (trim_space name) then Inl (ErrText ''sessions: invalid session id'')
      else Inr (transcript_file dir (trim_space name)))"
proof (cases "invalid_id (trim_space name)")
  case True
  then show ?thesis by (simp add: transcript_path_def invalid_id_def Let_def)
next
  case False
  let ?i = "trim_space name"
  have i: "?i \<noteq> []" "slash \<notin> set ?i" using False by (auto simp: invalid_id_def)
  then have good: "good_comp (?i @ ''.json'')" "good_comp ''transcripts''"
    by (auto simp: good_comp_def append_eq_Cons_conv)
  have "join_path (transcripts_dir dir) (?i @ ''.json'') = path_of (comps (join_path (transcripts_dir dir) (?i @ ''.json'')))"
    by (simp add: join_path_def clean_def comps_good)
  also have "\<dots> = transcript_file dir ?i"
    by (simp add: comps_join_path good transcripts_dir_def transcript_file_def)
  finally show ?thesis
    using False i base_of_id [OF i] by (simp add: transcript_path_def invalid_id_def Let_def)
qed

lemma comps_transcript_file:
  "\<not> invalid_id i \<Longrightarrow> comps (transcript_file dir i) = comps dir @ [''transcripts'', i @ ''.json'']"
proof -
  assume i: "\<not> invalid_id i"
  then have "good_comp (i @ ''.json'')" by (simp add: good_comp_def invalid_id_def append_eq_Cons_conv)
  moreover have "good_comp ''transcripts''" by (simp add: good_comp_def)
  ultimately have "list_all good_comp (comps dir @ [''transcripts'', i @ ''.json''])"
    using comps_good [of dir] by simp
  then show ?thesis unfolding transcript_file_def by (rule comps_path_of)
qed

lemma transcript_file_inj:
  assumes "\<not> invalid_id i" and "\<not> invalid_id j" and "transcript_file dir i = transcript_file dir j"
  shows "i = j"
  using arg_cong [OF assms(3), of comps]
  unfolding comps_transcript_file [OF assms(1)] comps_transcript_file [OF assms(2)] by simp


definition demo_faults :: transcript_faults where
  "demo_faults = \<lparr>tf_prepare = None, tf_rename = None\<rparr>"


end
