(* ===== verification/Spec2Isabelle.thy ===== *)
theory Spec2Isabelle
  imports Steering Event_Stream Key_Pool Compaction Loop_Run Goal_Facts Hub_Store Tools_Read Chat_Sessions Delegation Cache_Warmer Storage
begin

text \<open>Midas.\<close>

end
